(* ===== verification/Plico_Prelude.thy ===== *)
theory Plico_Prelude
  imports Main "HOL-Library.List_Lexorder" "HOL-Library.Char_ord" "HOL-Library.Multiset"
begin

text \<open>
  Shared vocabulary of the development: the result type of fallible Rust code and its
  \<open>?\<close> operator, the part of the Rust standard library the modelled sources use on strings,
  integers and vectors, and the generic lemmas on lists and maps that the component
  theories rely on.

  Rust strings are UTF-8 byte sequences; \<^typ>\<open>string\<close> is a list of 8-bit characters, so a
  Rust \<open>String\<close> is modelled by its bytes, \<open>len\<close> counts bytes, and the byte-wise
  lexicographic order of \<open>str\<close> is the list order over characters.
\<close>

named_theorems res_simps \<open>simplification of results and the question-mark operator\<close>
named_theorems rust_std \<open>executable equations of the modelled standard-library functions\<close>

section \<open>Fallible computations\<close>

text \<open>\<open>Result<T, E>\<close> is \<open>'e + 'a\<close> with \<open>Inl\<close> for \<open>Err\<close>; \<open>expr?\<close> is \<open>res_bind\<close>.\<close>

definition res_bind :: "'e + 'a \<Rightarrow> ('a \<Rightarrow> 'e + 'b) \<Rightarrow> 'e + 'b" where
  "res_bind m f = (case m of Inl e \<Rightarrow> Inl e | Inr x \<Rightarrow> f x)"

definition ok_or :: "'a option \<Rightarrow> 'e \<Rightarrow> 'e + 'a" where
  "ok_or m e = (case m of None \<Rightarrow> Inl e | Some x \<Rightarrow> Inr x)"

definition ensure :: "bool \<Rightarrow> 'e \<Rightarrow> 'e + unit" where
  "ensure b e = (if b then Inr () else Inl e)"

lemma res_bind_Inl [simp]: "res_bind (Inl e) f = Inl e"
  by (simp add: res_bind_def)

lemma res_bind_Inr [simp]: "res_bind (Inr x) f = f x"
  by (simp add: res_bind_def)

lemma res_bind_eq_Inr [res_simps]:
  "res_bind m f = Inr y \<longleftrightarrow> (\<exists>x. m = Inr x \<and> f x = Inr y)"
  by (cases m) auto

lemma res_bind_eq_Inl [res_simps]:
  "res_bind m f = Inl e \<longleftrightarrow> m = Inl e \<or> (\<exists>x. m = Inr x \<and> f x = Inl e)"
  by (cases m) auto

lemma res_bind_assoc: "res_bind (res_bind m f) g = res_bind m (\<lambda>x. res_bind (f x) g)"
  by (cases m) auto

lemma ok_or_eq_Inr [simp]: "ok_or m e = Inr x \<longleftrightarrow> m = Some x"
  by (cases m) (auto simp: ok_or_def)

lemma ok_or_eq_Inl [res_simps]: "ok_or m e = Inl e' \<longleftrightarrow> m = None \<and> e' = e"
  by (cases m) (auto simp: ok_or_def)

lemma ok_or_Some [simp]: "ok_or (Some x) e = Inr x"
  by (simp add: ok_or_def)

lemma ok_or_None [simp]: "ok_or None e = Inl e"
  by (simp add: ok_or_def)

lemma ensure_eq_Inr [simp]: "ensure b e = Inr u \<longleftrightarrow> b"
  by (simp add: ensure_def)

lemma ensure_eq_Inl [res_simps]: "ensure b e = Inl e' \<longleftrightarrow> \<not> b \<and> e' = e"
  by (auto simp: ensure_def)

lemma ensure_True [simp]: "b \<Longrightarrow> ensure b e = Inr ()"
  by (simp add: ensure_def)

lemma ensure_False [simp]: "\<not> b \<Longrightarrow> ensure b e = Inl e"
  by (simp add: ensure_def)

text \<open>\<open>map_err\<close>.\<close>

definition map_err :: "('e \<Rightarrow> 'f) \<Rightarrow> 'e + 'a \<Rightarrow> 'f + 'a" where
  "map_err g m = (case m of Inl e \<Rightarrow> Inl (g e) | Inr x \<Rightarrow> Inr x)"

lemma map_err_eq_Inr [simp]: "map_err g m = Inr x \<longleftrightarrow> m = Inr x"
  by (cases m) (auto simp: map_err_def)

lemma map_err_Inr [simp]: "map_err g (Inr x) = Inr x"
  by (simp add: map_err_def)

lemma map_err_Inl [simp]: "map_err g (Inl e) = Inl (g e)"
  by (simp add: map_err_def)

text \<open>\<open>iter().map(f).collect::<Result<Vec<_>, _>>()\<close>: the first error stops the collection.\<close>

fun res_mapM :: "('a \<Rightarrow> 'e + 'b) \<Rightarrow> 'a list \<Rightarrow> 'e + 'b list" where
  "res_mapM f [] = Inr []"
| "res_mapM f (x # xs) = res_bind (f x) (\<lambda>y. res_bind (res_mapM f xs) (\<lambda>ys. Inr (y # ys)))"

lemma res_mapM_Inr_conv:
  "res_mapM f xs = Inr ys \<longleftrightarrow> list_all2 (\<lambda>x y. f x = Inr y) xs ys"
  by (induction xs arbitrary: ys) (auto simp: res_simps list_all2_Cons1)

lemma res_mapM_length: "res_mapM f xs = Inr ys \<Longrightarrow> length ys = length xs"
  by (auto simp: res_mapM_Inr_conv dest: list_all2_lengthD)

text \<open>A loop over a list that carries a state and may return early with an error.\<close>

fun res_foldM :: "('s \<Rightarrow> 'a \<Rightarrow> 'e + 's) \<Rightarrow> 's \<Rightarrow> 'a list \<Rightarrow> 'e + 's" where
  "res_foldM f s [] = Inr s"
| "res_foldM f s (x # xs) = res_bind (f s x) (\<lambda>s'. res_foldM f s' xs)"

lemma res_foldM_append:
  "res_foldM f s (xs @ ys) = res_bind (res_foldM f s xs) (\<lambda>s'. res_foldM f s' ys)"
  by (induction xs arbitrary: s) (simp_all add: res_bind_assoc)

lemma res_foldM_snoc_Inr:
  "res_foldM f s (xs @ [x]) = Inr s' \<longleftrightarrow> (\<exists>t. res_foldM f s xs = Inr t \<and> f t x = Inr s')"
  by (auto simp: res_foldM_append res_simps)

text \<open>Invariant rule for such loops, over the prefix processed so far.\<close>

lemma res_foldM_invariant:
  assumes "res_foldM f s0 xs = Inr s"
    and "I [] s0"
    and "\<And>ys y t t'. I ys t \<Longrightarrow> f t y = Inr t' \<Longrightarrow> y \<in> set xs \<Longrightarrow> I (ys @ [y]) t'"
  shows "I xs s"
  using assms
proof (induction xs arbitrary: s rule: rev_induct)
  case Nil
  then show ?case by simp
next
  case (snoc x xs)
  from snoc.prems(1) obtain t where t: "res_foldM f s0 xs = Inr t" "f t x = Inr s"
    by (auto simp: res_foldM_snoc_Inr)
  have "I xs t"
    by (rule snoc.IH [OF t(1) snoc.prems(2)]) (auto intro: snoc.prems(3))
  then show ?case using t(2) by (rule snoc.prems(3)) simp
qed

section \<open>Strings and bytes\<close>

text \<open>
  \<open>str::trim().is_empty()\<close>: every character has the Unicode property White_Space. The
  twenty-five code points are recognised in their UTF-8 encodings: U+0009..U+000D, U+0020,
  U+0085, U+00A0, U+1680, U+2000..U+200A, U+2028, U+2029, U+202F, U+205F, U+3000.
\<close>

definition white_space3 :: "nat \<Rightarrow> nat \<Rightarrow> nat \<Rightarrow> bool" where
  "white_space3 b c d \<longleftrightarrow>
     b = 225 \<and> c = 154 \<and> d = 128 \<or>
     b = 226 \<and> c = 128 \<and> (128 \<le> d \<and> d \<le> 138 \<or> d = 168 \<or> d = 169 \<or> d = 175) \<or>
     b = 226 \<and> c = 129 \<and> d = 159 \<or>
     b = 227 \<and> c = 128 \<and> d = 128"

fun blank_bytes :: "nat list \<Rightarrow> bool" where
  "blank_bytes [] \<longleftrightarrow> True"
| "blank_bytes (b # bs) \<longleftrightarrow>
     (if b = 32 \<or> (9 \<le> b \<and> b \<le> 13) then blank_bytes bs
      else case bs of [] \<Rightarrow> False
        | c # cs \<Rightarrow>
            if b = 194 \<and> (c = 133 \<or> c = 160) then blank_bytes cs
            else case cs of [] \<Rightarrow> False
              | d # ds \<Rightarrow> white_space3 b c d \<and> blank_bytes ds)"

definition trim_is_empty :: "string \<Rightarrow> bool" where
  "trim_is_empty s = blank_bytes (map of_char s)"

lemma trim_is_empty_Nil [simp]: "trim_is_empty []"
  by (simp add: trim_is_empty_def)

text \<open>
  \<open>str::to_lowercase\<close>, exact as far as a comparison with an ASCII literal can tell: the only
  characters whose lower-case form is ASCII are A..Z and U+212A (KELVIN SIGN, bytes
  E2 84 AA), which becomes \<open>k\<close>; every other byte stays outside ASCII.
\<close>

fun lower_bytes :: "nat list \<Rightarrow> nat list" where
  "lower_bytes [] = []"
| "lower_bytes (b # bs) =
     (if 65 \<le> b \<and> b \<le> 90 then (b + 32) # lower_bytes bs
      else case bs of
          c # d # ds \<Rightarrow>
            if b = 226 \<and> c = 132 \<and> d = 170 then 107 # lower_bytes ds else b # lower_bytes bs
        | _ \<Rightarrow> b # lower_bytes bs)"

definition to_lowercase :: "string \<Rightarrow> string" where
  "to_lowercase s = map char_of (lower_bytes (map of_char s))"

text \<open>\<open>{}\<close> of an unsigned integer: its decimal digits.\<close>

fun decimal :: "nat \<Rightarrow> string" where
  "decimal n = (if n < 10 then [char_of (48 + n)] else decimal (n div 10) @ [char_of (48 + n mod 10)])"

declare decimal.simps [simp del]

text \<open>\<open>u64::to_be_bytes\<close> and \<open>u32::to_be_bytes\<close>: a fixed-width big-endian encoding.\<close>

fun be_bytes :: "nat \<Rightarrow> nat \<Rightarrow> string" where
  "be_bytes 0 n = []"
| "be_bytes (Suc w) n = be_bytes w (n div 256) @ [char_of (n mod 256)]"

lemma length_be_bytes [simp]: "length (be_bytes w n) = w"
  by (induction w arbitrary: n) auto

lemma be_bytes_eq_Nil [simp]: "be_bytes w n = [] \<longleftrightarrow> w = 0"
  using length_be_bytes [of w n] by (metis length_0_conv)

lemma be_bytes_inj:
  assumes "be_bytes w m = be_bytes w n" and "m < 256 ^ w" and "n < 256 ^ w"
  shows "m = n"
  using assms
proof (induction w arbitrary: m n)
  case 0
  then show ?case by simp
next
  case (Suc w)
  have hi: "be_bytes w (m div 256) = be_bytes w (n div 256)"
    and lo: "(char_of (m mod 256) :: char) = char_of (n mod 256)"
    using Suc.prems(1) by auto
  have "m div 256 < 256 ^ w" and "n div 256 < 256 ^ w"
    using Suc.prems(2,3) by (simp_all add: less_mult_imp_div_less mult.commute)
  then have "m div 256 = n div 256"
    using Suc.IH [OF hi] by blast
  moreover have "m mod 256 = n mod 256"
    using arg_cong [OF lo, of "of_char :: char \<Rightarrow> nat"] by simp
  ultimately show ?case
    by (metis div_mult_mod_eq)
qed

text \<open>\<open>u64::saturating_mul\<close>; \<open>saturating_sub\<close> is the truncating subtraction of \<^typ>\<open>nat\<close>.\<close>

text \<open>\<open>byte.is_ascii_digit() || (b'a'..=b'f').contains(&byte)\<close>.\<close>

definition is_hex_byte :: "char \<Rightarrow> bool" where
  "is_hex_byte c \<longleftrightarrow>
     (let b = of_char c :: nat in 48 \<le> b \<and> b \<le> 57 \<or> 97 \<le> b \<and> b \<le> 102)"

definition u64_max :: nat where
  "u64_max = 2 ^ 64 - 1"

definition saturating_mul_u64 :: "nat \<Rightarrow> nat \<Rightarrow> nat" where
  "saturating_mul_u64 a b = min (a * b) u64_max"

definition saturating_add_u64 :: "nat \<Rightarrow> nat \<Rightarrow> nat" where
  "saturating_add_u64 a b = min (a + b) u64_max"

lemma saturating_mul_le [simp]: "saturating_mul_u64 a b \<le> u64_max"
  by (simp add: saturating_mul_u64_def)

lemma saturating_mul_mono: "b \<le> c \<Longrightarrow> saturating_mul_u64 a b \<le> saturating_mul_u64 a c"
  unfolding saturating_mul_u64_def by (intro min.mono mult_le_mono2) simp_all

text \<open>
  Well-formed UTF-8: one to four bytes per character, without overlong forms, surrogates and code
  points beyond U+10FFFF.
\<close>

definition continuation_byte :: "nat \<Rightarrow> bool" where
  "continuation_byte b \<longleftrightarrow> 128 \<le> b \<and> b \<le> 191"

fun utf8_bytes :: "nat list \<Rightarrow> bool" where
  "utf8_bytes [] \<longleftrightarrow> True"
| "utf8_bytes (a # bs) \<longleftrightarrow>
     (if a < 128 then utf8_bytes bs
      else case bs of
          [] \<Rightarrow> False
        | b # cs \<Rightarrow>
            if 194 \<le> a \<and> a \<le> 223 then continuation_byte b \<and> utf8_bytes cs
            else case cs of
                [] \<Rightarrow> False
              | c # ds \<Rightarrow>
                  if 224 \<le> a \<and> a \<le> 239
                  then continuation_byte b \<and> continuation_byte c
                       \<and> (a = 224 \<longrightarrow> 160 \<le> b) \<and> (a = 237 \<longrightarrow> b \<le> 159) \<and> utf8_bytes ds
                  else case ds of
                      [] \<Rightarrow> False
                    | d # es \<Rightarrow>
                        240 \<le> a \<and> a \<le> 244 \<and> continuation_byte b \<and> continuation_byte c \<and> continuation_byte d
                        \<and> (a = 240 \<longrightarrow> 144 \<le> b) \<and> (a = 244 \<longrightarrow> b \<le> 143) \<and> utf8_bytes es)"

definition utf8_valid :: "string \<Rightarrow> bool" where
  "utf8_valid s = utf8_bytes (map of_char s)"

text \<open>
  \<open>BufRead::lines\<close>: the bytes up to each line feed, without it and without a carriage return before
  it; a last line needs no line feed.
\<close>

definition newline :: char where
  "newline = CHR 0x0A"

definition strip_cr :: "string \<Rightarrow> string" where
  "strip_cr l = (if l \<noteq> [] \<and> last l = CHR 0x0D then butlast l else l)"

function lines_of :: "string \<Rightarrow> string list" where
  "lines_of s =
     (if s = [] then []
      else let l = takeWhile (\<lambda>c. c \<noteq> newline) s; rest = dropWhile (\<lambda>c. c \<noteq> newline) s
           in if rest = [] then [l] else strip_cr l # lines_of (tl rest))"
  by pat_completeness auto
termination
  by (relation "measure length") (auto intro: le_less_trans [OF diff_le_mono [OF length_dropWhile_le]])

declare lines_of.simps [simp del]

lemma lines_of_Nil [simp]: "lines_of [] = []"
  by (simp add: lines_of.simps)

lemma lines_of_line:
  assumes "newline \<notin> set l"
  shows "lines_of (l @ newline # s) = strip_cr l # lines_of s"
proof -
  have "takeWhile (\<lambda>c. c \<noteq> newline) (l @ newline # s) = l"
    "dropWhile (\<lambda>c. c \<noteq> newline) (l @ newline # s) = newline # s"
    using assms by (induction l) auto
  then show ?thesis by (subst lines_of.simps) simp
qed

section \<open>Vectors and maps\<close>

text \<open>
  \<open>windows(2).all(|w| w[0] < w[1])\<close>, and the \<open>sort\<close>, \<open>dedup\<close> pair on a vector of strings.
\<close>

fun is_sorted_unique :: "string list \<Rightarrow> bool" where
  "is_sorted_unique [] \<longleftrightarrow> True"
| "is_sorted_unique [x] \<longleftrightarrow> True"
| "is_sorted_unique (x # y # zs) \<longleftrightarrow> x < y \<and> is_sorted_unique (y # zs)"

lemma is_sorted_unique_iff: "is_sorted_unique xs \<longleftrightarrow> sorted_wrt (<) xs"
  by (induction xs rule: is_sorted_unique.induct) (auto intro: less_trans)

lemma is_sorted_unique_distinct: "is_sorted_unique xs \<Longrightarrow> distinct xs"
  by (simp add: is_sorted_unique_iff strict_sorted_iff)

text \<open>\<open>HashMap::entry(k).or_default()\<close> on a map of vectors.\<close>

definition or_default :: "('k \<rightharpoonup> 'v list) \<Rightarrow> 'k \<Rightarrow> 'v list" where
  "or_default m k = (case m k of None \<Rightarrow> [] | Some v \<Rightarrow> v)"

lemma or_default_upd [simp]: "or_default (m(k \<mapsto> v)) k = v"
  by (simp add: or_default_def)

lemma or_default_upd_other [simp]: "j \<noteq> k \<Longrightarrow> or_default (m(k \<mapsto> v)) j = or_default m j"
  by (simp add: or_default_def)

lemma or_default_empty [simp]: "or_default Map.empty k = []"
  by (simp add: or_default_def)

text \<open>\<open>iter().collect::<HashMap<_, _>>()\<close>: a later pair with the same key wins.\<close>

definition collect_map :: "('k \<times> 'v) list \<Rightarrow> ('k \<rightharpoonup> 'v)" where
  "collect_map kvs = map_of (rev kvs)"

lemma collect_map_Nil [simp]: "collect_map [] = Map.empty"
  by (simp add: collect_map_def)

lemma collect_map_snoc [simp]: "collect_map (kvs @ [(k, v)]) = (collect_map kvs)(k \<mapsto> v)"
  by (simp add: collect_map_def)

lemma collect_map_None: "collect_map kvs k = None \<longleftrightarrow> k \<notin> fst ` set kvs"
  by (simp add: collect_map_def map_of_eq_None_iff)

lemma collect_map_SomeD: "collect_map kvs k = Some v \<Longrightarrow> (k, v) \<in> set kvs"
  by (auto simp: collect_map_def dest: map_of_SomeD)

lemma find_None_iff_filter: "find P xs = None \<longleftrightarrow> filter P xs = []"
  by (auto simp: find_None_iff filter_empty_conv)

lemma find_Some_in: "find P xs = Some x \<Longrightarrow> x \<in> set xs \<and> P x"
  by (auto simp: find_Some_iff)

text \<open>The last element of a filtered list, the shape of every "latest record" lookup.\<close>

definition last_opt :: "'a list \<Rightarrow> 'a option" where
  "last_opt xs = (if xs = [] then None else Some (last xs))"

lemma last_opt_Nil [simp]: "last_opt [] = None"
  by (simp add: last_opt_def)

lemma last_opt_snoc [simp]: "last_opt (xs @ [x]) = Some x"
  by (simp add: last_opt_def)

lemma last_opt_filter_snoc [simp]:
  "last_opt (filter P (xs @ [x])) = (if P x then Some x else last_opt (filter P xs))"
  by (simp add: last_opt_def)

lemma last_opt_eq_Some: "last_opt xs = Some x \<longleftrightarrow> xs \<noteq> [] \<and> x = last xs"
  by (auto simp: last_opt_def)

lemma last_opt_in_set: "last_opt (filter P xs) = Some x \<Longrightarrow> x \<in> set xs \<and> P x"
  by (metis last_opt_eq_Some last_in_set mem_Collect_eq set_filter)

lemma last_opt_None [simp]: "last_opt xs = None \<longleftrightarrow> xs = []"
  by (simp add: last_opt_def)

lemma last_opt_ex [simp]: "(\<exists>x. last_opt xs = Some x) \<longleftrightarrow> xs \<noteq> []"
  by (simp add: last_opt_def)

text \<open>
  A list whose first element satisfies \<open>I\<close> and whose neighbours are related by \<open>R\<close>: the
  shape of every append-only history of the ledger.
\<close>

fun chained :: "('a \<Rightarrow> bool) \<Rightarrow> ('a \<Rightarrow> 'a \<Rightarrow> bool) \<Rightarrow> 'a list \<Rightarrow> bool" where
  "chained I R [] \<longleftrightarrow> True"
| "chained I R (x # xs) \<longleftrightarrow> I x \<and> successively R (x # xs)"

lemma chained_snoc:
  "chained I R (xs @ [x]) \<longleftrightarrow>
     chained I R xs \<and> (case last_opt xs of None \<Rightarrow> I x | Some p \<Rightarrow> R p x)"
proof (cases xs)
  case Nil
  then show ?thesis by simp
next
  case (Cons y ys)
  have "successively R ((y # ys) @ [x]) \<longleftrightarrow> successively R (y # ys) \<and> R (last (y # ys)) x"
    by (subst successively_append_iff) simp
  with Cons show ?thesis by (auto simp: last_opt_def)
qed

lemma chained_invariant:
  assumes "chained I R xs" and "\<And>x. I x \<Longrightarrow> P x" and "\<And>x y. P x \<Longrightarrow> R x y \<Longrightarrow> P y"
  shows "\<forall>x \<in> set xs. P x"
  using assms(1)
proof (induction xs rule: rev_induct)
  case Nil
  then show ?case by simp
next
  case (snoc x xs)
  then have "\<forall>y \<in> set xs. P y" by (simp add: chained_snoc)
  moreover have "P x"
  proof (cases "xs = []")
    case True
    with snoc.prems assms(2) show ?thesis by simp
  next
    case False
    then have "R (last xs) x" using snoc.prems by (simp add: chained_snoc last_opt_def)
    moreover have "P (last xs)" using False calculation \<open>\<forall>y \<in> set xs. P y\<close> by simp
    ultimately show ?thesis using assms(3) by blast
  qed
  ultimately show ?case by simp
qed

lemma find_append:
  "find P (xs @ ys) = (case find P xs of None \<Rightarrow> find P ys | Some x \<Rightarrow> Some x)"
  by (induction xs) auto

lemma image_iff_find: "k \<in> f ` set xs \<longleftrightarrow> (\<exists>x. find (\<lambda>x. f x = k) xs = Some x)"
  by (induction xs) auto

lemma find_unique:
  assumes "distinct (map f xs)" and "x \<in> set xs"
  shows "find (\<lambda>y. f y = f x) xs = Some x"
  using assms by (induction xs) (auto simp: image_iff)

lemma collect_map_append:
  "collect_map (kvs @ ls) k = (case collect_map ls k of None \<Rightarrow> collect_map kvs k | Some v \<Rightarrow> Some v)"
  unfolding collect_map_def rev_append map_of_append map_add_def by (simp split: option.splits)

lemma collect_map_unique:
  assumes "distinct (map fst kvs)" and "(k, v) \<in> set kvs"
  shows "collect_map kvs k = Some v"
proof -
  have "distinct (map fst (rev kvs))" using assms(1) by (simp flip: rev_map)
  then show ?thesis using assms(2) by (simp add: collect_map_def)
qed

lemma collect_map_last:
  "collect_map (map (\<lambda>x. (f x, x)) xs) k = last_opt (filter (\<lambda>x. f x = k) xs)"
  by (induction xs rule: rev_induct) (auto simp: last_opt_def)

lemma res_mapM_total:
  assumes "\<And>x. x \<in> set xs \<Longrightarrow> f x = Inr (g x)"
  shows "res_mapM f xs = Inr (map g xs)"
  using assms by (induction xs) auto

lemma last_opt_append:
  "last_opt (xs @ ys) = (case last_opt ys of None \<Rightarrow> last_opt xs | Some y \<Rightarrow> Some y)"
  by (auto simp: last_opt_def)

lemma last_opt_map: "last_opt (map f xs) = map_option f (last_opt xs)"
  by (simp add: last_opt_def last_map)

lemma sort_key_distinct_strict:
  fixes f :: "'a \<Rightarrow> 'k :: linorder"
  assumes "distinct (map f xs)"
  shows "sorted_wrt (<) (map f (sort_key f xs))"
proof -
  have "distinct (map f (sort_key f xs))"
    using assms by (simp add: distinct_map)
  then show ?thesis by (simp add: strict_sorted_iff)
qed

text \<open>\<open>errs P m\<close>: every error that \<open>m\<close> can return satisfies \<open>P\<close>.\<close>

named_theorems errs_intro \<open>rules for the errors of composed computations\<close>

definition errs :: "('e \<Rightarrow> bool) \<Rightarrow> 'e + 'a \<Rightarrow> bool" where
  "errs P m \<longleftrightarrow> (case m of Inl e \<Rightarrow> P e | Inr _ \<Rightarrow> True)"

lemma errsD: "errs P m \<Longrightarrow> m = Inl e \<Longrightarrow> P e"
  by (simp add: errs_def)

lemma errs_Inr [errs_intro]: "errs P (Inr x)"
  by (simp add: errs_def)

lemma errs_Inl [errs_intro]: "P e \<Longrightarrow> errs P (Inl e)"
  by (simp add: errs_def)

lemma errs_bind [errs_intro]: "errs P m \<Longrightarrow> (\<And>x. errs P (f x)) \<Longrightarrow> errs P (res_bind m f)"
  by (cases m) (auto simp: errs_def)

lemma errs_ensure [errs_intro]: "P e \<Longrightarrow> errs P (ensure b e)"
  by (cases b) (auto simp: errs_def)

lemma errs_ok_or [errs_intro]: "P e \<Longrightarrow> errs P (ok_or m e)"
  by (cases m) (auto simp: errs_def)

lemma errs_map_err [errs_intro]: "(\<And>e. P (g e)) \<Longrightarrow> errs P (map_err g m)"
  by (cases m) (auto simp: errs_def)

lemma errs_foldM [errs_intro]: "(\<And>s x. errs P (f s x)) \<Longrightarrow> errs P (res_foldM f s xs)"
  by (induction xs arbitrary: s) (auto intro: errs_intro)

lemma errs_mapM [errs_intro]: "(\<And>x. errs P (f x)) \<Longrightarrow> errs P (res_mapM f xs)"
  by (induction xs) (auto intro: errs_intro)

lemma chained_mono:
  assumes "chained I R xs"
    and "\<And>x. x \<in> set xs \<Longrightarrow> I x \<Longrightarrow> I' x"
    and "\<And>x y. x \<in> set xs \<Longrightarrow> y \<in> set xs \<Longrightarrow> R x y \<Longrightarrow> R' x y"
  shows "chained I' R' xs"
  using assms
proof (induction xs rule: rev_induct)
  case Nil
  then show ?case by simp
next
  case (snoc x xs)
  have "chained I' R' xs" using snoc by (auto simp: chained_snoc)
  then show ?case
    using snoc.prems by (auto simp: chained_snoc last_opt_def split: option.splits if_splits)
qed

text \<open>\<open>succeeds m\<close>: the computation returns a value.\<close>

definition succeeds :: "'e + 'a \<Rightarrow> bool" where
  "succeeds m \<longleftrightarrow> (\<exists>x. m = Inr x)"

lemma succeeds_Inr [simp]: "succeeds (Inr x)"
  by (simp add: succeeds_def)

lemma succeeds_bind:
  "succeeds m \<Longrightarrow> (\<And>x. m = Inr x \<Longrightarrow> succeeds (f x)) \<Longrightarrow> succeeds (res_bind m f)"
  by (auto simp: succeeds_def)

lemma succeeds_ensure [simp]: "succeeds (ensure b e) \<longleftrightarrow> b"
  by (cases b) (auto simp: succeeds_def)

lemma succeeds_ok_or [simp]: "succeeds (ok_or m e) \<longleftrightarrow> m \<noteq> None"
  by (cases m) (auto simp: succeeds_def)

text \<open>The last elements of a history: what a bounded buffer that drops its oldest element holds.\<close>

definition window :: "nat \<Rightarrow> 'a list \<Rightarrow> 'a list" where
  "window n xs = drop (length xs - n) xs"

lemma take_window [simp]: "take (length xs - n) xs @ window n xs = xs"
  by (simp add: window_def)

lemma window_length: "length (window n xs) = min n (length xs)"
  by (simp add: window_def)

lemma window_snoc:
  "0 < n \<Longrightarrow> window n (xs @ [x]) = (if n \<le> length (window n xs) then tl (window n xs) else window n xs) @ [x]"
  by (auto simp: window_def min_def Suc_diff_le drop_Suc tl_drop)

end
