(* ===== verification/Memory_Model.thy ===== *)
theory Memory_Model
  imports Plico_Prelude "HOL-Library.Word"
begin

text \<open>
  The data model of a memory entry and its canonical content hash
  (\<^verbatim>\<open>src/memory/layered/mod.rs\<close>, the types and \<^verbatim>\<open>impl MemoryContent\<close>,
  \<^verbatim>\<open>impl MemoryEntry\<close>). The main results: the byte string that is hashed determines the
  content (the length-prefixed framing is unambiguous), so equal canonical hashes mean equal
  content up to a SHA-256 collision; and the access-refresh rule of the time-to-live.
\<close>

section \<open>Code outside the repository\<close>

text \<open>
  The functions of third-party crates that the ledger calls are fields of a parameter
  record: \<open>sha256_hex\<close> is \<^verbatim>\<open>format!("{:x}", Sha256::digest(bytes))\<close>, \<open>jcs_json\<close> the JCS
  serialisation \<^verbatim>\<open>serde_json_canonicalizer::to_vec\<close> of a JSON value (\<open>None\<close> when it
  fails), \<open>jcs_content\<close> the same function on a \<^verbatim>\<open>MemoryContent\<close>, and \<open>uuid_ok\<close> is \<^verbatim>\<open>Uuid::parse_str(s).is_ok()\<close>.
\<close>

datatype json_number = PosInt "64 word" | NegInt int | JFloat "64 word"

datatype json =
    JNull
  | JBool bool
  | JNumber json_number
  | JString string
  | JArray "json list"
  | JObject "(string \<times> json) list"

section \<open>Data\<close>

datatype memory_scope = ScopePrivate | ScopeShared | ScopeGroup string

datatype memory_type = Episodic | Semantic | ProceduralType | Untyped

datatype memory_tier = Ephemeral | Working | LongTerm | Procedural

record procedure_step =
  step_number :: "32 word"
  step_description :: string
  step_action :: string
  step_expected_outcome :: string

record procedure =
  proc_name :: string
  proc_description :: string
  proc_steps :: "procedure_step list"
  proc_learned_from :: string

text \<open>The \<open>f32\<close> confidence is kept as its IEEE bit pattern, which is all the code reads.\<close>

record knowledge_piece =
  kn_subject :: string
  kn_statement :: string
  kn_confidence :: "32 word"
  kn_source :: string

datatype memory_content =
    Text string
  | ObjectRef string
  | Structured json
  | ProcedureContent procedure
  | Knowledge knowledge_piece

record xenv =
  sha256_hex :: "string \<Rightarrow> string"
  jcs_json :: "json \<Rightarrow> string option"
  jcs_content :: "memory_content \<Rightarrow> string option"
  uuid_ok :: "string \<Rightarrow> bool"

record memory_entry =
  en_id :: string
  en_memory_id :: string
  en_parent_revision_id :: "string option"
  en_canonical_content_hash :: string
  en_agent_id :: string
  en_tenant_id :: string
  en_tier :: memory_tier
  en_content :: memory_content
  en_importance :: nat
  en_access_count :: nat
  en_last_accessed :: nat
  en_created_at :: nat
  en_tags :: "string list"
  en_ttl_ms :: "nat option"
  en_original_ttl_ms :: "nat option"
  en_scope :: memory_scope
  en_memory_type :: memory_type
  en_causal_parent :: "string option"
  en_supersedes :: "string option"
  en_superseded_by :: "string option"
  en_deleted_at :: "nat option"

definition DEFAULT_TENANT :: string where
  "DEFAULT_TENANT = ''default''"

definition PERSONAL_OWNER_ROLE_ID :: string where
  "PERSONAL_OWNER_ROLE_ID = ''personal-owner''"

section \<open>Names of types and tiers\<close>

fun memory_type_name :: "memory_type \<Rightarrow> string" where
  "memory_type_name Episodic = ''episodic''"
| "memory_type_name Semantic = ''semantic''"
| "memory_type_name ProceduralType = ''procedural''"
| "memory_type_name Untyped = ''untyped''"

definition from_str_loose :: "string \<Rightarrow> memory_type" where
  "from_str_loose s =
     (let l = to_lowercase s in
      if l \<in> {''episodic'', ''event'', ''episode''} then Episodic
      else if l \<in> {''semantic'', ''fact'', ''knowledge''} then Semantic
      else if l \<in> {''procedural'', ''procedure'', ''skill'', ''workflow''} then ProceduralType
      else Untyped)"

fun tier_priority :: "memory_tier \<Rightarrow> nat" where
  "tier_priority Ephemeral = 3"
| "tier_priority Working = 2"
| "tier_priority LongTerm = 1"
| "tier_priority Procedural = 0"

fun tier_name :: "memory_tier \<Rightarrow> string" where
  "tier_name Ephemeral = ''ephemeral''"
| "tier_name Working = ''working''"
| "tier_name LongTerm = ''long_term''"
| "tier_name Procedural = ''procedural''"

section \<open>Canonical content hash\<close>

definition MAX_JCS_SAFE_INTEGER :: nat where
  "MAX_JCS_SAFE_INTEGER = 9007199254740991"

fun as_u64 :: "json_number \<Rightarrow> nat option" where
  "as_u64 (PosInt n) = Some (unat n)"
| "as_u64 (NegInt i) = None"
| "as_u64 (JFloat f) = None"

fun as_i64 :: "json_number \<Rightarrow> int option" where
  "as_i64 (PosInt n) = (if uint n \<le> 2 ^ 63 - 1 then Some (uint n) else None)"
| "as_i64 (NegInt i) = Some i"
| "as_i64 (JFloat f) = None"

definition jcs_safe_number :: "json_number \<Rightarrow> bool" where
  "jcs_safe_number n \<longleftrightarrow>
     \<not> ((case as_u64 n of Some v \<Rightarrow> v > MAX_JCS_SAFE_INTEGER | None \<Rightarrow> False)
      \<or> (case as_i64 n of Some v \<Rightarrow> nat \<bar>v\<bar> > MAX_JCS_SAFE_INTEGER | None \<Rightarrow> False))"

fun ensure_jcs_safe_numbers :: "json \<Rightarrow> string + unit"
  and ensure_jcs_safe_array :: "json list \<Rightarrow> string + unit"
  and ensure_jcs_safe_object :: "(string \<times> json) list \<Rightarrow> string + unit" where
  "ensure_jcs_safe_numbers (JNumber n) = ensure (jcs_safe_number n) ''jcs_unsafe_integer''"
| "ensure_jcs_safe_numbers (JArray vs) = ensure_jcs_safe_array vs"
| "ensure_jcs_safe_numbers (JObject kvs) = ensure_jcs_safe_object kvs"
| "ensure_jcs_safe_numbers JNull = Inr ()"
| "ensure_jcs_safe_numbers (JBool b) = Inr ()"
| "ensure_jcs_safe_numbers (JString s) = Inr ()"
| "ensure_jcs_safe_array [] = Inr ()"
| "ensure_jcs_safe_array (v # vs) =
     res_bind (ensure_jcs_safe_numbers v) (\<lambda>_. ensure_jcs_safe_array vs)"
| "ensure_jcs_safe_object [] = Inr ()"
| "ensure_jcs_safe_object ((k, v) # kvs) =
     res_bind (ensure_jcs_safe_numbers v) (\<lambda>_. ensure_jcs_safe_object kvs)"

text \<open>\<open>f32::is_finite\<close> on the bit pattern: the exponent field is not all ones.\<close>

definition f32_is_finite :: "32 word \<Rightarrow> bool" where
  "f32_is_finite bits \<longleftrightarrow> (unat bits div 2 ^ 23) mod 256 \<noteq> 255"

definition hash_component :: "string \<Rightarrow> string \<Rightarrow> string" where
  "hash_component kind v =
     be_bytes 8 (length kind) @ kind @ be_bytes 8 (length v) @ v"

definition step_components :: "procedure_step \<Rightarrow> (string \<times> string) list" where
  "step_components st =
     [(''step_number'', be_bytes 4 (unat (step_number st))),
      (''step_description'', step_description st),
      (''step_action'', step_action st),
      (''step_outcome'', step_expected_outcome st)]"

fun content_components :: "xenv \<Rightarrow> memory_content \<Rightarrow> string + (string \<times> string) list" where
  "content_components x (Text v) = Inr [(''text'', v)]"
| "content_components x (ObjectRef v) = Inr [(''object_ref'', v)]"
| "content_components x (Structured v) =
     res_bind (ensure_jcs_safe_numbers v) (\<lambda>_.
     res_bind (ok_or (jcs_json x v) ''jcs_canonicalization_failed'') (\<lambda>encoded.
     Inr [(''structured_json'', encoded)]))"
| "content_components x (ProcedureContent p) =
     Inr ([(''procedure_name'', proc_name p),
           (''procedure_description'', proc_description p),
           (''procedure_learned_from'', proc_learned_from p)]
          @ concat (map step_components (proc_steps p)))"
| "content_components x (Knowledge k) =
     (if \<not> f32_is_finite (kn_confidence k) then Inl ''non_finite_knowledge_confidence''
      else Inr [(''knowledge_subject'', kn_subject k),
                (''knowledge_statement'', kn_statement k),
                (''knowledge_confidence'', be_bytes 4 (unat (kn_confidence k))),
                (''knowledge_source'', kn_source k)])"

definition CONTENT_DOMAIN :: string where
  "CONTENT_DOMAIN = ''plico.memory.content.v1'' @ [CHR 0x00]"

definition frame_components :: "(string \<times> string) list \<Rightarrow> string" where
  "frame_components cs = concat (map (\<lambda>(kind, v). hash_component kind v) cs)"

definition canonical_content_hash :: "xenv \<Rightarrow> memory_content \<Rightarrow> string + string" where
  "canonical_content_hash x c =
     res_bind (content_components x c) (\<lambda>cs.
     Inr (sha256_hex x (CONTENT_DOMAIN @ frame_components cs)))"

section \<open>Entry operations\<close>

definition as_text :: "memory_content \<Rightarrow> string option" where
  "as_text c = (case c of Text s \<Rightarrow> Some s | _ \<Rightarrow> None)"

text \<open>
  \<open>display\<close>; \<open>json_str\<close> stands for \<^verbatim>\<open>serde_json::to_string(v).unwrap_or_default()\<close>.
\<close>

fun content_display :: "(json \<Rightarrow> string) \<Rightarrow> memory_content \<Rightarrow> string" where
  "content_display json_str (Text s) = s"
| "content_display json_str (ObjectRef cid) = ''[ObjectRef: '' @ cid @ '']''"
| "content_display json_str (Structured v) = json_str v"
| "content_display json_str (ProcedureContent p) = proc_description p"
| "content_display json_str (Knowledge k) = kn_statement k"

definition seal_root_identity :: "xenv \<Rightarrow> memory_entry \<Rightarrow> string + memory_entry" where
  "seal_root_identity x e =
     (let e1 = (if en_memory_id e = [] then e\<lparr>en_memory_id := en_id e\<rparr> else e) in
      if en_canonical_content_hash e1 = []
      then res_bind (canonical_content_hash x (en_content e1)) (\<lambda>h.
           Inr (e1\<lparr>en_canonical_content_hash := h\<rparr>))
      else Inr e1)"

definition root_entry ::
  "xenv \<Rightarrow> string \<Rightarrow> nat \<Rightarrow> string \<Rightarrow> memory_tier \<Rightarrow> memory_content \<Rightarrow> string list \<Rightarrow>
   string + memory_entry" where
  "root_entry x uuid now agent tier content tags =
     res_bind (canonical_content_hash x content) (\<lambda>h.
     Inr \<lparr>en_id = uuid, en_memory_id = uuid, en_parent_revision_id = None,
          en_canonical_content_hash = h, en_agent_id = agent, en_tenant_id = DEFAULT_TENANT,
          en_tier = tier, en_content = content, en_importance = 50, en_access_count = 0,
          en_last_accessed = now, en_created_at = now, en_tags = tags, en_ttl_ms = None,
          en_original_ttl_ms = None, en_scope = ScopePrivate, en_memory_type = Untyped,
          en_causal_parent = None, en_supersedes = None, en_superseded_by = None,
          en_deleted_at = None\<rparr>)"

text \<open>
  \<open>MemoryEntry::ephemeral\<close> and \<open>MemoryEntry::long_term\<close>; the \<open>expect\<close> on the hash is the
  error branch of \<open>root_entry\<close>.
\<close>

definition entry_ephemeral :: "xenv \<Rightarrow> string \<Rightarrow> nat \<Rightarrow> string \<Rightarrow> string \<Rightarrow> string + memory_entry" where
  "entry_ephemeral x uuid now agent text = root_entry x uuid now agent Ephemeral (Text text) []"

definition entry_long_term ::
  "xenv \<Rightarrow> string \<Rightarrow> nat \<Rightarrow> string \<Rightarrow> memory_content \<Rightarrow> string list \<Rightarrow> string + memory_entry" where
  "entry_long_term x uuid now agent content tags = root_entry x uuid now agent LongTerm content tags"

definition with_root_revision_id :: "string \<Rightarrow> memory_entry \<Rightarrow> memory_entry" where
  "with_root_revision_id rid e =
     e\<lparr>en_id := rid, en_memory_id := rid, en_parent_revision_id := None\<rparr>"

text \<open>\<open>access_count\<close> is a \<open>u32\<close>: the increment wraps in the release profile.\<close>

definition on_memory_access :: "nat \<Rightarrow> memory_entry \<Rightarrow> memory_entry" where
  "on_memory_access now e =
     (let e1 = e\<lparr>en_access_count := (en_access_count e + 1) mod 2 ^ 32, en_last_accessed := now\<rparr> in
      case en_original_ttl_ms e1 of
        Some original \<Rightarrow>
          e1\<lparr>en_ttl_ms := Some (saturating_mul_u64 original (min (en_access_count e1) 5))\<rparr>
      | None \<Rightarrow> e1)"

section \<open>The framing is unambiguous\<close>

definition sized :: "(string \<times> string) list \<Rightarrow> bool" where
  "sized cs \<longleftrightarrow> (\<forall>(kind, v) \<in> set cs. length kind < 2 ^ 64 \<and> length v < 2 ^ 64)"

lemma hash_component_cancel:
  assumes eq: "hash_component k1 v1 @ r1 = hash_component k2 v2 @ r2"
    and len: "length k1 < 2 ^ 64" "length k2 < 2 ^ 64" "length v1 < 2 ^ 64" "length v2 < 2 ^ 64"
  shows "k1 = k2 \<and> v1 = v2 \<and> r1 = r2"
proof -
  have w: "(256::nat) ^ 8 = 2 ^ 64" by simp
  from eq have "be_bytes 8 (length k1) = be_bytes 8 (length k2)"
    and t: "k1 @ be_bytes 8 (length v1) @ v1 @ r1 = k2 @ be_bytes 8 (length v2) @ v2 @ r2"
    by (auto simp: hash_component_def append_eq_append_conv)
  then have "length k1 = length k2"
    using len(1,2) be_bytes_inj [of 8 "length k1" "length k2"] unfolding w by blast
  with t have k: "k1 = k2"
    and "be_bytes 8 (length v1) @ v1 @ r1 = be_bytes 8 (length v2) @ v2 @ r2"
    by auto
  then have "be_bytes 8 (length v1) = be_bytes 8 (length v2)" and u: "v1 @ r1 = v2 @ r2"
    by (auto simp: append_eq_append_conv)
  then have "length v1 = length v2"
    using len(3,4) be_bytes_inj [of 8 "length v1" "length v2"] unfolding w by blast
  with u k show ?thesis by auto
qed

lemma frame_components_inj:
  "frame_components cs = frame_components ds \<Longrightarrow> sized cs \<Longrightarrow> sized ds \<Longrightarrow> cs = ds"
proof (induction cs arbitrary: ds)
  case Nil
  then show ?case
    by (cases ds) (auto simp: frame_components_def hash_component_def)
next
  case (Cons c cs)
  obtain k v where c: "c = (k, v)" by force
  from Cons.prems(1) c obtain k' v' es where ds: "ds = (k', v') # es"
    by (cases ds) (auto simp: frame_components_def hash_component_def)
  from Cons.prems c ds have "hash_component k v @ frame_components cs
      = hash_component k' v' @ frame_components es"
    by (simp add: frame_components_def)
  then have "k = k' \<and> v = v' \<and> frame_components cs = frame_components es"
    using Cons.prems(2,3) c ds by (intro hash_component_cancel) (auto simp: sized_def)
  moreover have "sized cs" "sized es"
    using Cons.prems(2,3) ds by (auto simp: sized_def)
  ultimately show ?case using Cons.IH c ds by blast
qed

lemma word32_bytes_inj:
  fixes b c :: "32 word"
  assumes "be_bytes 4 (unat b) = be_bytes 4 (unat c)"
  shows "b = c"
proof -
  have "unat u < 256 ^ 4" for u :: "32 word" using unsigned_less [of u] by simp
  then have "unat b = unat c" using assms be_bytes_inj by blast
  then show ?thesis by (rule unsigned_word_eqI)
qed

lemma step_components_inj:"step_components s = step_components t \<Longrightarrow> s = t"
proof -
  assume eq: "step_components s = step_components t"
  have "step_number s = step_number t"
    using eq by (intro word32_bytes_inj) (simp add: step_components_def)
  then show "s = t"
    using eq by (intro procedure_step.equality) (auto simp: step_components_def)
qed

lemma steps_components_inj:
  "concat (map step_components ss) = concat (map step_components ts) \<Longrightarrow> ss = ts"
proof (induction ss arbitrary: ts)
  case Nil
  then show ?case by (cases ts) (auto simp: step_components_def)
next
  case (Cons s ss)
  then obtain t ts' where ts: "ts = t # ts'"
    by (cases ts) (auto simp: step_components_def)
  have len: "length (step_components u) = 4" for u by (simp add: step_components_def)
  from Cons.prems ts have "step_components s = step_components t"
    and "concat (map step_components ss) = concat (map step_components ts')"
    using len by (auto simp: append_eq_append_conv)
  then show ?case using Cons.IH ts step_components_inj by blast
qed

text \<open>
  Contents are the same when they are equal, or structured with one canonical JSON form: RFC 8785
  prints the numbers \<open>1\<close> and \<open>1.0\<close> alike, so its output does not determine the JSON value.
\<close>

fun same_content :: "xenv \<Rightarrow> memory_content \<Rightarrow> memory_content \<Rightarrow> bool" where
  "same_content x (Structured v) (Structured w) \<longleftrightarrow> jcs_json x v = jcs_json x w"
| "same_content x c d \<longleftrightarrow> c = d"

lemma content_components_inj:
  assumes "content_components x c = Inr k" and "content_components x d = Inr k"
  shows "same_content x c d"
  using assms
  by (cases c; cases d)
     (auto simp: res_simps step_components_def
        intro!: procedure.equality knowledge_piece.equality steps_components_inj word32_bytes_inj
        split: if_splits)

text \<open>
  C28.  The canonical content hash identifies the content: two contents of representable size
  that hash to the same value are the same content, unless SHA-256 maps their two (distinct)
  preimages to the same digest. No two different contents share a preimage.
\<close>

theorem canonical_content_hash_identifies:
  assumes "content_components x c = Inr k" and "sized k"
    and "content_components x d = Inr l" and "sized l"
    and "canonical_content_hash x c = canonical_content_hash x d"
  shows "same_content x c d \<or> (CONTENT_DOMAIN @ frame_components k \<noteq> CONTENT_DOMAIN @ frame_components l
    \<and> sha256_hex x (CONTENT_DOMAIN @ frame_components k)
      = sha256_hex x (CONTENT_DOMAIN @ frame_components l))"
proof (cases "frame_components k = frame_components l")
  case True
  then have "k = l" using assms(2,4) by (rule frame_components_inj)
  then show ?thesis using assms(1,3) content_components_inj by blast
next
  case False
  then show ?thesis using assms(1,3,5) by (simp add: canonical_content_hash_def)
qed

theorem canonical_content_hash_identifies_witness:
  "let x = \<lparr>sha256_hex = (\<lambda>_. ''0''), jcs_json = (\<lambda>_. None), jcs_content = (\<lambda>_. None), uuid_ok = (\<lambda>_. True)\<rparr> in
   canonical_content_hash x (Text ''a'') = canonical_content_hash x (ObjectRef ''a'')
   \<and> frame_components [(''text'', ''a'')] \<noteq> frame_components [(''object_ref'', ''a'')]"
  using canonical_content_hash_identifies
    [of "\<lparr>sha256_hex = (\<lambda>_. ''0''), jcs_json = (\<lambda>_. None), jcs_content = (\<lambda>_. None), uuid_ok = (\<lambda>_. True)\<rparr>"
        "Text ''a''" "[(''text'', ''a'')]" "ObjectRef ''a''" "[(''object_ref'', ''a'')]"]
  by (simp add: sized_def canonical_content_hash_def)

text \<open>
  Refreshing the time to live on an access never overflows and never extends it beyond five
  times its original value, whatever the access count, its wrap-around included.
\<close>

theorem on_memory_access_ttl_bound:
  assumes "en_original_ttl_ms e = Some original"
  shows "\<exists>t. en_ttl_ms (on_memory_access now e) = Some t \<and> t \<le> 5 * original \<and> t \<le> u64_max"
proof -
  have "original * min m 5 \<le> 5 * original" for m by (simp add: mult.commute)
  then show ?thesis
    using assms by (auto simp: on_memory_access_def Let_def saturating_mul_u64_def min_le_iff_disj)
qed

definition demo_entry :: memory_entry where
  "demo_entry = \<lparr>en_id = ''a'', en_memory_id = ''a'', en_parent_revision_id = None, en_canonical_content_hash = [],
     en_agent_id = ''agent'', en_tenant_id = DEFAULT_TENANT, en_tier = Working, en_content = Text ''a'',
     en_importance = 50, en_access_count = 2 ^ 32 - 1, en_last_accessed = 0, en_created_at = 0, en_tags = [],
     en_ttl_ms = Some u64_max, en_original_ttl_ms = Some u64_max, en_scope = ScopePrivate,
     en_memory_type = Untyped, en_causal_parent = None, en_supersedes = None, en_superseded_by = None,
     en_deleted_at = None\<rparr>"

theorem on_memory_access_ttl_bound_witness:
  "\<exists>t. en_ttl_ms (on_memory_access 5 demo_entry) = Some t \<and> t \<le> 5 * u64_max \<and> t \<le> u64_max"
  by (rule on_memory_access_ttl_bound) (simp add: demo_entry_def)

lemma from_str_loose_name: "from_str_loose (memory_type_name t) = t"
  by (cases t; hypsubst; code_simp)

end
