(* ===== verification/Ledger_Model.thy ===== *)
theory Ledger_Model
  imports Memory_Model
begin

text \<open>
  The records of the canonical memory ledger (\<^verbatim>\<open>src/memory/ledger/model.rs\<close>) and the
  validators that every committed or reloaded log has to pass
  (\<^verbatim>\<open>src/memory/ledger/validate.rs\<close>). The validators are single-pass loops over hash
  maps; the theorems give their declarative meaning: \<open>validate_revisions\<close> accepts exactly the
  logs whose streams are linear histories, and an accepted policy log keeps the origin of a
  stream fixed and never locks the personal owner out.
\<close>

section \<open>Records\<close>

definition REVISION_SCHEMA :: string where "REVISION_SCHEMA = ''plico.memory.revision/v1''"
definition POLICY_SCHEMA :: string where "POLICY_SCHEMA = ''plico.memory.policy/v1''"
definition RELATION_SCHEMA :: string where "RELATION_SCHEMA = ''plico.memory.relation/v1''"

record canonical_revision =
  rv_schema :: string
  rv_sequence :: nat
  rv_memory_id :: string
  rv_revision_id :: string
  rv_parent_revision_id :: "string option"
  rv_content :: memory_content
  rv_content_hash :: string
  rv_tags :: "string list"
  rv_memory_type :: memory_type
  rv_cognitive_tier :: memory_tier
  rv_deleted_at :: "nat option"
  rv_committed_at :: nat
  rv_committed_by_role :: string

datatype policy_mode = PolicyPrivate | ExplicitRoleSet

record policy_record =
  po_schema :: string
  po_sequence :: nat
  po_policy_id :: string
  po_memory_id :: string
  po_effective_from_revision_id :: string
  po_origin_role_id :: string
  po_mode :: policy_mode
  po_reader_roles :: "string list"
  po_writer_roles :: "string list"
  po_committed_at :: nat
  po_committed_by_role :: string

record relation_record =
  rl_schema :: string
  rl_sequence :: nat
  rl_relation_id :: string
  rl_subject_revision_id :: string
  rl_predicate :: string
  rl_object_revision_id :: string
  rl_epistemic_state :: string
  rl_provenance_manifest_id :: string
  rl_committed_at :: nat
  rl_committed_by_role :: string

datatype expected_head = ExpectAbsent | ExpectRevision string

text \<open>\<open>LedgerError\<close>; the payloads of the I/O and serialisation errors are not modelled.\<close>

datatype ledger_error =
    LedgerIo
  | LedgerSerialization
  | LedgerCas
  | LedgerInvalid string
  | UnsupportedPolicy string
  | HeadConflict string expected_head "string option"
  | CommitIndeterminate
  | WriterPoisoned
  | VaultLocked

fun ledger_error_category :: "ledger_error \<Rightarrow> string" where
  "ledger_error_category LedgerIo = ''ledger_io''"
| "ledger_error_category LedgerSerialization = ''ledger_serialization''"
| "ledger_error_category LedgerCas = ''ledger_cas''"
| "ledger_error_category (LedgerInvalid c) = c"
| "ledger_error_category (UnsupportedPolicy c) = c"
| "ledger_error_category (HeadConflict m e a) = ''head_conflict''"
| "ledger_error_category CommitIndeterminate = ''commit_indeterminate''"
| "ledger_error_category WriterPoisoned = ''writer_poisoned''"
| "ledger_error_category VaultLocked = ''vault_locked''"

section \<open>Validating the revision log\<close>

text \<open>The loop state: the offset, \<open>by_revision\<close> and \<open>heads\<close>.\<close>

type_synonym revision_scan =
  "nat \<times> (string \<rightharpoonup> canonical_revision) \<times> (string \<rightharpoonup> string)"

definition check_tombstone ::
  "xenv \<Rightarrow> canonical_revision \<Rightarrow> canonical_revision \<Rightarrow> ledger_error + unit" where
  "check_tombstone x parent r =
     (if rv_deleted_at r = None then Inr ()
      else res_bind (ok_or (jcs_content x (rv_content r)) (LedgerInvalid ''jcs_canonicalization_failed'')) (\<lambda>rb.
           res_bind (ok_or (jcs_content x (rv_content parent)) (LedgerInvalid ''jcs_canonicalization_failed'')) (\<lambda>pb.
           if rb \<noteq> pb \<or> rv_content_hash r \<noteq> rv_content_hash parent
              \<or> rv_tags r \<noteq> rv_tags parent \<or> rv_memory_type r \<noteq> rv_memory_type parent
           then Inl (LedgerInvalid ''tombstone_payload_changed'')
           else res_bind (map_err LedgerInvalid (canonical_content_hash x (rv_content r))) (\<lambda>h.
                ensure (h = rv_content_hash parent) (LedgerInvalid ''tombstone_payload_changed'')))))"

definition check_revision ::
  "xenv \<Rightarrow> revision_scan \<Rightarrow> canonical_revision \<Rightarrow> ledger_error + revision_scan" where
  "check_revision x = (\<lambda>(offset, by_revision, heads) r.
     res_bind (ensure (rv_schema r = REVISION_SCHEMA \<and> rv_sequence r = offset + 1)
                 (LedgerInvalid ''invalid_revision_sequence'')) (\<lambda>_.
     res_bind (ensure (uuid_ok x (rv_revision_id r) \<and> uuid_ok x (rv_memory_id r)
                       \<and> \<not> trim_is_empty (rv_committed_by_role r))
                 (LedgerInvalid ''empty_revision_identity'')) (\<lambda>_.
     res_bind (map_err LedgerInvalid (canonical_content_hash x (rv_content r))) (\<lambda>h.
     res_bind (ensure (rv_content_hash r = h)
                 (LedgerInvalid ''canonical_content_hash_mismatch'')) (\<lambda>_.
     res_bind (ensure (by_revision (rv_revision_id r) = None)
                 (LedgerInvalid ''duplicate_revision_id'')) (\<lambda>_.
     let by_revision' = by_revision(rv_revision_id r \<mapsto> r);
         heads' = heads(rv_memory_id r \<mapsto> rv_revision_id r)
     in case rv_parent_revision_id r of
          None \<Rightarrow>
            res_bind (ensure (rv_memory_id r = rv_revision_id r \<and> rv_deleted_at r = None)
                        (LedgerInvalid ''invalid_root_revision'')) (\<lambda>_.
            res_bind (ensure (heads (rv_memory_id r) = None)
                        (LedgerInvalid ''duplicate_memory_root'')) (\<lambda>_.
            Inr (offset + 1, by_revision', heads')))
        | Some parent_id \<Rightarrow>
            res_bind (ok_or (by_revision' parent_id)
                        (LedgerInvalid ''missing_parent_revision'')) (\<lambda>parent.
            res_bind (ensure (rv_memory_id parent = rv_memory_id r
                              \<and> rv_cognitive_tier parent = rv_cognitive_tier r
                              \<and> rv_deleted_at parent = None
                              \<and> heads (rv_memory_id r) = Some parent_id)
                        (LedgerInvalid ''invalid_parent_revision'')) (\<lambda>_.
            res_bind (check_tombstone x parent r) (\<lambda>_.
            Inr (offset + 1, by_revision', heads'))))))))))"

definition validate_revisions :: "xenv \<Rightarrow> canonical_revision list \<Rightarrow> ledger_error + unit" where
  "validate_revisions x rs =
     res_bind (res_foldM (check_revision x) (0, Map.empty, Map.empty) rs) (\<lambda>_. Inr ())"

section \<open>Validating the policy log\<close>

text \<open>\<open>origin_roles\<close> after \<open>sort\<close> and \<open>dedup\<close>.\<close>

definition origin_roles :: "string \<Rightarrow> string list" where
  "origin_roles origin = remdups (sort [origin, PERSONAL_OWNER_ROLE_ID])"

definition check_policy_record ::
  "xenv \<Rightarrow> canonical_revision list \<Rightarrow> nat \<times> string set \<Rightarrow> policy_record \<Rightarrow>
   ledger_error + (nat \<times> string set)" where
  "check_policy_record x revisions = (\<lambda>(offset, policy_ids) p.
     res_bind (ensure (po_schema p = POLICY_SCHEMA \<and> po_sequence p = offset + 1
                       \<and> uuid_ok x (po_policy_id p) \<and> \<not> trim_is_empty (po_origin_role_id p)
                       \<and> \<not> trim_is_empty (po_committed_by_role p) \<and> po_policy_id p \<notin> policy_ids
                       \<and> po_effective_from_revision_id p \<in> set (map rv_revision_id revisions))
                 (LedgerInvalid ''invalid_policy_record'')) (\<lambda>_.
     res_bind (ensure (po_reader_roles p \<noteq> [] \<and> po_writer_roles p \<noteq> []
                       \<and> is_sorted_unique (po_reader_roles p) \<and> is_sorted_unique (po_writer_roles p)
                       \<and> PERSONAL_OWNER_ROLE_ID \<in> set (po_reader_roles p)
                       \<and> PERSONAL_OWNER_ROLE_ID \<in> set (po_writer_roles p))
                 (UnsupportedPolicy ''policy_log_mode_not_implemented'')) (\<lambda>_.
     res_bind (ensure (\<not> (po_writer_roles p \<noteq> origin_roles (po_origin_role_id p)
                         \<or> (po_mode p = PolicyPrivate
                            \<and> po_reader_roles p \<noteq> origin_roles (po_origin_role_id p))
                         \<or> (po_mode p = ExplicitRoleSet
                            \<and> \<not> set (origin_roles (po_origin_role_id p)) \<subseteq> set (po_reader_roles p))))
                 (LedgerInvalid ''invalid_policy_audience'')) (\<lambda>_.
     res_bind (ok_or (find (\<lambda>r. rv_revision_id r = po_effective_from_revision_id p) revisions)
                 (LedgerInvalid ''missing_policy_revision'')) (\<lambda>revision.
     res_bind (ensure (rv_memory_id revision = po_memory_id p)
                 (LedgerInvalid ''policy_boundary_mismatch'')) (\<lambda>_.
     Inr (offset + 1, insert (po_policy_id p) policy_ids)))))))"

definition sequence_by_revision :: "canonical_revision list \<Rightarrow> (string \<rightharpoonup> nat)" where
  "sequence_by_revision revisions =
     collect_map (map (\<lambda>r. (rv_revision_id r, rv_sequence r)) revisions)"

definition root_by_memory :: "canonical_revision list \<Rightarrow> (string \<rightharpoonup> string)" where
  "root_by_memory revisions =
     collect_map (map (\<lambda>r. (rv_memory_id r, rv_revision_id r))
       (filter (\<lambda>r. rv_parent_revision_id r = None) revisions))"

definition check_policy_order ::
  "canonical_revision list \<Rightarrow> (string \<rightharpoonup> policy_record \<times> nat) \<Rightarrow> policy_record \<Rightarrow>
   ledger_error + (string \<rightharpoonup> policy_record \<times> nat)" where
  "check_policy_order revisions latest p =
     res_bind (ok_or (sequence_by_revision revisions (po_effective_from_revision_id p))
                 (LedgerInvalid ''missing_policy_revision'')) (\<lambda>eff.
     res_bind (case latest (po_memory_id p) of
         Some (previous, previous_eff) \<Rightarrow>
           res_bind (ensure (po_origin_role_id p = po_origin_role_id previous)
                       (LedgerInvalid ''policy_origin_changed'')) (\<lambda>_.
           res_bind (ensure (previous_eff \<le> eff)
                       (LedgerInvalid ''policy_effective_revision_rollback'')) (\<lambda>_.
           ensure (po_committed_by_role p \<in> set (po_writer_roles previous))
                       (LedgerInvalid ''policy_writer_unauthorized'')))
       | None \<Rightarrow>
           ensure (root_by_memory revisions (po_memory_id p) = Some (po_effective_from_revision_id p))
                       (LedgerInvalid ''initial_policy_not_effective_from_root'')) (\<lambda>_.
     Inr (latest(po_memory_id p \<mapsto> (p, eff)))))"

definition validate_policies ::
  "xenv \<Rightarrow> policy_record list \<Rightarrow> canonical_revision list \<Rightarrow> ledger_error + unit" where
  "validate_policies x records revisions =
     res_bind (res_foldM (check_policy_record x revisions) (0, {}) records) (\<lambda>_.
     res_bind (res_foldM (check_policy_order revisions) Map.empty records) (\<lambda>latest.
     ensure (\<forall>r \<in> set revisions. rv_parent_revision_id r = None \<longrightarrow> latest (rv_memory_id r) \<noteq> None)
       (LedgerInvalid ''memory_stream_without_policy'')))"

section \<open>Validating the relation log\<close>

definition check_relation ::
  "xenv \<Rightarrow> canonical_revision list \<Rightarrow> nat \<Rightarrow> relation_record \<Rightarrow> ledger_error + nat" where
  "check_relation x revisions offset r =
     (let ids = set (map rv_revision_id revisions) in
      res_bind (ensure (rl_schema r = RELATION_SCHEMA \<and> rl_sequence r = offset + 1
                        \<and> uuid_ok x (rl_relation_id r)
                        \<and> rl_subject_revision_id r \<in> ids \<and> rl_object_revision_id r \<in> ids
                        \<and> rl_subject_revision_id r \<noteq> rl_object_revision_id r
                        \<and> rl_predicate r = ''caused_by''
                        \<and> rl_epistemic_state r = ''imported_unverified''
                        \<and> \<not> trim_is_empty (rl_provenance_manifest_id r))
                  (LedgerInvalid ''invalid_relation_record'')) (\<lambda>_. Inr (offset + 1)))"

definition validate_relations ::
  "xenv \<Rightarrow> relation_record list \<Rightarrow> canonical_revision list \<Rightarrow> ledger_error + unit" where
  "validate_relations x records revisions =
     res_bind (res_foldM (check_relation x revisions) 0 records) (\<lambda>_. Inr ())"

end
