(* ===== verification/Ledger_Validate.thy ===== *)
theory Ledger_Validate
  imports Ledger_Model
begin

text \<open>
  What the validators of \<^verbatim>\<open>src/memory/ledger/validate.rs\<close> accept. The revision validator
  is characterised by an equivalence with a declarative predicate; the policy validator by
  the guarantees its callers rely on.
\<close>

section \<open>Linear histories\<close>

text \<open>The immutable revision stream of one logical memory.\<close>

definition stream :: "string \<Rightarrow> canonical_revision list \<Rightarrow> canonical_revision list" where
  "stream m rs = filter (\<lambda>r. rv_memory_id r = m) rs"

lemma stream_Nil [simp]: "stream m [] = []"
  by (simp add: stream_def)

lemma stream_append [simp]: "stream m (rs @ ss) = stream m rs @ stream m ss"
  by (simp add: stream_def)

lemma stream_Cons [simp]:
  "stream m (r # rs) = (if rv_memory_id r = m then r # stream m rs else stream m rs)"
  by (simp add: stream_def)

lemma set_stream [simp]: "set (stream m rs) = {r \<in> set rs. rv_memory_id r = m}"
  by (auto simp: stream_def)

definition is_root :: "canonical_revision \<Rightarrow> bool" where
  "is_root r \<longleftrightarrow> rv_parent_revision_id r = None \<and> rv_memory_id r = rv_revision_id r
                  \<and> rv_deleted_at r = None"

text \<open>
  \<open>r\<close> directly follows \<open>p\<close>: it names \<open>p\<close> as its parent, stays in the tier, never follows a
  tombstone, and if it is a tombstone itself it keeps the payload.
\<close>

definition revises :: "xenv \<Rightarrow> canonical_revision \<Rightarrow> canonical_revision \<Rightarrow> bool" where
  "revises x p r \<longleftrightarrow>
     rv_parent_revision_id r = Some (rv_revision_id p)
     \<and> rv_cognitive_tier p = rv_cognitive_tier r \<and> rv_deleted_at p = None
     \<and> (rv_deleted_at r \<noteq> None \<longrightarrow>
          jcs_content x (rv_content r) \<noteq> None
          \<and> jcs_content x (rv_content p) = jcs_content x (rv_content r)
          \<and> rv_content_hash p = rv_content_hash r
          \<and> rv_tags p = rv_tags r \<and> rv_memory_type p = rv_memory_type r)"

definition linear_history :: "xenv \<Rightarrow> canonical_revision list \<Rightarrow> bool" where
  "linear_history x = chained is_root (revises x)"

definition well_identified :: "xenv \<Rightarrow> nat \<Rightarrow> canonical_revision \<Rightarrow> bool" where
  "well_identified x n r \<longleftrightarrow>
     rv_schema r = REVISION_SCHEMA \<and> rv_sequence r = n + 1
     \<and> uuid_ok x (rv_revision_id r) \<and> uuid_ok x (rv_memory_id r)
     \<and> \<not> trim_is_empty (rv_committed_by_role r)
     \<and> canonical_content_hash x (rv_content r) = Inr (rv_content_hash r)"

definition revision_log_wf :: "xenv \<Rightarrow> canonical_revision list \<Rightarrow> bool" where
  "revision_log_wf x rs \<longleftrightarrow>
     (\<forall>i < length rs. well_identified x i (rs ! i))
     \<and> distinct (map rv_revision_id rs)
     \<and> (\<forall>m. linear_history x (stream m rs))"

text \<open>What one more record has to satisfy.\<close>

definition admissible :: "xenv \<Rightarrow> canonical_revision list \<Rightarrow> canonical_revision \<Rightarrow> bool" where
  "admissible x rs r \<longleftrightarrow>
     well_identified x (length rs) r
     \<and> rv_revision_id r \<notin> rv_revision_id ` set rs
     \<and> (case last_opt (stream (rv_memory_id r) rs) of
          None \<Rightarrow> is_root r
        | Some p \<Rightarrow> revises x p r)"

lemma linear_history_snoc:
  "linear_history x (rs @ [r]) \<longleftrightarrow>
     linear_history x rs \<and> (case last_opt rs of None \<Rightarrow> is_root r | Some p \<Rightarrow> revises x p r)"
  by (simp add: linear_history_def chained_snoc)

lemma revision_log_wf_snoc:
  "revision_log_wf x (rs @ [r]) \<longleftrightarrow> revision_log_wf x rs \<and> admissible x rs r"
proof -
  have "(\<forall>m. linear_history x (stream m (rs @ [r]))) \<longleftrightarrow>
      (\<forall>m. linear_history x (stream m rs))
      \<and> (case last_opt (stream (rv_memory_id r) rs) of None \<Rightarrow> is_root r | Some p \<Rightarrow> revises x p r)"
    by (auto simp: linear_history_snoc split: if_splits)
  moreover have "(\<forall>i < length (rs @ [r]). well_identified x i ((rs @ [r]) ! i)) \<longleftrightarrow>
      (\<forall>i < length rs. well_identified x i (rs ! i)) \<and> well_identified x (length rs) r"
    by (auto simp: nth_append less_Suc_eq)
  ultimately show ?thesis
    by (auto simp: revision_log_wf_def admissible_def)
qed

lemma revision_log_wf_Nil [simp]: "revision_log_wf x []"
  by (simp add: revision_log_wf_def linear_history_def)

lemma revision_log_wf_prefix: "revision_log_wf x (rs @ ss) \<Longrightarrow> revision_log_wf x rs"
  by (induction ss rule: rev_induct)
     (auto simp: revision_log_wf_snoc simp flip: append_assoc)

section \<open>The scan of the validator\<close>

definition scan_state :: "canonical_revision list \<Rightarrow> revision_scan" where
  "scan_state rs =
     (length rs, (\<lambda>i. find (\<lambda>r. rv_revision_id r = i) rs),
      (\<lambda>m. map_option rv_revision_id (last_opt (stream m rs))))"

lemma scan_state_snoc:
  assumes "rv_revision_id r \<notin> rv_revision_id ` set rs"
  shows "scan_state (rs @ [r]) =
    (length rs + 1, (\<lambda>i. find (\<lambda>r. rv_revision_id r = i) rs)(rv_revision_id r \<mapsto> r),
     (\<lambda>m. map_option rv_revision_id (last_opt (stream m rs)))(rv_memory_id r \<mapsto> rv_revision_id r))"
proof -
  have "find (\<lambda>s. rv_revision_id s = i) (rs @ [r]) =
      ((\<lambda>i. find (\<lambda>r. rv_revision_id r = i) rs)(rv_revision_id r \<mapsto> r)) i" for i
  proof (cases "i = rv_revision_id r")
    case True
    then have "find (\<lambda>s. rv_revision_id s = i) rs = None"
      using assms by (auto simp: find_None_iff image_iff)
    with True show ?thesis by (simp add: find_append)
  next
    case False
    then show ?thesis by (simp add: find_append split: option.split)
  qed
  then show ?thesis
    by (auto simp: scan_state_def fun_eq_iff)
qed

lemma check_tombstone_ok:
  assumes "canonical_content_hash x (rv_content r) = Inr (rv_content_hash r)"
  shows "check_tombstone x p r = Inr u \<longleftrightarrow>
    (rv_deleted_at r \<noteq> None \<longrightarrow>
       jcs_content x (rv_content r) \<noteq> None
       \<and> jcs_content x (rv_content p) = jcs_content x (rv_content r)
       \<and> rv_content_hash p = rv_content_hash r
       \<and> rv_tags p = rv_tags r \<and> rv_memory_type p = rv_memory_type r)"
  using assms by (auto simp: check_tombstone_def res_simps)

lemma check_revision_scan:
  assumes wf: "revision_log_wf x rs"
  shows "check_revision x (scan_state rs) r = Inr s \<longleftrightarrow>
    admissible x rs r \<and> s = scan_state (rs @ [r])"
proof (cases "well_identified x (length rs) r \<and> rv_revision_id r \<notin> rv_revision_id ` set rs")
  case False
  then show ?thesis
    by (auto simp: check_revision_def scan_state_def well_identified_def admissible_def
        res_simps find_None_iff)
next
  case True
  then have fresh: "rv_revision_id r \<notin> rv_revision_id ` set rs"
    and none: "find (\<lambda>s. rv_revision_id s = rv_revision_id r) rs = None"
    and hash: "canonical_content_hash x (rv_content r) = Inr (rv_content_hash r)"
    by (auto simp: find_None_iff well_identified_def image_iff)
  have found: "find (\<lambda>s. rv_revision_id s = rv_revision_id p) rs = Some p
      \<and> rv_revision_id p \<noteq> rv_revision_id r \<and> rv_memory_id p = rv_memory_id r"
    if "last_opt (stream (rv_memory_id r) rs) = Some p" for p
  proof -
    from that have "p \<in> set rs \<and> rv_memory_id p = rv_memory_id r"
      unfolding stream_def by (rule last_opt_in_set)
    moreover have "distinct (map rv_revision_id rs)"
      using wf by (simp add: revision_log_wf_def)
    ultimately show ?thesis
      using fresh find_unique [of rv_revision_id rs p] by (metis imageI)
  qed
  show ?thesis
  proof (cases "rv_parent_revision_id r")
    case None
    then show ?thesis
      using True none hash
      by (auto simp: check_revision_def scan_state_snoc scan_state_def [of rs] admissible_def
          well_identified_def is_root_def revises_def res_simps split: option.split)
  next
    case (Some pid)
    show ?thesis
      using True none hash Some found
      by (cases "last_opt (stream (rv_memory_id r) rs)")
         (auto simp: check_revision_def scan_state_snoc scan_state_def [of rs] admissible_def
          well_identified_def is_root_def revises_def res_simps check_tombstone_ok
          split: option.split)
  qed
qed

lemma revision_scan:
  "res_foldM (check_revision x) (0, Map.empty, Map.empty) rs = Inr s \<longleftrightarrow>
     revision_log_wf x rs \<and> s = scan_state rs"
proof (induction rs arbitrary: s rule: rev_induct)
  case Nil
  then show ?case by (auto simp: scan_state_def)
next
  case (snoc r rs)
  then show ?case
    by (auto simp: res_foldM_snoc_Inr check_revision_scan revision_log_wf_snoc)
qed

theorem validate_revisions_iff: "validate_revisions x rs = Inr () \<longleftrightarrow> revision_log_wf x rs"
  by (simp add: validate_revisions_def res_simps revision_scan)

section \<open>The policy log\<close>

definition policy_stream :: "string \<Rightarrow> policy_record list \<Rightarrow> policy_record list" where
  "policy_stream m ps = filter (\<lambda>p. po_memory_id p = m) ps"

lemma policy_stream_Nil [simp]: "policy_stream m [] = []"
  by (simp add: policy_stream_def)

lemma policy_stream_append [simp]:
  "policy_stream m (ps @ qs) = policy_stream m ps @ policy_stream m qs"
  by (simp add: policy_stream_def)

lemma policy_stream_Cons [simp]:
  "policy_stream m (p # ps) = (if po_memory_id p = m then p # policy_stream m ps else policy_stream m ps)"
  by (simp add: policy_stream_def)

lemma set_policy_stream [simp]: "set (policy_stream m ps) = {p \<in> set ps. po_memory_id p = m}"
  by (auto simp: policy_stream_def)

text \<open>The audience a single policy record grants.\<close>

definition audience_ok :: "policy_record \<Rightarrow> bool" where
  "audience_ok p \<longleftrightarrow>
     po_writer_roles p = origin_roles (po_origin_role_id p)
     \<and> is_sorted_unique (po_reader_roles p)
     \<and> {po_origin_role_id p, PERSONAL_OWNER_ROLE_ID} \<subseteq> set (po_reader_roles p)
     \<and> (po_mode p = PolicyPrivate \<longrightarrow> po_reader_roles p = origin_roles (po_origin_role_id p))"

definition policy_record_ok ::
  "xenv \<Rightarrow> canonical_revision list \<Rightarrow> nat \<Rightarrow> policy_record \<Rightarrow> bool" where
  "policy_record_ok x rs n p \<longleftrightarrow>
     po_schema p = POLICY_SCHEMA \<and> po_sequence p = n + 1
     \<and> uuid_ok x (po_policy_id p) \<and> \<not> trim_is_empty (po_origin_role_id p)
     \<and> \<not> trim_is_empty (po_committed_by_role p) \<and> audience_ok p
     \<and> (\<exists>r. find (\<lambda>r. rv_revision_id r = po_effective_from_revision_id p) rs = Some r
            \<and> rv_memory_id r = po_memory_id p)"

definition policy_initial :: "canonical_revision list \<Rightarrow> policy_record \<Rightarrow> bool" where
  "policy_initial rs p \<longleftrightarrow>
     sequence_by_revision rs (po_effective_from_revision_id p) \<noteq> None
     \<and> root_by_memory rs (po_memory_id p) = Some (po_effective_from_revision_id p)"

definition policy_follows ::
  "canonical_revision list \<Rightarrow> policy_record \<Rightarrow> policy_record \<Rightarrow> bool" where
  "policy_follows rs p q \<longleftrightarrow>
     sequence_by_revision rs (po_effective_from_revision_id q) \<noteq> None
     \<and> po_origin_role_id q = po_origin_role_id p
     \<and> the (sequence_by_revision rs (po_effective_from_revision_id p))
        \<le> the (sequence_by_revision rs (po_effective_from_revision_id q))
     \<and> po_committed_by_role q \<in> set (po_writer_roles p)"

definition policy_log_wf ::
  "xenv \<Rightarrow> canonical_revision list \<Rightarrow> policy_record list \<Rightarrow> bool" where
  "policy_log_wf x rs ps \<longleftrightarrow>
     (\<forall>i < length ps. policy_record_ok x rs i (ps ! i))
     \<and> distinct (map po_policy_id ps)
     \<and> (\<forall>m. chained (policy_initial rs) (policy_follows rs) (policy_stream m ps))
     \<and> (\<forall>r \<in> set rs. rv_parent_revision_id r = None \<longrightarrow> policy_stream (rv_memory_id r) ps \<noteq> [])"

lemma set_origin_roles [simp]: "set (origin_roles r) = {r, PERSONAL_OWNER_ROLE_ID}"
  by (auto simp: origin_roles_def)

lemma origin_roles_sorted: "is_sorted_unique (origin_roles r)"
  by (auto simp: is_sorted_unique_iff strict_sorted_iff origin_roles_def)

lemma origin_roles_not_Nil [simp]: "origin_roles r \<noteq> []" "[] \<noteq> origin_roles r"
  using set_origin_roles [of r] by (metis empty_iff empty_set insertI1)+

lemma audience_checks:
  "(po_reader_roles p \<noteq> [] \<and> po_writer_roles p \<noteq> []
    \<and> is_sorted_unique (po_reader_roles p) \<and> is_sorted_unique (po_writer_roles p)
    \<and> PERSONAL_OWNER_ROLE_ID \<in> set (po_reader_roles p)
    \<and> PERSONAL_OWNER_ROLE_ID \<in> set (po_writer_roles p))
   \<and> \<not> (po_writer_roles p \<noteq> origin_roles (po_origin_role_id p)
        \<or> (po_mode p = PolicyPrivate \<and> po_reader_roles p \<noteq> origin_roles (po_origin_role_id p))
        \<or> (po_mode p = ExplicitRoleSet
           \<and> \<not> set (origin_roles (po_origin_role_id p)) \<subseteq> set (po_reader_roles p)))
   \<longleftrightarrow> audience_ok p"
  using origin_roles_sorted [of "po_origin_role_id p"]
  by (cases "po_mode p") (auto simp: audience_ok_def)

lemma policy_record_scan:
  "res_foldM (check_policy_record x rs) (0, {}) ps = Inr s \<longleftrightarrow>
     (\<forall>i < length ps. policy_record_ok x rs i (ps ! i)) \<and> distinct (map po_policy_id ps)
     \<and> s = (length ps, po_policy_id ` set ps)"
proof (induction ps arbitrary: s rule: rev_induct)
  case Nil
  then show ?case by auto
next
  case (snoc p ps)
  note found = image_iff_find [of "po_effective_from_revision_id p" rv_revision_id rs]
  have step: "check_policy_record x rs (length ps, po_policy_id ` set ps) p = Inr t \<longleftrightarrow>
      policy_record_ok x rs (length ps) p \<and> po_policy_id p \<notin> po_policy_id ` set ps
      \<and> t = (length ps + 1, insert (po_policy_id p) (po_policy_id ` set ps))" for t
    unfolding policy_record_ok_def audience_checks [symmetric]
    by (simp add: check_policy_record_def res_simps found, blast)
  have "(\<forall>i < length (ps @ [p]). policy_record_ok x rs i ((ps @ [p]) ! i)) \<longleftrightarrow>
      (\<forall>i < length ps. policy_record_ok x rs i (ps ! i)) \<and> policy_record_ok x rs (length ps) p"
    by (auto simp: nth_append less_Suc_eq)
  then show ?case
    using snoc.IH step by (auto simp: res_foldM_snoc_Inr)
qed

definition latest_state ::
  "canonical_revision list \<Rightarrow> policy_record list \<Rightarrow> (string \<rightharpoonup> policy_record \<times> nat)" where
  "latest_state rs ps = (\<lambda>m. map_option
     (\<lambda>p. (p, the (sequence_by_revision rs (po_effective_from_revision_id p))))
     (last_opt (policy_stream m ps)))"

lemma check_policy_order_step:
  "check_policy_order rs (latest_state rs ps) p = Inr t \<longleftrightarrow>
     (case last_opt (policy_stream (po_memory_id p) ps) of
        None \<Rightarrow> policy_initial rs p | Some q \<Rightarrow> policy_follows rs q p)
     \<and> t = latest_state rs (ps @ [p])"
  by (auto simp: check_policy_order_def latest_state_def policy_initial_def policy_follows_def
      res_simps fun_eq_iff split: option.splits)

lemma policy_order_scan:
  "res_foldM (check_policy_order rs) Map.empty ps = Inr s \<longleftrightarrow>
     (\<forall>m. chained (policy_initial rs) (policy_follows rs) (policy_stream m ps))
     \<and> s = latest_state rs ps"
proof (induction ps arbitrary: s rule: rev_induct)
  case Nil
  then show ?case by (auto simp: latest_state_def)
next
  case (snoc p ps)
  have "(\<forall>m. chained (policy_initial rs) (policy_follows rs) (policy_stream m (ps @ [p]))) \<longleftrightarrow>
      (\<forall>m. chained (policy_initial rs) (policy_follows rs) (policy_stream m ps))
      \<and> (case last_opt (policy_stream (po_memory_id p) ps) of
            None \<Rightarrow> policy_initial rs p | Some q \<Rightarrow> policy_follows rs q p)"
    by (auto simp: chained_snoc split: if_splits)
  then show ?case
    using snoc.IH by (auto simp: res_foldM_snoc_Inr check_policy_order_step)
qed

theorem validate_policies_iff:
  "validate_policies x ps rs = Inr () \<longleftrightarrow> policy_log_wf x rs ps"
  by (auto simp: validate_policies_def policy_log_wf_def res_simps policy_record_scan
      policy_order_scan latest_state_def)

lemma policy_log_wf_audience:
  assumes "policy_log_wf x rs ps" and "p \<in> set ps"
  shows "audience_ok p"
  using assms by (auto simp: policy_log_wf_def policy_record_ok_def in_set_conv_nth)

lemma policy_log_wf_same_origin:
  assumes wf: "policy_log_wf x rs ps" and p: "p \<in> set ps" and q: "q \<in> set ps"
    and same: "po_memory_id p = po_memory_id q"
  shows "po_origin_role_id p = po_origin_role_id q"
proof -
  let ?s = "policy_stream (po_memory_id p) ps"
  have ne: "?s \<noteq> []" using p by (metis (mono_tags, lifting) empty_iff empty_set mem_Collect_eq set_policy_stream)
  have "chained (\<lambda>r. r = hd ?s) (policy_follows rs) ?s"
    using wf ne by (cases ?s) (auto simp: policy_log_wf_def, metis chained.simps(2))
  then have "\<forall>r \<in> set ?s. po_origin_role_id r = po_origin_role_id (hd ?s)"
    by (rule chained_invariant) (auto simp: policy_follows_def)
  then show ?thesis using p q same by auto
qed

end
