(* ===== verification/Ledger_View.thy ===== *)
theory Ledger_View
  imports Ledger_Validate
begin

text \<open>
  The current view of the ledger (\<open>src/src/memory/ledger/current_view.rs\<close>): for every memory its
  head revision, whether that head is a tombstone, and the policy in force.  The view is a pure
  function of the two logs.  The lemmas show that it exists for every validated pair of logs, that
  it lists each memory exactly once in increasing order of id, and that \<open>head_for\<close> reads the last
  revision of the memory's stream.
\<close>

section \<open>The model\<close>

record current_stream =
  cs_memory_id :: string
  cs_head_revision_id :: string
  cs_deleted :: bool
  cs_policy_id :: string

record current_view =
  cv_schema :: string
  cv_generation :: nat
  cv_revision_watermark :: nat
  cv_policy_watermark :: nat
  cv_relation_watermark :: nat
  cv_streams :: "current_stream list"

definition CURRENT_VIEW_SCHEMA :: string where
  "CURRENT_VIEW_SCHEMA = ''plico.memory.current-view/v1''"

definition policy_by_memory :: "policy_record list \<Rightarrow> (string \<rightharpoonup> policy_record)" where
  "policy_by_memory ps = collect_map (map (\<lambda>p. (po_memory_id p, p)) ps)"

definition head_by_memory :: "canonical_revision list \<Rightarrow> (string \<rightharpoonup> canonical_revision)" where
  "head_by_memory rs = collect_map (map (\<lambda>r. (rv_memory_id r, r)) rs)"

text \<open>
  The loop over the hash map \<open>head_by_memory\<close> visits its keys in an unspecified order; the
  streams are sorted by their distinct keys afterwards and there is one error only, so the order
  of visit is immaterial and the model visits them in the order of the log.
\<close>

definition current_stream_for ::
  "policy_record list \<Rightarrow> string \<times> canonical_revision \<Rightarrow> ledger_error + current_stream" where
  "current_stream_for ps = (\<lambda>(m, head).
     res_bind (ok_or (policy_by_memory ps m) (LedgerInvalid ''missing_stream_policy'')) (\<lambda>policy.
     Inr \<lparr>cs_memory_id = m, cs_head_revision_id = rv_revision_id head,
          cs_deleted = (rv_deleted_at head \<noteq> None), cs_policy_id = po_policy_id policy\<rparr>))"

definition rebuild_current_view ::
  "nat \<Rightarrow> canonical_revision list \<Rightarrow> policy_record list \<Rightarrow> nat \<Rightarrow> ledger_error + current_view" where
  "rebuild_current_view generation revisions policies relation_watermark =
     res_bind (res_mapM (current_stream_for policies)
                 (map (\<lambda>m. (m, the (head_by_memory revisions m)))
                      (remdups (map rv_memory_id revisions)))) (\<lambda>streams.
     Inr \<lparr>cv_schema = CURRENT_VIEW_SCHEMA, cv_generation = generation,
          cv_revision_watermark =
            (case last_opt revisions of None \<Rightarrow> 0 | Some r \<Rightarrow> rv_sequence r),
          cv_policy_watermark =
            (case last_opt policies of None \<Rightarrow> 0 | Some p \<Rightarrow> po_sequence p),
          cv_relation_watermark = relation_watermark,
          cv_streams = sort_key cs_memory_id streams\<rparr>)"

definition stream_for :: "current_view \<Rightarrow> string \<Rightarrow> current_stream option" where
  "stream_for v m = find (\<lambda>s. cs_memory_id s = m) (cv_streams v)"

definition head_for :: "current_view \<Rightarrow> string \<Rightarrow> string option" where
  "head_for v m = map_option cs_head_revision_id (stream_for v m)"

section \<open>What the view says\<close>

lemma head_by_memory_stream: "head_by_memory rs m = last_opt (stream m rs)"
  by (simp add: head_by_memory_def collect_map_last stream_def)

lemma policy_by_memory_stream: "policy_by_memory ps m = last_opt (policy_stream m ps)"
  by (simp add: policy_by_memory_def collect_map_last policy_stream_def)

text \<open>The entry of a memory, read off the two logs.\<close>

definition stream_entry ::
  "canonical_revision list \<Rightarrow> policy_record list \<Rightarrow> string \<Rightarrow> current_stream" where
  "stream_entry rs ps m =
     \<lparr>cs_memory_id = m,
      cs_head_revision_id = rv_revision_id (last (stream m rs)),
      cs_deleted = (rv_deleted_at (last (stream m rs)) \<noteq> None),
      cs_policy_id = po_policy_id (last (policy_stream m ps))\<rparr>"

lemma stream_entry_memory [simp]: "cs_memory_id (stream_entry rs ps m) = m"
  by (simp add: stream_entry_def)

definition logs_wf ::
  "xenv \<Rightarrow> canonical_revision list \<Rightarrow> policy_record list \<Rightarrow> bool" where
  "logs_wf x rs ps \<longleftrightarrow> revision_log_wf x rs \<and> policy_log_wf x rs ps"

lemma revision_log_wf_root:
  assumes wf: "revision_log_wf x rs" and r: "r \<in> set rs"
  shows "\<exists>s \<in> set rs. is_root s \<and> rv_memory_id s = rv_memory_id r"
proof -
  have "stream (rv_memory_id r) rs \<noteq> []"
    using r by (auto simp: stream_def filter_empty_conv)
  then obtain s ss where ss: "stream (rv_memory_id r) rs = s # ss"
    by (cases "stream (rv_memory_id r) rs") auto
  have "linear_history x (stream (rv_memory_id r) rs)"
    using wf by (simp add: revision_log_wf_def)
  then have "is_root s" by (simp add: ss linear_history_def)
  moreover have "s \<in> set (stream (rv_memory_id r) rs)" by (simp add: ss)
  ultimately show ?thesis by auto
qed

lemma logs_wf_policy_stream:
  assumes "logs_wf x rs ps" and "r \<in> set rs"
  shows "policy_stream (rv_memory_id r) ps \<noteq> []"
proof -
  obtain s where "s \<in> set rs" "is_root s" "rv_memory_id s = rv_memory_id r"
    using revision_log_wf_root assms logs_wf_def by blast
  then show ?thesis
    using assms(1) unfolding logs_wf_def policy_log_wf_def is_root_def by metis
qed

lemma current_stream_for_ok:
  assumes "logs_wf x rs ps" and "m \<in> rv_memory_id ` set rs"
  shows "current_stream_for ps (m, the (head_by_memory rs m)) = Inr (stream_entry rs ps m)"
proof -
  have "policy_stream m ps \<noteq> []" using logs_wf_policy_stream assms by blast
  moreover have "stream m rs \<noteq> []" using assms(2) by (auto simp: stream_def filter_empty_conv)
  ultimately show ?thesis
    by (simp add: current_stream_for_def head_by_memory_stream policy_by_memory_stream
        last_opt_def stream_entry_def res_simps)
qed

definition view_of ::
  "nat \<Rightarrow> canonical_revision list \<Rightarrow> policy_record list \<Rightarrow> nat \<Rightarrow> current_view" where
  "view_of g rs ps w =
     \<lparr>cv_schema = CURRENT_VIEW_SCHEMA, cv_generation = g,
      cv_revision_watermark = length rs, cv_policy_watermark = length ps,
      cv_relation_watermark = w,
      cv_streams = map (stream_entry rs ps) (sorted_list_of_set (rv_memory_id ` set rs))\<rparr>"

lemma sort_key_map_key:
  assumes "\<And>x. k (f x) = x"
  shows "sort_key k (map f xs) = map f (sort xs)"
proof -
  have "insort_key k (f y) (map f zs) = map f (insort y zs)" for y zs
    by (induction zs) (auto simp: assms)
  then show ?thesis by (induction xs) auto
qed

lemma sort_remdups: "sort (remdups xs) = sorted_list_of_set (set xs)"
  by (simp add: sorted_list_of_set_sort_remdups)

lemma last_sequence:
  assumes "\<And>i. i < length xs \<Longrightarrow> f (xs ! i) = Suc i"
  shows "(case last_opt xs of None \<Rightarrow> 0 | Some x \<Rightarrow> f x) = length xs"
  using assms [of "length xs - 1"] by (cases xs) (auto simp: last_opt_def last_conv_nth)

theorem rebuild_current_view_ok:
  assumes "logs_wf x rs ps"
  shows "rebuild_current_view g rs ps w = Inr (view_of g rs ps w)"
proof -
  have "res_mapM (current_stream_for ps)
          (map (\<lambda>m. (m, the (head_by_memory rs m))) (remdups (map rv_memory_id rs)))
      = Inr (map (stream_entry rs ps) (remdups (map rv_memory_id rs)))"
    using current_stream_for_ok [OF assms]
    by (subst res_mapM_total [where g = "\<lambda>(m, _). stream_entry rs ps m"]) auto
  moreover have "(case last_opt rs of None \<Rightarrow> 0 | Some r \<Rightarrow> rv_sequence r) = length rs"
    by (rule last_sequence)
      (use assms in \<open>auto simp: logs_wf_def revision_log_wf_def well_identified_def\<close>)
  moreover have "(case last_opt ps of None \<Rightarrow> 0 | Some p \<Rightarrow> po_sequence p) = length ps"
    by (rule last_sequence)
      (use assms in \<open>auto simp: logs_wf_def policy_log_wf_def policy_record_ok_def\<close>)
  ultimately show ?thesis
    by (simp add: rebuild_current_view_def view_of_def sort_key_map_key sort_remdups)
qed

lemma stream_for_view:
  "stream_for (view_of g rs ps w) m =
     (if m \<in> rv_memory_id ` set rs then Some (stream_entry rs ps m) else None)"
proof -
  have "find (\<lambda>s. cs_memory_id s = m) (map (stream_entry rs ps) xs)
      = (if m \<in> set xs then Some (stream_entry rs ps m) else None)" for xs
    by (induction xs) auto
  then show ?thesis by (simp add: stream_for_def view_of_def)
qed

lemma head_for_view:
  "head_for (view_of g rs ps w) m = map_option rv_revision_id (last_opt (stream m rs))"
  by (auto simp: head_for_def stream_for_view stream_entry_def last_opt_def stream_def
      filter_empty_conv)

end
