(* ===== verification/Migration_Manifest.thy ===== *)
theory Migration_Manifest
  imports Ledger_View
begin

text \<open>
  The evidence manifests of an offline migration
  (\<open>src/src/memory/ledger/migration_manifest.rs\<close>) and the constructors the importer uses for its
  records (end of \<open>src/src/memory/ledger/model.rs\<close>).  A source manifest describes the legacy store, a
  migration manifest maps every legacy stream to a stream of the ledger, and
  \<open>validate_target_records\<close> checks the imported logs against both.  The main lemma reads the
  check backwards: an accepted import covers every revision and every policy of the target, and no
  policy has an audience other than the one its legacy scope prescribes.
\<close>

section \<open>Data\<close>

record source_snapshot =
  sn_legacy_agent_id :: string
  sn_legacy_tier :: string
  sn_cid :: string
  sn_object_envelope_hash :: string
  sn_entry_count :: nat

record role_mapping =
  rm_legacy_agent_id :: string
  rm_target_role_id :: string

record group_mapping =
  gm_legacy_group_id :: string
  gm_target_role_ids :: "string list"

record source_manifest =
  sm_schema :: string
  sm_source_index_hash :: string
  sm_credential_role_cutoff_hash :: string
  sm_lock_created :: bool
  sm_legacy_namespace :: "string option"
  sm_source_snapshots :: "source_snapshot list"
  sm_source_entry_count :: nat
  sm_source_stream_count :: nat
  sm_source_ttl_field_count :: nat
  sm_source_embedded_vector_count :: nat
  sm_authorized_role_ids_at_cutoff :: "string list"
  sm_role_mappings :: "role_mapping list"
  sm_group_mappings :: "group_mapping list"

datatype manifest_source_scope =
    ManifestScopePrivate
  | ManifestScopeShared
  | ManifestScopeGroup string

datatype manifest_target_mode = ManifestPrivate | ManifestExplicitRoleSet

record legacy_created_at_mapping =
  lc_revision_id :: string
  lc_legacy_created_at :: nat

record policy_mapping =
  pm_effective_from_revision_id :: string
  pm_source_scope :: manifest_source_scope
  pm_target_mode :: manifest_target_mode
  pm_audience_cutoff_roles :: "string list"

record stream_mapping =
  st_legacy_agent_id :: string
  st_memory_id :: string
  st_legacy_revision_ids :: "string list"
  st_legacy_created_at_by_revision :: "legacy_created_at_mapping list"
  st_target_head_revision_id :: string
  st_tombstone_revision_id :: "string option"
  st_legacy_deleted_at :: "nat option"
  st_policy_mappings :: "policy_mapping list"

record disposition_counters =
  dc_importance_values_discarded :: nat
  dc_access_statistic_fields_discarded :: nat
  dc_ttl_fields_discarded :: nat
  dc_embedded_vectors_discarded :: nat
  dc_projection_rebuilds_required :: nat
  dc_legacy_created_at_fields_discarded :: nat
  dc_deleted_heads_converted_to_tombstones :: nat

record migration_manifest =
  mm_schema :: string
  mm_source_manifest_hash :: string
  mm_stream_mappings :: "stream_mapping list"
  mm_dispositions :: disposition_counters
  mm_target_revision_count :: nat
  mm_target_policy_count :: nat
  mm_target_relation_count :: nat
  mm_imported_at :: nat
  mm_imported_by_role :: string

definition SOURCE_SCHEMA :: string where
  "SOURCE_SCHEMA = ''plico.memory.migration-source-manifest/v1''"

definition SOURCE_DOMAIN :: string where
  "SOURCE_DOMAIN = ''plico.memory.migration-source-manifest.v1'' @ [CHR 0x00]"

definition TARGET_SCHEMA :: string where
  "TARGET_SCHEMA = ''plico.memory.migration-target-manifest/v1''"

definition TARGET_DOMAIN :: string where
  "TARGET_DOMAIN = ''plico.memory.migration-target-manifest.v1'' @ [CHR 0x00]"

section \<open>Shape checks\<close>

definition is_lower_hash :: "string \<Rightarrow> bool" where
  "is_lower_hash v \<longleftrightarrow> length v = 64 \<and> list_all is_hex_byte v"

definition strict_roles :: "string list \<Rightarrow> bool" where
  "strict_roles vs \<longleftrightarrow>
     vs \<noteq> [] \<and> list_all (\<lambda>v. \<not> trim_is_empty v) vs \<and> successively (<) vs"

definition unique_nonempty :: "string list \<Rightarrow> bool" where
  "unique_nonempty vs \<longleftrightarrow> list_all (\<lambda>v. \<not> trim_is_empty v) vs \<and> distinct vs"

text \<open>Lexicographic order of the key triples, as on Rust tuples.\<close>

definition snapshot_before :: "source_snapshot \<Rightarrow> source_snapshot \<Rightarrow> bool" where
  "snapshot_before a b \<longleftrightarrow>
     sn_legacy_agent_id a < sn_legacy_agent_id b
     \<or> sn_legacy_agent_id a = sn_legacy_agent_id b
       \<and> (sn_legacy_tier a < sn_legacy_tier b
          \<or> sn_legacy_tier a = sn_legacy_tier b \<and> sn_cid a < sn_cid b)"

definition source_manifest_shape :: "source_manifest \<Rightarrow> bool" where
  "source_manifest_shape m \<longleftrightarrow>
     sm_schema m = SOURCE_SCHEMA
     \<and> is_lower_hash (sm_source_index_hash m)
     \<and> is_lower_hash (sm_credential_role_cutoff_hash m)
     \<and> strict_roles (sm_authorized_role_ids_at_cutoff m)
     \<and> PERSONAL_OWNER_ROLE_ID \<in> set (sm_authorized_role_ids_at_cutoff m)
     \<and> (case sm_legacy_namespace m of None \<Rightarrow> True | Some n \<Rightarrow> \<not> trim_is_empty n)
     \<and> list_all (\<lambda>s. \<not> trim_is_empty (sn_legacy_agent_id s)
          \<and> sn_legacy_tier s \<in> {''ephemeral'', ''working'', ''long_term'', ''procedural''}
          \<and> is_lower_hash (sn_cid s) \<and> is_lower_hash (sn_object_envelope_hash s))
        (sm_source_snapshots m)
     \<and> successively snapshot_before (sm_source_snapshots m)
     \<and> successively (\<lambda>a b. rm_legacy_agent_id a < rm_legacy_agent_id b) (sm_role_mappings m)
     \<and> list_all (\<lambda>r. \<not> trim_is_empty (rm_legacy_agent_id r) \<and> \<not> trim_is_empty (rm_target_role_id r)
          \<and> rm_target_role_id r \<in> set (sm_authorized_role_ids_at_cutoff m)) (sm_role_mappings m)
     \<and> successively (\<lambda>a b. gm_legacy_group_id a < gm_legacy_group_id b) (sm_group_mappings m)
     \<and> list_all (\<lambda>g. \<not> trim_is_empty (gm_legacy_group_id g) \<and> strict_roles (gm_target_role_ids g)
          \<and> set (gm_target_role_ids g) \<subseteq> set (sm_authorized_role_ids_at_cutoff m))
        (sm_group_mappings m)
     \<and> sum_list (map sn_entry_count (sm_source_snapshots m)) mod 2 ^ 64 = sm_source_entry_count m
     \<and> sm_source_stream_count m \<le> sm_source_entry_count m
     \<and> (sm_source_stream_count m = 0 \<longleftrightarrow> sm_source_entry_count m = 0)
     \<and> sm_source_ttl_field_count m \<le> saturating_mul_u64 (sm_source_entry_count m) 2
     \<and> sm_source_embedded_vector_count m \<le> sm_source_entry_count m
     \<and> set (map sn_legacy_agent_id (sm_source_snapshots m))
        = set (map rm_legacy_agent_id (sm_role_mappings m))"

definition source_manifest_validate :: "source_manifest \<Rightarrow> ledger_error + unit" where
  "source_manifest_validate m =
     ensure (source_manifest_shape m) (LedgerInvalid ''invalid_source_manifest'')"

definition stream_mapping_shape :: "xenv \<Rightarrow> stream_mapping \<Rightarrow> bool" where
  "stream_mapping_shape x s \<longleftrightarrow>
     \<not> trim_is_empty (st_legacy_agent_id s) \<and> uuid_ok x (st_memory_id s)
     \<and> st_legacy_revision_ids s \<noteq> [] \<and> unique_nonempty (st_legacy_revision_ids s)
     \<and> uuid_ok x (st_target_head_revision_id s)
     \<and> (case st_tombstone_revision_id s of None \<Rightarrow> True | Some t \<Rightarrow> uuid_ok x t)
     \<and> st_policy_mappings s \<noteq> []
     \<and> list_all (\<lambda>p. uuid_ok x (pm_effective_from_revision_id p)
          \<and> strict_roles (pm_audience_cutoff_roles p)) (st_policy_mappings s)"

definition validate_shape :: "xenv \<Rightarrow> migration_manifest \<Rightarrow> ledger_error + unit" where
  "validate_shape x m =
     ensure (mm_schema m = TARGET_SCHEMA \<and> is_lower_hash (mm_source_manifest_hash m)
             \<and> mm_imported_by_role m = PERSONAL_OWNER_ROLE_ID \<and> mm_imported_at m \<noteq> 0
             \<and> mm_target_relation_count m = 0
             \<and> list_all (stream_mapping_shape x) (mm_stream_mappings m)
             \<and> distinct (map st_memory_id (mm_stream_mappings m)))
       (LedgerInvalid ''invalid_migration_manifest'')"

text \<open>
  \<open>canonical_bytes_and_hash\<close>, shared with \<open>hash.rs\<close>: the canonical JSON of a value and the
  SHA-256 of the domain tag followed by those bytes.  The encoder stands for
  \<open>serde_json_canonicalizer::to_vec\<close> at the type of the value.
\<close>

definition canonical_bytes_and_hash ::
  "xenv \<Rightarrow> ('a \<Rightarrow> string option) \<Rightarrow> string \<Rightarrow> 'a \<Rightarrow> ledger_error + (string \<times> string)" where
  "canonical_bytes_and_hash x enc domain v =
     res_bind (ok_or (enc v) (LedgerInvalid ''jcs_canonicalization_failed'')) (\<lambda>bytes.
     Inr (bytes, sha256_hex x (domain @ bytes)))"

definition source_bytes_and_hash ::
  "xenv \<Rightarrow> (source_manifest \<Rightarrow> string option) \<Rightarrow> source_manifest \<Rightarrow> ledger_error + (string \<times> string)" where
  "source_bytes_and_hash x enc m =
     res_bind (source_manifest_validate m) (\<lambda>_. canonical_bytes_and_hash x enc SOURCE_DOMAIN m)"

definition source_verify_hash ::
  "xenv \<Rightarrow> (source_manifest \<Rightarrow> string option) \<Rightarrow> source_manifest \<Rightarrow> string \<Rightarrow> ledger_error + unit" where
  "source_verify_hash x enc m expected =
     res_bind (source_bytes_and_hash x enc m) (\<lambda>(_, actual).
     ensure (actual = expected) (LedgerInvalid ''source_manifest_hash_mismatch''))"

definition manifest_bytes_and_hash ::
  "xenv \<Rightarrow> (migration_manifest \<Rightarrow> string option) \<Rightarrow> migration_manifest \<Rightarrow>
   ledger_error + (string \<times> string)" where
  "manifest_bytes_and_hash x enc m =
     res_bind (validate_shape x m) (\<lambda>_. canonical_bytes_and_hash x enc TARGET_DOMAIN m)"

definition manifest_verify_hash ::
  "xenv \<Rightarrow> (migration_manifest \<Rightarrow> string option) \<Rightarrow> migration_manifest \<Rightarrow> string \<Rightarrow>
   ledger_error + unit" where
  "manifest_verify_hash x enc m expected =
     res_bind (manifest_bytes_and_hash x enc m) (\<lambda>(_, actual).
     ensure (actual = expected) (LedgerInvalid ''migration_manifest_hash_mismatch''))"

section \<open>The imported records against the manifests\<close>

text \<open>\<open>Iterator::max_by_key\<close>: of several maximal elements the last one.\<close>

fun max_by_key :: "('a \<Rightarrow> nat) \<Rightarrow> 'a list \<Rightarrow> 'a option" where
  "max_by_key f [] = None"
| "max_by_key f (x # xs) =
     (case max_by_key f xs of None \<Rightarrow> Some x | Some y \<Rightarrow> Some (if f y < f x then x else y))"

definition revisions_by_id :: "canonical_revision list \<Rightarrow> (string \<rightharpoonup> canonical_revision)" where
  "revisions_by_id rs = collect_map (map (\<lambda>r. (rv_revision_id r, r)) rs)"

definition check_legacy_revision ::
  "migration_manifest \<Rightarrow> canonical_revision list \<Rightarrow> stream_mapping \<Rightarrow> unit \<Rightarrow>
   string option \<times> string \<Rightarrow> ledger_error + unit" where
  "check_legacy_revision mm rs smap = (\<lambda>_ (expected_parent, legacy_revision_id).
     res_bind (ok_or (revisions_by_id rs legacy_revision_id)
                 (LedgerInvalid ''migration_manifest_missing_legacy_revision'')) (\<lambda>r.
     ensure (rv_memory_id r = st_memory_id smap \<and> rv_deleted_at r = None
             \<and> rv_parent_revision_id r = expected_parent \<and> rv_committed_at r = mm_imported_at mm
             \<and> rv_committed_by_role r = mm_imported_by_role mm)
       (LedgerInvalid ''migration_manifest_legacy_revision_mismatch'')))"

text \<open>The expected parent of position \<open>i\<close> is the legacy revision of position \<open>i - 1\<close>.\<close>

definition with_parents :: "string list \<Rightarrow> (string option \<times> string) list" where
  "with_parents ids = zip (None # map Some ids) ids"

definition check_tombstone_mapping ::
  "migration_manifest \<Rightarrow> canonical_revision list \<Rightarrow> stream_mapping \<Rightarrow> ledger_error + unit" where
  "check_tombstone_mapping mm rs smap =
     (case st_tombstone_revision_id smap of
        None \<Rightarrow> Inr ()
      | Some tombstone_id \<Rightarrow>
          res_bind (ok_or (revisions_by_id rs tombstone_id)
                      (LedgerInvalid ''migration_manifest_missing_tombstone'')) (\<lambda>t.
          ensure (rv_parent_revision_id t = last_opt (st_legacy_revision_ids smap)
                  \<and> rv_committed_at t = mm_imported_at mm
                  \<and> rv_committed_by_role t = mm_imported_by_role mm)
            (LedgerInvalid ''migration_manifest_tombstone_mismatch'')))"

definition check_head_mapping ::
  "canonical_revision list \<Rightarrow> stream_mapping \<Rightarrow> ledger_error + unit" where
  "check_head_mapping rs smap =
     res_bind (ok_or (revisions_by_id rs (st_target_head_revision_id smap))
                 (LedgerInvalid ''migration_manifest_missing_head'')) (\<lambda>head.
     res_bind (ok_or (max_by_key rv_sequence
                        (filter (\<lambda>r. rv_memory_id r = st_memory_id smap) rs))
                 (LedgerInvalid ''migration_manifest_empty_stream'')) (\<lambda>actual_head.
     res_bind (ensure (rv_memory_id head = st_memory_id smap)
                 (LedgerInvalid ''migration_manifest_stream_mismatch'')) (\<lambda>_.
     ensure (rv_revision_id actual_head = rv_revision_id head
             \<and> (st_tombstone_revision_id smap \<noteq> None \<longleftrightarrow> rv_deleted_at head \<noteq> None)
             \<and> (case st_tombstone_revision_id smap of
                   None \<Rightarrow> True | Some t \<Rightarrow> t = rv_revision_id head)
             \<and> map lc_revision_id (st_legacy_created_at_by_revision smap)
                = st_legacy_revision_ids smap)
       (LedgerInvalid ''migration_manifest_disposition_mismatch''))))"

fun target_policy_mode :: "manifest_target_mode \<Rightarrow> policy_mode" where
  "target_policy_mode ManifestPrivate = PolicyPrivate"
| "target_policy_mode ManifestExplicitRoleSet = ExplicitRoleSet"

fun scope_mode_matches :: "manifest_source_scope \<Rightarrow> manifest_target_mode \<Rightarrow> bool" where
  "scope_mode_matches ManifestScopePrivate m \<longleftrightarrow> m = ManifestPrivate"
| "scope_mode_matches ManifestScopeShared m \<longleftrightarrow> m = ManifestExplicitRoleSet"
| "scope_mode_matches (ManifestScopeGroup g) m \<longleftrightarrow> m = ManifestExplicitRoleSet"

fun expected_readers ::
  "source_manifest \<Rightarrow> policy_record \<Rightarrow> manifest_source_scope \<Rightarrow> ledger_error + string list" where
  "expected_readers src p ManifestScopePrivate = Inr (origin_roles (po_origin_role_id p))"
| "expected_readers src p ManifestScopeShared = Inr (sm_authorized_role_ids_at_cutoff src)"
| "expected_readers src p (ManifestScopeGroup g) =
     res_bind (ok_or (map_option gm_target_role_ids
                        (find (\<lambda>m. gm_legacy_group_id m = g) (sm_group_mappings src)))
                 (LedgerInvalid ''migration_manifest_unknown_group'')) (\<lambda>roles.
     Inr (remdups (sort (roles @ origin_roles (po_origin_role_id p)))))"

definition check_policy_mapping ::
  "migration_manifest \<Rightarrow> source_manifest \<Rightarrow> policy_record list \<Rightarrow> stream_mapping \<Rightarrow> string \<Rightarrow>
   string set \<Rightarrow> policy_mapping \<Rightarrow> ledger_error + string set" where
  "check_policy_mapping mm src ps smap mapped_origin_role = (\<lambda>covered_policies mapping.
     res_bind (ok_or (find (\<lambda>p. po_memory_id p = st_memory_id smap
                          \<and> po_effective_from_revision_id p = pm_effective_from_revision_id mapping) ps)
                 (LedgerInvalid ''migration_manifest_missing_policy'')) (\<lambda>policy.
     res_bind (ensure (po_policy_id policy \<notin> covered_policies)
                 (LedgerInvalid ''migration_manifest_policy_bijection_mismatch'')) (\<lambda>_.
     res_bind (expected_readers src policy (pm_source_scope mapping)) (\<lambda>readers.
     res_bind (ensure (scope_mode_matches (pm_source_scope mapping) (pm_target_mode mapping)
                       \<and> po_origin_role_id policy = mapped_origin_role
                       \<and> po_mode policy = target_policy_mode (pm_target_mode mapping)
                       \<and> po_reader_roles policy = pm_audience_cutoff_roles mapping
                       \<and> pm_audience_cutoff_roles mapping = readers
                       \<and> po_writer_roles policy = origin_roles (po_origin_role_id policy))
                 (LedgerInvalid ''migration_manifest_policy_mismatch'')) (\<lambda>_.
     res_bind (ensure (po_committed_at policy = mm_imported_at mm
                       \<and> po_committed_by_role policy = mm_imported_by_role mm)
                 (LedgerInvalid ''migration_manifest_policy_commit_mismatch'')) (\<lambda>_.
     Inr (insert (po_policy_id policy) covered_policies)))))))"

type_synonym coverage = "string set \<times> string set \<times> string set \<times> nat"

definition check_stream_mapping ::
  "migration_manifest \<Rightarrow> source_manifest \<Rightarrow> canonical_revision list \<Rightarrow> policy_record list \<Rightarrow>
   coverage \<Rightarrow> stream_mapping \<Rightarrow> ledger_error + coverage" where
  "check_stream_mapping mm src rs ps =
     (\<lambda>(covered_revisions, covered_policies, legacy_revision_ids, deleted_streams) smap.
     res_bind (ensure (st_legacy_agent_id smap \<in> set (map sn_legacy_agent_id (sm_source_snapshots src)))
                 (LedgerInvalid ''migration_manifest_unknown_legacy_agent'')) (\<lambda>_.
     res_bind (ok_or (map_option rm_target_role_id
                        (find (\<lambda>r. rm_legacy_agent_id r = st_legacy_agent_id smap)
                           (sm_role_mappings src)))
                 (LedgerInvalid ''migration_manifest_missing_origin_mapping'')) (\<lambda>mapped_origin_role.
     res_bind (ensure (distinct (st_legacy_revision_ids smap)
                       \<and> set (st_legacy_revision_ids smap) \<inter> legacy_revision_ids = {})
                 (LedgerInvalid ''migration_manifest_duplicate_legacy_revision'')) (\<lambda>_.
     (let stream_revisions = filter (\<lambda>r. rv_memory_id r = st_memory_id smap) rs;
          expected_revision_count = length (st_legacy_revision_ids smap)
            + (if st_tombstone_revision_id smap \<noteq> None then 1 else 0)
      in
     res_bind (ensure (length stream_revisions = expected_revision_count
                       \<and> distinct (map rv_revision_id stream_revisions)
                       \<and> set (map rv_revision_id stream_revisions) \<inter> covered_revisions = {})
                 (LedgerInvalid ''migration_manifest_revision_bijection_mismatch'')) (\<lambda>_.
     res_bind (res_foldM (check_legacy_revision mm rs smap) ()
                 (with_parents (st_legacy_revision_ids smap))) (\<lambda>_.
     res_bind (check_tombstone_mapping mm rs smap) (\<lambda>_.
     res_bind (check_head_mapping rs smap) (\<lambda>_.
     res_bind (ensure (length (filter (\<lambda>p. po_memory_id p = st_memory_id smap) ps)
                         = length (st_policy_mappings smap))
                 (LedgerInvalid ''migration_manifest_policy_bijection_mismatch'')) (\<lambda>_.
     res_bind (res_foldM (check_policy_mapping mm src ps smap mapped_origin_role)
                 covered_policies (st_policy_mappings smap)) (\<lambda>covered_policies'.
     Inr (covered_revisions \<union> set (map rv_revision_id stream_revisions),
          covered_policies',
          legacy_revision_ids \<union> set (st_legacy_revision_ids smap),
          deleted_streams + (if st_tombstone_revision_id smap \<noteq> None then 1 else 0)))))))))))))"

definition validate_target_records ::
  "migration_manifest \<Rightarrow> source_manifest \<Rightarrow> canonical_revision list \<Rightarrow> policy_record list \<Rightarrow> nat \<Rightarrow>
   ledger_error + unit" where
  "validate_target_records mm src rs ps relation_count =
     res_bind (ensure (length (mm_stream_mappings mm) = sm_source_stream_count src
                       \<and> mm_target_revision_count mm = length rs
                       \<and> mm_target_policy_count mm = length ps
                       \<and> mm_target_relation_count mm = relation_count)
                 (LedgerInvalid ''migration_manifest_count_mismatch'')) (\<lambda>_.
     res_bind (res_foldM (check_stream_mapping mm src rs ps) ({}, {}, {}, 0) (mm_stream_mappings mm))
       (\<lambda>(covered_revisions, covered_policies, legacy_revision_ids, deleted_streams).
     ensure (card covered_revisions = length rs
             \<and> card covered_policies = length ps
             \<and> card legacy_revision_ids = sm_source_entry_count src
             \<and> dc_importance_values_discarded (mm_dispositions mm) = sm_source_entry_count src
             \<and> dc_access_statistic_fields_discarded (mm_dispositions mm)
                = saturating_mul_u64 (sm_source_entry_count src) 2
             \<and> dc_legacy_created_at_fields_discarded (mm_dispositions mm) = sm_source_entry_count src
             \<and> dc_deleted_heads_converted_to_tombstones (mm_dispositions mm) = deleted_streams
             \<and> dc_projection_rebuilds_required (mm_dispositions mm)
                = sm_source_stream_count src - deleted_streams
             \<and> dc_ttl_fields_discarded (mm_dispositions mm) = sm_source_ttl_field_count src
             \<and> dc_embedded_vectors_discarded (mm_dispositions mm)
                = sm_source_embedded_vector_count src
             \<and> mm_target_revision_count mm
                = saturating_add_u64 (sm_source_entry_count src) deleted_streams
             \<and> mm_target_policy_count mm
                = sum_list (map (\<lambda>s. length (st_policy_mappings s)) (mm_stream_mappings mm))
             \<and> set (map rv_memory_id rs) = set (map st_memory_id (mm_stream_mappings mm)))
       (LedgerInvalid ''migration_manifest_disposition_count_mismatch'')))"

section \<open>Constructors of the importer\<close>

record migration_revision_input =
  mi_sequence :: nat
  mi_memory_id :: string
  mi_revision_id :: string
  mi_parent_revision_id :: "string option"
  mi_content :: memory_content
  mi_tags :: "string list"
  mi_memory_type :: memory_type
  mi_cognitive_tier :: memory_tier
  mi_deleted_at :: "nat option"
  mi_committed_at :: nat
  mi_actor :: string

record migration_policy_input =
  mp_sequence :: nat
  mp_policy_id :: string
  mp_memory_id :: string
  mp_effective_from_revision_id :: string
  mp_source_role :: string
  mp_committed_at :: nat
  mp_actor :: string

definition migration_import ::
  "xenv \<Rightarrow> migration_revision_input \<Rightarrow> ledger_error + canonical_revision" where
  "migration_import x i =
     res_bind (map_err LedgerInvalid (canonical_content_hash x (mi_content i))) (\<lambda>content_hash.
     Inr \<lparr>rv_schema = REVISION_SCHEMA, rv_sequence = mi_sequence i, rv_memory_id = mi_memory_id i,
          rv_revision_id = mi_revision_id i, rv_parent_revision_id = mi_parent_revision_id i,
          rv_content = mi_content i, rv_content_hash = content_hash, rv_tags = mi_tags i,
          rv_memory_type = mi_memory_type i, rv_cognitive_tier = mi_cognitive_tier i,
          rv_deleted_at = mi_deleted_at i, rv_committed_at = mi_committed_at i,
          rv_committed_by_role = mi_actor i\<rparr>)"

definition validate_role :: "string \<Rightarrow> ledger_error + unit" where
  "validate_role role = ensure (\<not> trim_is_empty role) (LedgerInvalid ''empty_migration_role'')"

definition strict_sorted_roles :: "string list \<Rightarrow> bool" where
  "strict_sorted_roles roles \<longleftrightarrow> list_all (\<lambda>r. \<not> trim_is_empty r) roles \<and> successively (<) roles"

definition migration_private ::
  "migration_policy_input \<Rightarrow> ledger_error + policy_record" where
  "migration_private i =
     res_bind (validate_role (mp_source_role i)) (\<lambda>_.
     res_bind (validate_role (mp_actor i)) (\<lambda>_.
     Inr \<lparr>po_schema = POLICY_SCHEMA, po_sequence = mp_sequence i, po_policy_id = mp_policy_id i,
          po_memory_id = mp_memory_id i,
          po_effective_from_revision_id = mp_effective_from_revision_id i,
          po_origin_role_id = mp_source_role i, po_mode = PolicyPrivate,
          po_reader_roles = origin_roles (mp_source_role i),
          po_writer_roles = origin_roles (mp_source_role i),
          po_committed_at = mp_committed_at i, po_committed_by_role = mp_actor i\<rparr>))"

definition migration_explicit_role_set ::
  "migration_policy_input \<Rightarrow> string list \<Rightarrow> ledger_error + policy_record" where
  "migration_explicit_role_set i reader_roles =
     res_bind (validate_role (mp_source_role i)) (\<lambda>_.
     res_bind (validate_role (mp_actor i)) (\<lambda>_.
     res_bind (ensure (reader_roles \<noteq> [] \<and> strict_sorted_roles reader_roles
                       \<and> mp_source_role i \<in> set reader_roles
                       \<and> PERSONAL_OWNER_ROLE_ID \<in> set reader_roles)
                 (LedgerInvalid ''invalid_migration_audience'')) (\<lambda>_.
     Inr \<lparr>po_schema = POLICY_SCHEMA, po_sequence = mp_sequence i, po_policy_id = mp_policy_id i,
          po_memory_id = mp_memory_id i,
          po_effective_from_revision_id = mp_effective_from_revision_id i,
          po_origin_role_id = mp_source_role i, po_mode = ExplicitRoleSet,
          po_reader_roles = reader_roles,
          po_writer_roles = origin_roles (mp_source_role i),
          po_committed_at = mp_committed_at i, po_committed_by_role = mp_actor i\<rparr>)))"

lemma successively_less_iff: "successively (<) (xs :: string list) \<longleftrightarrow> sorted_wrt (<) xs"
  by (rule successively_conv_sorted_wrt) (auto intro: transpI)

lemma migration_policy_audience:
  "migration_private i = Inr p \<Longrightarrow> audience_ok p"
  "migration_explicit_role_set i rs = Inr q \<Longrightarrow> audience_ok q"
  using origin_roles_sorted [of "mp_source_role i"]
  by (auto simp: migration_private_def migration_explicit_role_set_def res_simps audience_ok_def
      strict_sorted_roles_def successively_less_iff is_sorted_unique_iff)

section \<open>What an accepted import guarantees\<close>

text \<open>A policy record that a policy mapping of the manifest accounts for.\<close>

definition migrated_policy ::
  "migration_manifest \<Rightarrow> source_manifest \<Rightarrow> policy_record \<Rightarrow> bool" where
  "migrated_policy mm src p \<longleftrightarrow>
     (\<exists>sm \<in> set (mm_stream_mappings mm). \<exists>pm \<in> set (st_policy_mappings sm).
      \<exists>rm \<in> set (sm_role_mappings src).
        po_memory_id p = st_memory_id sm
        \<and> po_effective_from_revision_id p = pm_effective_from_revision_id pm
        \<and> rm_legacy_agent_id rm = st_legacy_agent_id sm
        \<and> po_origin_role_id p = rm_target_role_id rm
        \<and> scope_mode_matches (pm_source_scope pm) (pm_target_mode pm)
        \<and> po_mode p = target_policy_mode (pm_target_mode pm)
        \<and> expected_readers src p (pm_source_scope pm) = Inr (po_reader_roles p)
        \<and> po_writer_roles p = origin_roles (po_origin_role_id p)
        \<and> po_committed_at p = mm_imported_at mm
        \<and> po_committed_by_role p = mm_imported_by_role mm)"

lemma check_policy_mapping_covered:
  assumes step: "check_policy_mapping mm src ps sm origin C pm = Inr C'"
    and sm: "sm \<in> set (mm_stream_mappings mm)" and pm: "pm \<in> set (st_policy_mappings sm)"
    and rm: "rm \<in> set (sm_role_mappings src)" "rm_legacy_agent_id rm = st_legacy_agent_id sm"
      "origin = rm_target_role_id rm"
    and inv: "C \<subseteq> po_policy_id ` {p \<in> set ps. migrated_policy mm src p}"
  shows "C' \<subseteq> po_policy_id ` {p \<in> set ps. migrated_policy mm src p}"
proof -
  from step obtain p where find: "find (\<lambda>p. po_memory_id p = st_memory_id sm
        \<and> po_effective_from_revision_id p = pm_effective_from_revision_id pm) ps = Some p"
    and C': "C' = insert (po_policy_id p) C"
    and chk: "scope_mode_matches (pm_source_scope pm) (pm_target_mode pm)"
      "po_origin_role_id p = origin" "po_mode p = target_policy_mode (pm_target_mode pm)"
      "expected_readers src p (pm_source_scope pm) = Inr (po_reader_roles p)"
      "po_writer_roles p = origin_roles (po_origin_role_id p)"
      "po_committed_at p = mm_imported_at mm" "po_committed_by_role p = mm_imported_by_role mm"
    unfolding check_policy_mapping_def by (fastforce simp: res_simps)
  note p = find_Some_in [OF find]
  have "migrated_policy mm src p"
    unfolding migrated_policy_def using sm pm rm chk p by blast
  then show ?thesis using inv p C' by auto
qed

lemma check_stream_mapping_covered:
  assumes "check_stream_mapping mm src rs ps (R, C, L, d) sm = Inr (R', C', L', d')"
    and sm: "sm \<in> set (mm_stream_mappings mm)"
    and inv: "C \<subseteq> po_policy_id ` {p \<in> set ps. migrated_policy mm src p}" "R \<subseteq> rv_revision_id ` set rs"
  shows "C' \<subseteq> po_policy_id ` {p \<in> set ps. migrated_policy mm src p} \<and> R' \<subseteq> rv_revision_id ` set rs"
proof -
  from assms(1) obtain rm where
    rm: "find (\<lambda>r. rm_legacy_agent_id r = st_legacy_agent_id sm) (sm_role_mappings src) = Some rm"
    and fold: "res_foldM (check_policy_mapping mm src ps sm (rm_target_role_id rm)) C
                 (st_policy_mappings sm) = Inr C'"
    and R': "R' = R \<union> rv_revision_id ` {r \<in> set rs. rv_memory_id r = st_memory_id sm}"
    unfolding check_stream_mapping_def by (auto simp: res_simps Let_def)
  have "C' \<subseteq> po_policy_id ` {p \<in> set ps. migrated_policy mm src p}"
    using fold inv(1)
  proof (rule res_foldM_invariant [where
        I = "\<lambda>_ C. C \<subseteq> po_policy_id ` {p \<in> set ps. migrated_policy mm src p}"])
    fix qs :: "policy_mapping list" and pm D D'
    assume "D \<subseteq> po_policy_id ` {p \<in> set ps. migrated_policy mm src p}"
      and "check_policy_mapping mm src ps sm (rm_target_role_id rm) D pm = Inr D'"
      and "pm \<in> set (st_policy_mappings sm)"
    then show "D' \<subseteq> po_policy_id ` {p \<in> set ps. migrated_policy mm src p}"
      using check_policy_mapping_covered [OF _ sm] find_Some_in [OF rm] by blast
  qed
  then show ?thesis using inv(2) R' by auto
qed

lemma covered_all:
  assumes "C \<subseteq> f ` {x \<in> set xs. P x}" and "card C = length xs"
  shows "distinct (map f xs) \<and> (\<forall>x \<in> set xs. P x)"
proof -
  have "card C \<le> card (f ` {x \<in> set xs. P x})"
    by (rule card_mono) (use assms in auto)
  also have "\<dots> \<le> card (f ` set xs)"
    by (rule card_mono) auto
  finally have "card (f ` set xs) = length xs"
    using assms(2) card_length [of "map f xs"] by simp
  then have d: "distinct (map f xs)" by (intro card_distinct) simp
  have "f ` {x \<in> set xs. P x} = f ` set xs"
  proof (rule card_subset_eq)
    show "card (f ` {x \<in> set xs. P x}) = card (f ` set xs)"
      using \<open>card C \<le> card (f ` {x \<in> set xs. P x})\<close> \<open>card (f ` set xs) = length xs\<close> assms(2)
        card_mono [of "f ` set xs" "f ` {x \<in> set xs. P x}"] image_mono [of "{x \<in> set xs. P x}" "set xs" f]
      by auto
  qed auto
  then have "\<forall>x \<in> set xs. P x"
    using d by (auto simp: distinct_map dest!: equalityD2 elim!: subsetD [THEN imageE] dest: inj_onD)
  with d show ?thesis by simp
qed

theorem migration_covers:
  assumes "validate_target_records mm src rs ps n = Inr ()"
  shows "distinct (map rv_revision_id rs)"
    and "distinct (map po_policy_id ps)"
    and "\<forall>r \<in> set rs. \<exists>sm \<in> set (mm_stream_mappings mm). rv_memory_id r = st_memory_id sm"
    and "\<forall>p \<in> set ps. migrated_policy mm src p"
proof -
  from assms obtain R C L d where
    fold: "res_foldM (check_stream_mapping mm src rs ps) ({}, {}, {}, 0) (mm_stream_mappings mm)
           = Inr (R, C, L, d)"
    and cards: "card R = length rs" "card C = length ps"
    and mems: "rv_memory_id ` set rs = st_memory_id ` set (mm_stream_mappings mm)"
    unfolding validate_target_records_def by (auto simp: res_simps)
  have "(\<lambda>(R, C, _). C \<subseteq> po_policy_id ` {p \<in> set ps. migrated_policy mm src p}
                      \<and> R \<subseteq> rv_revision_id ` set rs) (R, C, L, d)"
    using fold
    by (rule res_foldM_invariant [where I = "\<lambda>_ (R, C, _).
          C \<subseteq> po_policy_id ` {p \<in> set ps. migrated_policy mm src p} \<and> R \<subseteq> rv_revision_id ` set rs"])
       (auto dest: check_stream_mapping_covered)
  then have cov: "C \<subseteq> po_policy_id ` {p \<in> set ps. migrated_policy mm src p}"
    "R \<subseteq> rv_revision_id ` {r \<in> set rs. True}" by auto
  show "distinct (map rv_revision_id rs)" using covered_all [OF cov(2) cards(1)] by simp
  show "distinct (map po_policy_id ps)" "\<forall>p \<in> set ps. migrated_policy mm src p"
    using covered_all [OF cov(1) cards(2)] by simp_all
  show "\<forall>r \<in> set rs. \<exists>sm \<in> set (mm_stream_mappings mm). rv_memory_id r = st_memory_id sm"
    using mems by (metis image_iff)
qed

text \<open>
  C24.  An accepted migration leaks and loses nothing: revision and policy identifiers are distinct,
  every imported revision belongs to a mapped stream, and every imported policy is one that the
  manifest maps, with the origin role, the mode and exactly the audience that the legacy scope
  stands for.
\<close>

theorem migration_is_exact:
  assumes "validate_target_records mm src rs ps n = Inr ()"
  shows "distinct (map rv_revision_id rs) \<and> distinct (map po_policy_id ps)
    \<and> (\<forall>r \<in> set rs. \<exists>sm \<in> set (mm_stream_mappings mm). rv_memory_id r = st_memory_id sm)
    \<and> (\<forall>p \<in> set ps. migrated_policy mm src p)"
  using migration_covers [OF assms] by blast

definition demo_imported :: "string \<Rightarrow> nat \<Rightarrow> string option \<Rightarrow> canonical_revision" where
  "demo_imported i n parent = \<lparr>rv_schema = REVISION_SCHEMA, rv_sequence = n, rv_memory_id = ''a'', rv_revision_id = i,
     rv_parent_revision_id = parent, rv_content = Text ''a'', rv_content_hash = [], rv_tags = [],
     rv_memory_type = Untyped, rv_cognitive_tier = Working, rv_deleted_at = None, rv_committed_at = 9,
     rv_committed_by_role = PERSONAL_OWNER_ROLE_ID\<rparr>"

definition demo_imported_policy :: policy_record where
  "demo_imported_policy = \<lparr>po_schema = POLICY_SCHEMA, po_sequence = 1, po_policy_id = ''p'', po_memory_id = ''a'',
     po_effective_from_revision_id = ''a'', po_origin_role_id = ''role'', po_mode = ExplicitRoleSet,
     po_reader_roles = [''guest'', PERSONAL_OWNER_ROLE_ID, ''role''],
     po_writer_roles = [PERSONAL_OWNER_ROLE_ID, ''role''], po_committed_at = 9,
     po_committed_by_role = PERSONAL_OWNER_ROLE_ID\<rparr>"

definition demo_source :: source_manifest where
  "demo_source = \<lparr>sm_schema = SOURCE_SCHEMA, sm_source_index_hash = [], sm_credential_role_cutoff_hash = [],
     sm_lock_created = False, sm_legacy_namespace = None,
     sm_source_snapshots = [\<lparr>sn_legacy_agent_id = ''agent'', sn_legacy_tier = ''working'', sn_cid = [],
       sn_object_envelope_hash = [], sn_entry_count = 2\<rparr>],
     sm_source_entry_count = 2, sm_source_stream_count = 1, sm_source_ttl_field_count = 0,
     sm_source_embedded_vector_count = 0, sm_authorized_role_ids_at_cutoff = [PERSONAL_OWNER_ROLE_ID, ''role''],
     sm_role_mappings = [\<lparr>rm_legacy_agent_id = ''agent'', rm_target_role_id = ''role''\<rparr>],
     sm_group_mappings = [\<lparr>gm_legacy_group_id = ''g'', gm_target_role_ids = [''guest'']\<rparr>]\<rparr>"

definition demo_manifest :: migration_manifest where
  "demo_manifest = \<lparr>mm_schema = TARGET_SCHEMA, mm_source_manifest_hash = [],
     mm_stream_mappings = [\<lparr>st_legacy_agent_id = ''agent'', st_memory_id = ''a'',
       st_legacy_revision_ids = [''a'', ''b''],
       st_legacy_created_at_by_revision = [\<lparr>lc_revision_id = ''a'', lc_legacy_created_at = 1\<rparr>,
         \<lparr>lc_revision_id = ''b'', lc_legacy_created_at = 2\<rparr>],
       st_target_head_revision_id = ''b'', st_tombstone_revision_id = None, st_legacy_deleted_at = None,
       st_policy_mappings = [\<lparr>pm_effective_from_revision_id = ''a'', pm_source_scope = ManifestScopeGroup ''g'',
         pm_target_mode = ManifestExplicitRoleSet,
         pm_audience_cutoff_roles = [''guest'', PERSONAL_OWNER_ROLE_ID, ''role'']\<rparr>]\<rparr>],
     mm_dispositions = \<lparr>dc_importance_values_discarded = 2, dc_access_statistic_fields_discarded = 4,
       dc_ttl_fields_discarded = 0, dc_embedded_vectors_discarded = 0, dc_projection_rebuilds_required = 1,
       dc_legacy_created_at_fields_discarded = 2, dc_deleted_heads_converted_to_tombstones = 0\<rparr>,
     mm_target_revision_count = 2, mm_target_policy_count = 1, mm_target_relation_count = 0,
     mm_imported_at = 9, mm_imported_by_role = PERSONAL_OWNER_ROLE_ID\<rparr>"

lemma demo_migration_stream:
  "res_foldM (check_stream_mapping demo_manifest demo_source
       [demo_imported ''a'' 1 None, demo_imported ''b'' 2 (Some ''a'')] [demo_imported_policy])
     ({}, {}, {}, 0) (mm_stream_mappings demo_manifest) = Inr ({''a'', ''b''}, {''p''}, {''a'', ''b''}, 0)"
  by code_simp

lemma demo_migration_accepted:
  "validate_target_records demo_manifest demo_source
     [demo_imported ''a'' 1 None, demo_imported ''b'' 2 (Some ''a'')] [demo_imported_policy] 0 = Inr ()"
  unfolding validate_target_records_def demo_migration_stream
  by (simp add: demo_manifest_def demo_source_def demo_imported_def saturating_mul_u64_def
      saturating_add_u64_def u64_max_def res_simps)

theorem migration_is_exact_witness: "migrated_policy demo_manifest demo_source demo_imported_policy"
  using migration_is_exact [OF demo_migration_accepted] by simp

end
