(* ===== verification/Ledger_Storage.thy ===== *)
theory Ledger_Storage
  imports Plico_Prelude
begin

text \<open>
  The object directory and the pointer slots of an immutable ledger
  (\<open>ImmutableLedgerStorage\<close> in \<open>src/src/cas/ledger_store.rs\<close>): write-once objects named by
  their hash, and the active pointer that \<open>publish_active\<close> replaces by exchanging two files.
  Write failures of the file system are explicit arguments that say how far an operation got.

  The contract the ledger relies on is the locale \<open>object_store\<close>: what was readable stays
  readable with the same bytes, and an acknowledged write is readable.
\<close>

section \<open>The model\<close>

text \<open>
  An entry of the object directory is a private regular file (mode 0600) or something the
  storage refuses to read: a symbolic link, a directory, a file with other permissions.
\<close>

datatype dir_entry = PrivateFile string | UnusableEntry

record ledger_storage =
  ls_objects :: "(string \<times> dir_entry) list"
  ls_active :: string
  ls_candidate :: string

datatype io_error = IoError

datatype ledger_storage_error = StorageIo | PublishedButUnsynced

text \<open>
  How a write ends: without a fault, with a fault before the object got its final name, with one
  after it that leaves the object readable (syncing the directory), or with one after it that leaves
  a file without its private mode, which no read accepts.
\<close>

datatype put_fault = NoPutFault | PutFailsBefore | PutFailsAfter | PutFailsUnusable

text \<open>
  How a publication ends: a fault before the candidate slot is replaced, one between that and
  the exchange, one after the exchange, or none.
\<close>

datatype publish_fault =
    NoPublishFault
  | PublishFailsEarly
  | PublishFailsStaged
  | PublishFailsUnsynced

definition validate_hash :: "string \<Rightarrow> io_error + unit" where
  "validate_hash hash = ensure (length hash = 64 \<and> list_all is_hex_byte hash) IoError"

definition read_private_file :: "(string \<times> dir_entry) list \<Rightarrow> string \<Rightarrow> io_error + string" where
  "read_private_file dir name =
     (case map_of dir name of
        Some (PrivateFile bytes) \<Rightarrow> Inr bytes
      | _ \<Rightarrow> Inl IoError)"

definition read_private_file_bounded ::
  "(string \<times> dir_entry) list \<Rightarrow> string \<Rightarrow> nat \<Rightarrow> io_error + string" where
  "read_private_file_bounded dir name maximum_bytes =
     res_bind (read_private_file dir name) (\<lambda>bytes.
     res_bind (ensure (length bytes \<le> maximum_bytes) IoError) (\<lambda>_.
     res_bind (ensure (maximum_bytes < u64_max) IoError) (\<lambda>_. Inr bytes)))"

definition get_immutable :: "ledger_storage \<Rightarrow> string \<Rightarrow> io_error + string" where
  "get_immutable st hash =
     res_bind (validate_hash hash) (\<lambda>_. read_private_file (ls_objects st) hash)"

definition get_immutable_bounded :: "ledger_storage \<Rightarrow> string \<Rightarrow> nat \<Rightarrow> io_error + string" where
  "get_immutable_bounded st hash maximum_bytes =
     res_bind (validate_hash hash) (\<lambda>_.
     read_private_file_bounded (ls_objects st) hash maximum_bytes)"

definition put_immutable ::
  "put_fault \<Rightarrow> string \<Rightarrow> string \<Rightarrow> ledger_storage \<Rightarrow> ledger_storage \<times> (io_error + unit)" where
  "put_immutable fault hash bytes st =
     (case validate_hash hash of
        Inl e \<Rightarrow> (st, Inl e)
      | Inr _ \<Rightarrow>
          (case map_of (ls_objects st) hash of
             Some (PrivateFile present) \<Rightarrow>
               (st, if fault = PutFailsBefore then Inl IoError
                    else ensure (present = bytes) IoError)
           | Some UnusableEntry \<Rightarrow> (st, Inl IoError)
           | None \<Rightarrow>
               (let st' = st\<lparr>ls_objects := (hash, PrivateFile bytes) # ls_objects st\<rparr> in
                case fault of
                  PutFailsBefore \<Rightarrow> (st, Inl IoError)
                | PutFailsAfter \<Rightarrow> (st', Inl IoError)
                | PutFailsUnusable \<Rightarrow> (st\<lparr>ls_objects := (hash, UnusableEntry) # ls_objects st\<rparr>, Inl IoError)
                | NoPutFault \<Rightarrow> (st', Inr ()))))"

definition read_active :: "ledger_storage \<Rightarrow> string option" where
  "read_active st = (if ls_active st = [] then None else Some (ls_active st))"

definition list_immutable_hashes_bounded ::
  "ledger_storage \<Rightarrow> int \<Rightarrow> io_error + string list" where
  "list_immutable_hashes_bounded st maximum_entries =
     res_bind (res_foldM (\<lambda>hashes (name, entry).
         res_bind (ensure (int (length hashes) < maximum_entries) IoError) (\<lambda>_.
         res_bind (validate_hash name) (\<lambda>_.
         res_bind (ensure (entry \<noteq> UnusableEntry) IoError) (\<lambda>_.
         Inr (hashes @ [name]))))) [] (ls_objects st)) (\<lambda>hashes.
     Inr (sort hashes))"

text \<open>\<open>list_immutable_hashes\<close> passes \<open>usize::MAX\<close> as its bound.\<close>

definition usize_max :: int where
  "usize_max = 18446744073709551615"

definition list_immutable_hashes :: "ledger_storage \<Rightarrow> io_error + string list" where
  "list_immutable_hashes st = list_immutable_hashes_bounded st usize_max"

definition publish_active ::
  "publish_fault \<Rightarrow> string \<Rightarrow> ledger_storage \<Rightarrow> ledger_storage \<times> (ledger_storage_error + unit)" where
  "publish_active fault bytes st =
     (let staged = st\<lparr>ls_candidate := bytes\<rparr>;
          exchanged = st\<lparr>ls_active := bytes, ls_candidate := ls_active st\<rparr>
      in case fault of
           PublishFailsEarly \<Rightarrow> (st, Inl StorageIo)
         | PublishFailsStaged \<Rightarrow> (staged, Inl StorageIo)
         | PublishFailsUnsynced \<Rightarrow> (exchanged, Inl PublishedButUnsynced)
         | NoPublishFault \<Rightarrow> (exchanged, Inr ()))"

text \<open>
  Cleanup of a projection manifest directory.  The second argument is the inventory bound
  \<open>MAX_PROJECTION_MAINTENANCE_INVENTORY_ENTRIES\<close>.
\<close>

definition remove_unreferenced_projection_objects ::
  "int \<Rightarrow> string set \<Rightarrow> ledger_storage \<Rightarrow> ledger_storage \<times> (io_error + nat)" where
  "remove_unreferenced_projection_objects bound referenced st =
     (case list_immutable_hashes_bounded st bound of
        Inl e \<Rightarrow> (st, Inl e)
      | Inr hashes \<Rightarrow>
          (st\<lparr>ls_objects := filter (\<lambda>(name, _). name \<in> referenced) (ls_objects st)\<rparr>,
           Inr (length (filter (\<lambda>h. h \<notin> referenced) hashes))))"

text \<open>A sequence of writes that stops at the first error, as the commit path writes its objects.\<close>

fun put_seq ::
  "('h \<Rightarrow> 'b \<Rightarrow> 's \<Rightarrow> 's \<times> ('e + unit)) \<Rightarrow> ('h \<times> 'b) list \<Rightarrow> 's \<Rightarrow> 's \<times> ('e + unit)" where
  "put_seq put [] s = (s, Inr ())"
| "put_seq put ((h, b) # xs) s =
     (case put h b s of
        (s', Inl e) \<Rightarrow> (s', Inl e)
      | (s', Inr _) \<Rightarrow> put_seq put xs s')"

section \<open>The contract of a write-once object store\<close>

locale object_store =
  fixes lookup :: "'s \<Rightarrow> 'h \<Rightarrow> 'b option"
    and put :: "'h \<Rightarrow> 'b \<Rightarrow> 's \<Rightarrow> 's \<times> ('e + unit)"
  assumes put_keeps: "put h b s = (s', r) \<Longrightarrow> lookup s k = Some v \<Longrightarrow> lookup s' k = Some v"
    and put_reads: "put h b s = (s', Inr ()) \<Longrightarrow> lookup s' h = Some b"
begin

lemma put_seq_keeps:
  "put_seq put xs s = (s', r) \<Longrightarrow> lookup s k = Some v \<Longrightarrow> lookup s' k = Some v"
proof (induction xs arbitrary: s)
  case Nil
  then show ?case by simp
next
  case (Cons x xs)
  obtain h b where x: "x = (h, b)" by force
  obtain t q where put: "put h b s = (t, q)" by force
  have t: "lookup t k = Some v" using put_keeps [OF put Cons.prems(2)] .
  show ?case
    using Cons.prems(1) Cons.IH [OF _ t] t by (cases q) (simp_all add: x put)
qed

lemma put_seq_reads:
  "put_seq put xs s = (s', Inr ()) \<Longrightarrow> (h, b) \<in> set xs \<Longrightarrow> lookup s' h = Some b"
proof (induction xs arbitrary: s)
  case Nil
  then show ?case by simp
next
  case (Cons x xs)
  obtain g c where x: "x = (g, c)" by force
  obtain t q where put: "put g c s = (t, q)" by force
  obtain u where q: "q = Inr u" using Cons.prems(1) by (cases q) (auto simp: x put)
  have rest: "put_seq put xs t = (s', Inr ())" using Cons.prems(1) by (simp add: x put q)
  show ?case
  proof (cases "(h, b) \<in> set xs")
    case True
    then show ?thesis using Cons.IH rest by blast
  next
    case False
    then have "lookup t h = Some b" using Cons.prems(2) put_reads put q x by auto
    then show ?thesis using put_seq_keeps rest by blast
  qed
qed

text \<open>Two acknowledged writes of one sequence to the same name carry the same bytes.\<close>

lemma put_seq_consistent:
  "put_seq put xs s = (s', Inr ()) \<Longrightarrow> (h, b) \<in> set xs \<Longrightarrow> (h, c) \<in> set xs \<Longrightarrow> b = c"
  by (metis option.inject put_seq_reads)

end

section \<open>The storage keeps the contract\<close>

definition object_bytes :: "ledger_storage \<Rightarrow> string \<Rightarrow> string option" where
  "object_bytes st hash = (case get_immutable st hash of Inl _ \<Rightarrow> None | Inr bytes \<Rightarrow> Some bytes)"

lemma object_bytes_get: "object_bytes st h = Some b \<longleftrightarrow> get_immutable st h = Inr b"
  by (simp add: object_bytes_def split: sum.splits)

lemma put_immutable_cases:
  assumes "put_immutable f h b st = (st', r)"
  shows "st' = st \<or> map_of (ls_objects st) h = None
           \<and> (\<exists>e. st' = st\<lparr>ls_objects := (h, e) # ls_objects st\<rparr>)"
proof (cases "validate_hash h")
  case (Inl e)
  with assms show ?thesis by (simp add: put_immutable_def)
next
  case v: (Inr u)
  show ?thesis
  proof (cases "map_of (ls_objects st) h")
    case None
    with assms v show ?thesis by (cases f) (auto simp: put_immutable_def)
  next
    case (Some e)
    with assms v show ?thesis by (cases e) (auto simp: put_immutable_def)
  qed
qed

lemma put_immutable_keeps:
  assumes put: "put_immutable f h b st = (st', r)" and get: "get_immutable st k = Inr v"
  shows "get_immutable st' k = Inr v"
  using put_immutable_cases [OF put]
proof
  assume "st' = st"
  with get show ?thesis by simp
next
  assume "map_of (ls_objects st) h = None
    \<and> (\<exists>e. st' = st\<lparr>ls_objects := (h, e) # ls_objects st\<rparr>)"
  with get show ?thesis
    by (cases "k = h") (auto simp: get_immutable_def read_private_file_def res_simps)
qed

lemma put_immutable_reads:
  assumes "put_immutable f h b st = (st', Inr ())"
  shows "get_immutable st' h = Inr b"
proof -
  obtain u where v: "validate_hash h = Inr u"
    using assms by (cases "validate_hash h") (simp_all add: put_immutable_def)
  show ?thesis
    using assms v
    by (cases "map_of (ls_objects st) h")
       (auto simp: put_immutable_def get_immutable_def read_private_file_def Let_def
          split: dir_entry.splits put_fault.splits if_splits)
qed

interpretation immutable: object_store object_bytes "\<lambda>h. put_immutable (pf h) h"
  by unfold_locales
    (auto simp: object_bytes_get intro: put_immutable_keeps put_immutable_reads)

text \<open>Writes never touch the pointer slots, and publication never touches the objects.\<close>

lemma put_immutable_slots:
  "put_immutable f h b st = (st', r) \<Longrightarrow> ls_active st' = ls_active st \<and> ls_candidate st' = ls_candidate st"
  by (drule put_immutable_cases) auto

lemma put_seq_slots:
  "put_seq (\<lambda>h. put_immutable (pf h) h) xs st = (st', r) \<Longrightarrow> ls_active st' = ls_active st"
proof (induction xs arbitrary: st)
  case Nil
  then show ?case by simp
next
  case (Cons x xs)
  obtain h b where x: "x = (h, b)" by force
  obtain t q where put: "put_immutable (pf h) h b st = (t, q)" by force
  have "ls_active t = ls_active st" using put_immutable_slots [OF put] by simp
  then show ?case using Cons.prems Cons.IH [of t] by (cases q) (simp_all add: x put)
qed

lemma publish_active_objects:
  "publish_active f b st = (st', r) \<Longrightarrow> ls_objects st' = ls_objects st"
  by (cases f) (auto simp: publish_active_def)

text \<open>
  The pointer changes atomically: a publication either leaves the old active bytes in place or
  installs exactly the new ones, and it reports plain success or \<open>Io\<close> accordingly.
\<close>

lemma publish_active_atomic:
  assumes "publish_active f b st = (st', r)"
  shows "r = Inl StorageIo \<longrightarrow> ls_active st' = ls_active st"
    and "r \<noteq> Inl StorageIo \<longrightarrow> ls_active st' = b \<and> ls_candidate st' = ls_active st"
  using assms by (cases f; auto simp: publish_active_def)+

end
