(* ===== verification/Hash_Chain.thy ===== *)
theory Hash_Chain
  imports Plico_Prelude
begin

text \<open>
  Chains of content-addressed objects.  The ledger stores each log as a chain of segments and its
  history as a chain of roots, every object naming its predecessor by hash; loading walks such a
  chain from its newest object.  \<open>hpath rd nx n p\<close> says that the walk from the optional hash
  \<open>n\<close>, reading with \<open>rd\<close> and following \<open>nx\<close>, ends and visits exactly \<open>p\<close>.

  A walk is a function of its start, so one that ends never visits a hash twice: the guards
  against cycles in the code reject non-terminating walks only.
\<close>

fun hpath :: "('h \<Rightarrow> 'e + 'v) \<Rightarrow> ('v \<Rightarrow> 'h option) \<Rightarrow> 'h option \<Rightarrow> ('h \<times> 'v) list \<Rightarrow> bool" where
  "hpath rd nx n [] \<longleftrightarrow> n = None"
| "hpath rd nx n ((h, v) # p) \<longleftrightarrow> n = Some h \<and> rd h = Inr v \<and> hpath rd nx (nx v) p"

lemma hpath_Some:
  "hpath rd nx (Some h) p \<longleftrightarrow> (\<exists>v q. p = (h, v) # q \<and> rd h = Inr v \<and> hpath rd nx (nx v) q)"
  by (cases p) auto

lemma hpath_None [simp]: "hpath rd nx None p \<longleftrightarrow> p = []"
  by (cases p) auto

lemma hpath_det: "hpath rd nx n p \<Longrightarrow> hpath rd nx n q \<Longrightarrow> p = q"
proof (induction p arbitrary: n q)
  case Nil
  then show ?case by simp
next
  case (Cons a p)
  then show ?case by (cases a, cases q) auto
qed

lemma hpath_suffix: "hpath rd nx n (p @ (h, v) # q) \<Longrightarrow> hpath rd nx (Some h) ((h, v) # q)"
  by (induction p arbitrary: n) auto

lemma hpath_reads: "hpath rd nx n p \<Longrightarrow> (h, v) \<in> set p \<Longrightarrow> rd h = Inr v"
  by (induction p arbitrary: n) auto

lemma hpath_fresh:
  assumes path: "hpath rd nx n ((h, v) # p)"
  shows "h \<notin> fst ` set p"
proof
  assume "h \<in> fst ` set p"
  then obtain w where w: "(h, w) \<in> set p" by force
  then obtain a b where p: "p = a @ (h, w) # b" by (meson split_list)
  have "hpath rd nx (Some h) ((h, w) # b)"
    by (rule hpath_suffix [of rd nx "nx v" a]) (use path p in simp)
  moreover have "hpath rd nx (Some h) ((h, v) # p)" using path by simp
  ultimately have "(h, w) # b = (h, v) # p" by (rule hpath_det)
  then have "length b = length p" by simp
  then show False using p by simp
qed

lemma hpath_distinct: "hpath rd nx n p \<Longrightarrow> distinct (map fst p)"
proof (induction p arbitrary: n)
  case Nil
  then show ?case by simp
next
  case (Cons a p)
  obtain h v where a: "a = (h, v)" by force
  have "h \<notin> fst ` set p" using Cons.prems hpath_fresh unfolding a by fast
  moreover have "distinct (map fst p)" using Cons unfolding a by auto
  ultimately show ?case by (simp add: a)
qed

lemma hpath_mono:
  assumes "hpath rd nx n p" and "\<And>h v. rd h = Inr v \<Longrightarrow> rd' h = Inr v"
  shows "hpath rd' nx n p"
  using assms(1) by (induction p arbitrary: n) (auto intro: assms(2))

end
