(* ===== verification/Ledger_Store.thy ===== *)
theory Ledger_Store
  imports Migration_Manifest Ledger_Storage Hash_Chain
begin

text \<open>
  Reading the ledger back (\<open>src/src/memory/ledger/store.rs\<close>, \<open>hash.rs\<close>): segments, roots and
  views are canonical JSON objects named by a domain-separated hash; \<open>load_state\<close> starts at the
  active pointer, checks the whole chain of roots down to the empty genesis and rebuilds the state.
\<close>

section \<open>Objects\<close>

record 'r segment =
  sg_schema :: string
  sg_first_sequence :: nat
  sg_last_sequence :: nat
  sg_previous_segment_hash :: "string option"
  sg_records :: "'r list"

record ledger_root =
  rt_schema :: string
  rt_generation :: nat
  rt_previous_root_hash :: "string option"
  rt_revision_head :: "string option"
  rt_revision_watermark :: nat
  rt_policy_head :: "string option"
  rt_policy_watermark :: nat
  rt_relation_head :: "string option"
  rt_relation_watermark :: nat
  rt_current_view_hash :: string
  rt_migration_manifest_hash :: "string option"
  rt_committed_at :: nat
  rt_committed_by_role :: string

record active_pointer =
  ap_schema :: string
  ap_root_hash :: string

record ledger_state =
  lg_poisoned :: bool
  lg_root_hash :: "string option"
  lg_root :: "ledger_root option"
  lg_view :: "current_view option"
  lg_revisions :: "canonical_revision list"
  lg_policies :: "policy_record list"
  lg_relations :: "relation_record list"

definition REVISION_SEGMENT_SCHEMA :: string where
  "REVISION_SEGMENT_SCHEMA = ''plico.memory.revision-segment/v1''"

definition POLICY_SEGMENT_SCHEMA :: string where
  "POLICY_SEGMENT_SCHEMA = ''plico.memory.policy-segment/v1''"

definition RELATION_SEGMENT_SCHEMA :: string where
  "RELATION_SEGMENT_SCHEMA = ''plico.memory.relation-segment/v1''"

definition ROOT_SCHEMA :: string where "ROOT_SCHEMA = ''plico.memory.root/v1''"

definition ROOT_POINTER_SCHEMA :: string where
  "ROOT_POINTER_SCHEMA = ''plico.memory.root-pointer/v1''"

definition SEGMENT_DOMAIN :: string where
  "SEGMENT_DOMAIN = ''plico.memory.segment.v1'' @ [CHR 0x00]"

definition ROOT_DOMAIN :: string where
  "ROOT_DOMAIN = ''plico.memory.root.v1'' @ [CHR 0x00]"

definition VIEW_DOMAIN :: string where
  "VIEW_DOMAIN = ''plico.memory.current-view.v1'' @ [CHR 0x00]"

text \<open>
  The JSON encoders (\<open>serde_json_canonicalizer::to_vec\<close>) and decoders (\<open>serde_json::from_slice\<close>)
  at the types the ledger stores.  Both are third-party code and so parameters of the model.
\<close>

record 'r codec =
  enc :: "'r \<Rightarrow> string option"
  dec :: "string \<Rightarrow> 'r option"

record ledger_codec =
  revision_codec :: "canonical_revision segment codec"
  policy_codec :: "policy_record segment codec"
  relation_codec :: "relation_record segment codec"
  root_codec :: "ledger_root codec"
  view_codec :: "current_view codec"
  pointer_codec :: "active_pointer codec"
  source_codec :: "source_manifest codec"
  manifest_codec :: "migration_manifest codec"

text \<open>\<open>LogKind\<close> together with the record type it selects.\<close>

record 'r log_kind =
  lk_schema :: string
  lk_codec :: "'r segment codec"

definition revision_log :: "ledger_codec \<Rightarrow> canonical_revision log_kind" where
  "revision_log c = \<lparr>lk_schema = REVISION_SEGMENT_SCHEMA, lk_codec = revision_codec c\<rparr>"

definition policy_log :: "ledger_codec \<Rightarrow> policy_record log_kind" where
  "policy_log c = \<lparr>lk_schema = POLICY_SEGMENT_SCHEMA, lk_codec = policy_codec c\<rparr>"

definition relation_log :: "ledger_codec \<Rightarrow> relation_record log_kind" where
  "relation_log c = \<lparr>lk_schema = RELATION_SEGMENT_SCHEMA, lk_codec = relation_codec c\<rparr>"

section \<open>Reading objects\<close>

definition read_hashed_object ::
  "'a codec \<Rightarrow> ledger_storage \<Rightarrow> string \<Rightarrow> ledger_error + 'a" where
  "read_hashed_object k st hash =
     res_bind (map_err (\<lambda>_. LedgerIo) (get_immutable st hash)) (\<lambda>bytes.
     res_bind (ok_or (dec k bytes) LedgerSerialization) (\<lambda>v.
     res_bind (ok_or (enc k v) (LedgerInvalid ''jcs_canonicalization_failed'')) (\<lambda>canonical.
     res_bind (ensure (bytes = canonical) (LedgerInvalid ''non_canonical_object_bytes'')) (\<lambda>_.
     Inr v))))"

definition verify ::
  "xenv \<Rightarrow> string \<Rightarrow> 'a codec \<Rightarrow> 'a \<Rightarrow> string \<Rightarrow> string \<Rightarrow> ledger_error + unit" where
  "verify x domain k v expected category =
     res_bind (canonical_bytes_and_hash x (enc k) domain v) (\<lambda>(_, actual).
     ensure (actual = expected) (LedgerInvalid category))"

definition read_segment ::
  "xenv \<Rightarrow> 'r log_kind \<Rightarrow> ledger_storage \<Rightarrow> string \<Rightarrow> ledger_error + 'r segment" where
  "read_segment x k st hash =
     res_bind (read_hashed_object (lk_codec k) st hash) (\<lambda>s.
     res_bind (verify x SEGMENT_DOMAIN (lk_codec k) s hash ''segment_hash_mismatch'') (\<lambda>_.
     res_bind (ensure (sg_schema s = lk_schema k \<and> sg_records s \<noteq> [])
                 (LedgerInvalid ''invalid_segment'')) (\<lambda>_.
     Inr s)))"

definition read_root :: "xenv \<Rightarrow> ledger_codec \<Rightarrow> ledger_storage \<Rightarrow> string \<Rightarrow> ledger_error + ledger_root" where
  "read_root x c st hash =
     res_bind (read_hashed_object (root_codec c) st hash) (\<lambda>root.
     res_bind (verify x ROOT_DOMAIN (root_codec c) root hash ''root_hash_mismatch'') (\<lambda>_.
     Inr root))"

definition read_view :: "xenv \<Rightarrow> ledger_codec \<Rightarrow> ledger_storage \<Rightarrow> string \<Rightarrow> ledger_error + current_view" where
  "read_view x c st hash =
     res_bind (read_hashed_object (view_codec c) st hash) (\<lambda>view.
     res_bind (verify x VIEW_DOMAIN (view_codec c) view hash ''current_view_hash_mismatch'') (\<lambda>_.
     Inr view))"

lemma read_hashed_object_Inr:
  "read_hashed_object k st h = Inr v \<longleftrightarrow>
     (\<exists>b. get_immutable st h = Inr b \<and> dec k b = Some v \<and> enc k v = Some b)"
  by (auto simp: read_hashed_object_def res_simps)

lemma get_immutable_in_dir: "get_immutable st h = Inr b \<Longrightarrow> h \<in> fst ` set (ls_objects st)"
  by (auto simp: get_immutable_def read_private_file_def res_simps split: option.splits
      dest: map_of_SomeD intro: rev_image_eqI)

lemma read_segment_in_dir: "read_segment x k st h = Inr s \<Longrightarrow> h \<in> fst ` set (ls_objects st)"
  by (auto simp: read_segment_def read_hashed_object_Inr res_simps dest: get_immutable_in_dir)

lemma res_bind_cong [fundef_cong]:
  "m = m' \<Longrightarrow> (\<And>x. m' = Inr x \<Longrightarrow> f x = g x) \<Longrightarrow> res_bind m f = res_bind m' g"
  by (cases m') simp_all

section \<open>The chain of segments of a log\<close>

text \<open>The loop that follows the chain; it terminates because \<open>seen\<close> grows within the directory.\<close>

function segment_loop ::
  "xenv \<Rightarrow> 'r log_kind \<Rightarrow> ledger_storage \<Rightarrow> string set \<Rightarrow> string option \<Rightarrow>
   ledger_error + 'r segment list" where
  "segment_loop x k st seen None = Inr []"
| "segment_loop x k st seen (Some hash) =
     (if hash \<in> seen then Inl (LedgerInvalid ''segment_cycle'')
      else res_bind (read_segment x k st hash) (\<lambda>s.
           res_bind (segment_loop x k st (insert hash seen) (sg_previous_segment_hash s)) (\<lambda>rest.
           Inr (s # rest))))"
  by pat_completeness auto
termination
proof (relation "measure (\<lambda>(x, k, st, seen, next). card (fst ` set (ls_objects st) - seen))", goal_cases)
  case 1
  show ?case by simp
next
  case (2 x k st seen hash s)
  then have "hash \<in> fst ` set (ls_objects st) - seen" by (auto dest: read_segment_in_dir)
  then have "fst ` set (ls_objects st) - insert hash seen \<subset> fst ` set (ls_objects st) - seen" by auto
  then show ?case by (simp add: psubset_card_mono)
qed

definition append_segment ::
  "nat \<times> 'r list \<Rightarrow> 'r segment \<Rightarrow> ledger_error + (nat \<times> 'r list)" where
  "append_segment = (\<lambda>(expected_sequence, records) s.
     res_bind (ensure (sg_first_sequence s = expected_sequence
                       \<and> sg_last_sequence s = sg_first_sequence s + length (sg_records s) - 1)
                 (LedgerInvalid ''non_contiguous_segment_sequence'')) (\<lambda>_.
     Inr (sg_last_sequence s + 1, records @ sg_records s)))"

definition load_segment_chain ::
  "xenv \<Rightarrow> 'r log_kind \<Rightarrow> ledger_storage \<Rightarrow> string option \<Rightarrow> nat \<Rightarrow> ledger_error + 'r list" where
  "load_segment_chain x k st head watermark =
     (if watermark = 0 then
        res_bind (ensure (head = None) (LedgerInvalid ''empty_log_has_segment'')) (\<lambda>_. Inr [])
      else
        res_bind (segment_loop x k st {} head) (\<lambda>segments.
        res_bind (res_foldM append_segment (1, []) (rev segments)) (\<lambda>(_, records).
        res_bind (ensure (length records = watermark) (LedgerInvalid ''log_head_sequence_mismatch''))
          (\<lambda>_. Inr records))))"

section \<open>Roots and their history\<close>

text \<open>Whether the chain that starts at \<open>current\<close> runs through the segment \<open>previous\<close>.\<close>

function head_loop ::
  "xenv \<Rightarrow> 'r log_kind \<Rightarrow> ledger_storage \<Rightarrow> string \<Rightarrow> string set \<Rightarrow> string option \<Rightarrow>
   ledger_error + bool" where
  "head_loop x k st previous seen None = Inr False"
| "head_loop x k st previous seen (Some hash) =
     (if hash = previous then Inr True
      else if hash \<in> seen then Inr False
      else res_bind (read_segment x k st hash) (\<lambda>s.
           head_loop x k st previous (insert hash seen) (sg_previous_segment_hash s)))"
  by pat_completeness auto
termination
proof (relation "measure (\<lambda>(x, k, st, previous, seen, next). card (fst ` set (ls_objects st) - seen))",
    goal_cases)
  case 1
  show ?case by simp
next
  case (2 x k st previous seen hash s)
  then have "hash \<in> fst ` set (ls_objects st) - seen" by (auto dest: read_segment_in_dir)
  then have "fst ` set (ls_objects st) - insert hash seen \<subset> fst ` set (ls_objects st) - seen" by auto
  then show ?case by (simp add: psubset_card_mono)
qed

definition head_extends ::
  "xenv \<Rightarrow> 'r log_kind \<Rightarrow> ledger_storage \<Rightarrow> string option \<Rightarrow> string option \<Rightarrow> ledger_error + bool" where
  "head_extends x k st current previous =
     (case previous of
        None \<Rightarrow> Inr True
      | Some p \<Rightarrow> head_loop x k st p {} current)"

definition load_manifests ::
  "xenv \<Rightarrow> ledger_codec \<Rightarrow> ledger_storage \<Rightarrow> string \<Rightarrow>
   ledger_error + (migration_manifest \<times> source_manifest)" where
  "load_manifests x c st manifest_hash =
     res_bind (read_hashed_object (manifest_codec c) st manifest_hash) (\<lambda>manifest.
     res_bind (manifest_verify_hash x (enc (manifest_codec c)) manifest manifest_hash) (\<lambda>_.
     res_bind (read_hashed_object (source_codec c) st (mm_source_manifest_hash manifest)) (\<lambda>source.
     res_bind (source_verify_hash x (enc (source_codec c)) source (mm_source_manifest_hash manifest))
       (\<lambda>_. Inr (manifest, source)))))"

definition verify_migration_manifest_objects ::
  "xenv \<Rightarrow> ledger_codec \<Rightarrow> ledger_storage \<Rightarrow> string option \<Rightarrow> ledger_error + unit" where
  "verify_migration_manifest_objects x c st manifest_hash =
     (case manifest_hash of
        None \<Rightarrow> Inr ()
      | Some h \<Rightarrow> res_bind (load_manifests x c st h) (\<lambda>_. Inr ()))"

definition load_logs ::
  "xenv \<Rightarrow> ledger_codec \<Rightarrow> ledger_storage \<Rightarrow> ledger_root \<Rightarrow>
   ledger_error + (canonical_revision list \<times> policy_record list \<times> relation_record list)" where
  "load_logs x c st root =
     res_bind (load_segment_chain x (revision_log c) st (rt_revision_head root)
                 (rt_revision_watermark root)) (\<lambda>revisions.
     res_bind (load_segment_chain x (policy_log c) st (rt_policy_head root)
                 (rt_policy_watermark root)) (\<lambda>policies.
     res_bind (load_segment_chain x (relation_log c) st (rt_relation_head root)
                 (rt_relation_watermark root)) (\<lambda>relations.
     Inr (revisions, policies, relations))))"

definition validate_migration_boundary ::
  "xenv \<Rightarrow> ledger_codec \<Rightarrow> ledger_storage \<Rightarrow> ledger_root \<Rightarrow> ledger_error + unit" where
  "validate_migration_boundary x c st root =
     res_bind (ok_or (rt_migration_manifest_hash root)
                 (LedgerInvalid ''missing_migration_manifest'')) (\<lambda>manifest_hash.
     res_bind (load_manifests x c st manifest_hash) (\<lambda>(manifest, source).
     res_bind (ensure (mm_imported_at manifest = rt_committed_at root
                       \<and> mm_imported_by_role manifest = rt_committed_by_role root)
                 (LedgerInvalid ''migration_manifest_commit_boundary_mismatch'')) (\<lambda>_.
     res_bind (load_logs x c st root) (\<lambda>(revisions, policies, relations).
     validate_target_records manifest source revisions policies (length relations)))))"

definition validate_logs ::
  "xenv \<Rightarrow> canonical_revision list \<Rightarrow> policy_record list \<Rightarrow> relation_record list \<Rightarrow>
   ledger_error + unit" where
  "validate_logs x revisions policies relations =
     res_bind (validate_revisions x revisions) (\<lambda>_.
     res_bind (validate_policies x policies revisions) (\<lambda>_.
     validate_relations x relations revisions))"

text \<open>
  The comparison of a stored view with the rebuilt one, by canonical bytes.  The check of a
  historical root encodes both views first; \<open>load_state\<close> encodes them last.
\<close>

definition watermarks_match :: "ledger_root \<Rightarrow> current_view \<Rightarrow> bool" where
  "watermarks_match root view \<longleftrightarrow>
     cv_schema view = CURRENT_VIEW_SCHEMA
     \<and> cv_generation view = rt_generation root
     \<and> cv_revision_watermark view = rt_revision_watermark root
     \<and> cv_policy_watermark view = rt_policy_watermark root
     \<and> cv_relation_watermark view = rt_relation_watermark root"

definition historical_view_matches ::
  "ledger_codec \<Rightarrow> ledger_root \<Rightarrow> current_view \<Rightarrow> current_view \<Rightarrow> ledger_error + unit" where
  "historical_view_matches c root view rebuilt =
     res_bind (ok_or (enc (view_codec c) view) (LedgerInvalid ''jcs_canonicalization_failed''))
       (\<lambda>view_bytes.
     res_bind (ok_or (enc (view_codec c) rebuilt) (LedgerInvalid ''jcs_canonicalization_failed''))
       (\<lambda>rebuilt_bytes.
     ensure (watermarks_match root view \<and> view_bytes = rebuilt_bytes)
       (LedgerInvalid ''historical_root_view_mismatch'')))"

definition loaded_view_matches ::
  "ledger_codec \<Rightarrow> ledger_root \<Rightarrow> current_view \<Rightarrow> current_view \<Rightarrow> ledger_error + unit" where
  "loaded_view_matches c root view rebuilt =
     res_bind (ensure (watermarks_match root view)
                 (LedgerInvalid ''current_view_rebuild_mismatch'')) (\<lambda>_.
     res_bind (ok_or (enc (view_codec c) view) (LedgerInvalid ''jcs_canonicalization_failed''))
       (\<lambda>view_bytes.
     res_bind (ok_or (enc (view_codec c) rebuilt) (LedgerInvalid ''jcs_canonicalization_failed''))
       (\<lambda>rebuilt_bytes.
     ensure (view_bytes = rebuilt_bytes) (LedgerInvalid ''current_view_rebuild_mismatch''))))"

definition validate_root_snapshot ::
  "xenv \<Rightarrow> ledger_codec \<Rightarrow> ledger_storage \<Rightarrow> ledger_root \<Rightarrow> ledger_error + unit" where
  "validate_root_snapshot x c st root =
     res_bind (read_view x c st (rt_current_view_hash root)) (\<lambda>view.
     res_bind (load_logs x c st root) (\<lambda>(revisions, policies, relations).
     res_bind (validate_logs x revisions policies relations) (\<lambda>_.
     res_bind (verify_migration_manifest_objects x c st (rt_migration_manifest_hash root)) (\<lambda>_.
     res_bind (rebuild_current_view (rt_generation root) revisions policies
                 (rt_relation_watermark root)) (\<lambda>rebuilt.
     historical_view_matches c root view rebuilt)))))"

text \<open>The disjunction of \<open>validate_root_chain\<close>, evaluated from left to right.\<close>

definition root_extends ::
  "xenv \<Rightarrow> ledger_codec \<Rightarrow> ledger_storage \<Rightarrow> ledger_root \<Rightarrow> ledger_root \<Rightarrow> ledger_error + bool" where
  "root_extends x c st root previous =
     (if rt_revision_watermark root < rt_revision_watermark previous
         \<or> rt_policy_watermark root < rt_policy_watermark previous
         \<or> rt_relation_watermark root < rt_relation_watermark previous then Inr False
      else
        res_bind (head_extends x (revision_log c) st (rt_revision_head root) (rt_revision_head previous))
          (\<lambda>revisions_ok. if \<not> revisions_ok then Inr False else
        res_bind (head_extends x (policy_log c) st (rt_policy_head root) (rt_policy_head previous))
          (\<lambda>policies_ok. if \<not> policies_ok then Inr False else
        res_bind (head_extends x (relation_log c) st (rt_relation_head root) (rt_relation_head previous))
          (\<lambda>relations_ok. if \<not> relations_ok then Inr False else
        Inr (\<not> (rt_migration_manifest_hash previous \<noteq> None
                 \<and> rt_migration_manifest_hash root \<noteq> rt_migration_manifest_hash previous
                 \<or> rt_migration_manifest_hash previous = None
                 \<and> rt_migration_manifest_hash root \<noteq> None
                 \<and> rt_generation previous \<noteq> 0))))))"

definition is_genesis_root :: "ledger_root \<Rightarrow> bool" where
  "is_genesis_root root \<longleftrightarrow>
     rt_revision_head root = None \<and> rt_revision_watermark root = 0
     \<and> rt_policy_head root = None \<and> rt_policy_watermark root = 0
     \<and> rt_relation_head root = None \<and> rt_relation_watermark root = 0
     \<and> rt_migration_manifest_hash root = None \<and> rt_committed_at root = 0
     \<and> rt_committed_by_role root = PERSONAL_OWNER_ROLE_ID"

definition enter_root ::
  "xenv \<Rightarrow> ledger_codec \<Rightarrow> ledger_storage \<Rightarrow> nat \<Rightarrow> string set \<Rightarrow> string \<Rightarrow> ledger_root \<Rightarrow>
   ledger_error + unit" where
  "enter_root x c st expected_generation seen hash root =
     res_bind (ensure (hash \<notin> seen \<and> rt_schema root = ROOT_SCHEMA
                       \<and> rt_generation root = expected_generation)
                 (LedgerInvalid ''invalid_root_chain'')) (\<lambda>_.
     validate_root_snapshot x c st root)"

definition step_to_previous ::
  "xenv \<Rightarrow> ledger_codec \<Rightarrow> ledger_storage \<Rightarrow> ledger_root \<Rightarrow> string \<Rightarrow> ledger_error + ledger_root" where
  "step_to_previous x c st root previous_hash =
     res_bind (read_root x c st previous_hash) (\<lambda>previous.
     res_bind (if rt_migration_manifest_hash root \<noteq> None \<and> rt_migration_manifest_hash previous = None
               then validate_migration_boundary x c st root else Inr ()) (\<lambda>_.
     res_bind (root_extends x c st root previous) (\<lambda>ok.
     res_bind (ensure ok (LedgerInvalid ''historical_root_not_prefix'')) (\<lambda>_.
     Inr previous))))"

fun root_chain_loop ::
  "xenv \<Rightarrow> ledger_codec \<Rightarrow> ledger_storage \<Rightarrow> nat \<Rightarrow> string set \<Rightarrow> string \<Rightarrow> ledger_root \<Rightarrow>
   ledger_error + unit" where
  "root_chain_loop x c st 0 seen hash root =
     res_bind (enter_root x c st 0 seen hash root) (\<lambda>_.
     case rt_previous_root_hash root of
       None \<Rightarrow> ensure (is_genesis_root root) (LedgerInvalid ''truncated_root_chain'')
     | Some _ \<Rightarrow> Inl (LedgerInvalid ''invalid_root_generation''))"
| "root_chain_loop x c st (Suc generation) seen hash root =
     res_bind (enter_root x c st (Suc generation) seen hash root) (\<lambda>_.
     case rt_previous_root_hash root of
       None \<Rightarrow> Inl (LedgerInvalid ''truncated_root_chain'')
     | Some previous_hash \<Rightarrow>
         res_bind (step_to_previous x c st root previous_hash) (\<lambda>previous.
         root_chain_loop x c st generation (insert hash seen) previous_hash previous))"

definition validate_root_chain ::
  "xenv \<Rightarrow> ledger_codec \<Rightarrow> ledger_storage \<Rightarrow> string \<Rightarrow> ledger_root \<Rightarrow> ledger_error + unit" where
  "validate_root_chain x c st active_hash active_root =
     root_chain_loop x c st (rt_generation active_root) {} active_hash active_root"

section \<open>Loading the state\<close>

definition read_pointer :: "ledger_codec \<Rightarrow> ledger_storage \<Rightarrow> ledger_error + active_pointer" where
  "read_pointer c st =
     res_bind (ok_or (read_active st) (LedgerInvalid ''missing_active_pointer'')) (\<lambda>pointer_bytes.
     res_bind (ok_or (dec (pointer_codec c) pointer_bytes) LedgerSerialization) (\<lambda>pointer.
     res_bind (ok_or (enc (pointer_codec c) pointer) (LedgerInvalid ''jcs_canonicalization_failed''))
       (\<lambda>canonical.
     res_bind (ensure (canonical = pointer_bytes) (LedgerInvalid ''non_canonical_active_pointer''))
       (\<lambda>_.
     res_bind (ensure (ap_schema pointer = ROOT_POINTER_SCHEMA)
                 (LedgerInvalid ''unsupported_active_pointer_schema'')) (\<lambda>_.
     Inr pointer)))))"

definition load_state :: "xenv \<Rightarrow> ledger_codec \<Rightarrow> ledger_storage \<Rightarrow> ledger_error + ledger_state" where
  "load_state x c st =
     res_bind (read_pointer c st) (\<lambda>pointer.
     res_bind (read_root x c st (ap_root_hash pointer)) (\<lambda>root.
     res_bind (ensure (rt_schema root = ROOT_SCHEMA) (LedgerInvalid ''invalid_ledger_root'')) (\<lambda>_.
     res_bind (validate_root_chain x c st (ap_root_hash pointer) root) (\<lambda>_.
     res_bind (read_view x c st (rt_current_view_hash root)) (\<lambda>view.
     res_bind (load_logs x c st root) (\<lambda>(revisions, policies, relations).
     res_bind (validate_logs x revisions policies relations) (\<lambda>_.
     res_bind (rebuild_current_view (rt_generation root) revisions policies
                 (rt_relation_watermark root)) (\<lambda>rebuilt.
     res_bind (loaded_view_matches c root view rebuilt) (\<lambda>_.
     Inr \<lparr>lg_poisoned = False, lg_root_hash = Some (ap_root_hash pointer), lg_root = Some root,
          lg_view = Some view, lg_revisions = revisions, lg_policies = policies,
          lg_relations = relations\<rparr>)))))))))"

end
