(* ===== verification/Ledger_Load.thy ===== *)
theory Ledger_Load
  imports Ledger_Store "HOL-Library.Sublist"
begin

text \<open>
  Facts about the load path of \<open>Ledger_Store\<close>: the segment loop computes the walk along the
  chain, loading is monotone in the set of stored objects (adding objects never changes what
  an accepted load returns), the history of roots can be extended by one root, and the logs of
  every historical root are prefixes of the current ones.
\<close>

section \<open>Chains of segments\<close>

abbreviation segment_path ::
  "xenv \<Rightarrow> 'r log_kind \<Rightarrow> ledger_storage \<Rightarrow> string option \<Rightarrow> (string \<times> 'r segment) list \<Rightarrow> bool" where
  "segment_path x k st \<equiv> hpath (read_segment x k st) sg_previous_segment_hash"

lemma segment_loop_Inr:
  "segment_loop x k st seen n = Inr ss \<longleftrightarrow>
     (\<exists>p. segment_path x k st n p \<and> fst ` set p \<inter> seen = {} \<and> ss = map snd p)"
proof (induction x k st seen n arbitrary: ss rule: segment_loop.induct)
  case (1 x k st seen)
  then show ?case by auto
next
  case (2 x k st seen h)
  show ?case
  proof (cases "h \<in> seen")
    case True
    then show ?thesis by (auto simp: hpath_Some)
  next
    case False
    show ?thesis
    proof
      assume "segment_loop x k st seen (Some h) = Inr ss"
      then obtain s rest where s: "read_segment x k st h = Inr s"
        and rest: "segment_loop x k st (insert h seen) (sg_previous_segment_hash s) = Inr rest"
        and ss: "ss = s # rest"
        using False by (auto simp: res_simps)
      from 2 [OF False s, of rest] rest obtain p where
        "segment_path x k st (sg_previous_segment_hash s) p" "fst ` set p \<inter> insert h seen = {}"
        "rest = map snd p" by blast
      then show "\<exists>p. segment_path x k st (Some h) p \<and> fst ` set p \<inter> seen = {} \<and> ss = map snd p"
        using False s ss by (intro exI [of _ "(h, s) # p"]) auto
    next
      assume "\<exists>p. segment_path x k st (Some h) p \<and> fst ` set p \<inter> seen = {} \<and> ss = map snd p"
      then obtain s p where p: "segment_path x k st (Some h) ((h, s) # p)"
        and dis: "fst ` set p \<inter> seen = {}" and ss: "ss = s # map snd p"
        by (auto simp: hpath_Some)
      have s: "read_segment x k st h = Inr s" using p by simp
      have "fst ` set p \<inter> insert h seen = {}" using dis hpath_fresh [OF p] by simp
      then have "segment_loop x k st (insert h seen) (sg_previous_segment_hash s) = Inr (map snd p)"
        using 2 [OF False s, of "map snd p"] p by auto
      then show "segment_loop x k st seen (Some h) = Inr ss" using False s ss by simp
    qed
  qed
qed

lemma segment_loop_path:
  "segment_loop x k st {} n = Inr ss \<longleftrightarrow> (\<exists>p. segment_path x k st n p \<and> ss = map snd p)"
  by (simp add: segment_loop_Inr)

text \<open>The records of a contiguous sequence of segments.\<close>

lemma append_segment_Inr:
  "append_segment (n, rs) s = Inr t \<longleftrightarrow>
     sg_first_sequence s = n \<and> sg_last_sequence s = n + length (sg_records s) - 1
     \<and> t = (sg_last_sequence s + 1, rs @ sg_records s)"
  by (auto simp: append_segment_def res_simps)

lemma append_segments_records:
  "res_foldM append_segment (n, rs) segs = Inr (n', rs') \<Longrightarrow>
     rs' = rs @ concat (map sg_records segs)"
  by (induction segs arbitrary: n rs) (fastforce simp: append_segment_Inr res_simps)+

lemma append_segments_sequence:
  assumes "res_foldM append_segment (Suc 0, []) segs = Inr (n, rs)"
    and "\<forall>s \<in> set segs. sg_records s \<noteq> []"
  shows "n = Suc (length rs)"
  using assms
proof (induction segs arbitrary: n rs rule: rev_induct)
  case Nil
  then show ?case by simp
next
  case (snoc s segs)
  then show ?case
    by (cases "sg_records s") (auto simp: res_foldM_snoc_Inr append_segment_Inr)
qed

lemma read_segment_nonempty: "read_segment x k st h = Inr s \<Longrightarrow> sg_records s \<noteq> []"
  by (auto simp: read_segment_def res_simps)

lemma segment_path_nonempty: "segment_path x k st n p \<Longrightarrow> s \<in> snd ` set p \<Longrightarrow> sg_records s \<noteq> []"
  by (auto dest!: hpath_reads read_segment_nonempty)

lemma load_segment_chain_Inr:
  "load_segment_chain x k st head w = Inr rs \<longleftrightarrow>
     length rs = w
     \<and> (\<exists>p. segment_path x k st head p
            \<and> res_foldM append_segment (Suc 0, []) (rev (map snd p)) = Inr (Suc w, rs))"
proof (cases "w = 0")
  case True
  have "p = []"
    if p: "segment_path x k st head p"
      "res_foldM append_segment (Suc 0, []) (rev (map snd p)) = Inr (Suc 0, [])" for p
  proof -
    have "concat (map sg_records (rev (map snd p))) = []"
      using append_segments_records [OF p(2)] by simp
    then show ?thesis using segment_path_nonempty [OF p(1)] by (cases p) auto
  qed
  then have "(\<exists>p. segment_path x k st head p
        \<and> res_foldM append_segment (Suc 0, []) (rev (map snd p)) = Inr (Suc 0, [])) \<longleftrightarrow> head = None"
    by (metis hpath.simps(1) list.map(1) res_foldM.simps(1) rev.simps(1))
  then show ?thesis using True
    by (auto simp: load_segment_chain_def res_simps)
next
  case False
  have seq: "n = Suc (length rs)"
    if "segment_path x k st head p" "res_foldM append_segment (Suc 0, []) (rev (map snd p)) = Inr (n, rs)"
    for p n rs
    using append_segments_sequence [OF that(2)] segment_path_nonempty [OF that(1)] by auto
  then show ?thesis using False
    by (auto simp: load_segment_chain_def res_simps segment_loop_path)
qed

section \<open>Loading is monotone in the stored objects\<close>

definition grows :: "ledger_storage \<Rightarrow> ledger_storage \<Rightarrow> bool" where
  "grows st st' \<longleftrightarrow> (\<forall>h b. get_immutable st h = Inr b \<longrightarrow> get_immutable st' h = Inr b)"

named_theorems grow \<open>results of the load path survive the addition of objects\<close>

lemma grows_get [grow]: "grows st st' \<Longrightarrow> get_immutable st h = Inr b \<Longrightarrow> get_immutable st' h = Inr b"
  by (simp add: grows_def)

lemma read_hashed_object_grow [grow]:
  "grows st st' \<Longrightarrow> read_hashed_object k st h = Inr v \<Longrightarrow> read_hashed_object k st' h = Inr v"
  by (auto simp: read_hashed_object_Inr intro: grow)

lemma read_segment_grow [grow]:
  "grows st st' \<Longrightarrow> read_segment x k st h = Inr s \<Longrightarrow> read_segment x k st' h = Inr s"
  unfolding read_segment_def by (auto simp: res_simps dest: grow)

lemma read_root_grow [grow]:
  "grows st st' \<Longrightarrow> read_root x c st h = Inr r \<Longrightarrow> read_root x c st' h = Inr r"
  unfolding read_root_def by (auto simp: res_simps dest: grow)

lemma read_view_grow [grow]:
  "grows st st' \<Longrightarrow> read_view x c st h = Inr v \<Longrightarrow> read_view x c st' h = Inr v"
  unfolding read_view_def by (auto simp: res_simps dest: grow)

lemma segment_path_grow [grow]:
  "grows st st' \<Longrightarrow> segment_path x k st n p \<Longrightarrow> segment_path x k st' n p"
  using hpath_mono read_segment_grow by metis

lemma load_segment_chain_grow [grow]:
  "grows st st' \<Longrightarrow> load_segment_chain x k st h w = Inr rs \<Longrightarrow> load_segment_chain x k st' h w = Inr rs"
  unfolding load_segment_chain_Inr by (blast intro: grow)

lemma load_logs_Inr:
  "load_logs x c st root = Inr (rs, ps, ls) \<longleftrightarrow>
     load_segment_chain x (revision_log c) st (rt_revision_head root) (rt_revision_watermark root) = Inr rs
     \<and> load_segment_chain x (policy_log c) st (rt_policy_head root) (rt_policy_watermark root) = Inr ps
     \<and> load_segment_chain x (relation_log c) st (rt_relation_head root) (rt_relation_watermark root) = Inr ls"
  by (auto simp: load_logs_def res_simps)

lemma load_logs_grow [grow]:
  "grows st st' \<Longrightarrow> load_logs x c st root = Inr ls \<Longrightarrow> load_logs x c st' root = Inr ls"
  by (cases ls) (auto simp: load_logs_Inr intro: grow)

lemma load_manifests_grow [grow]:
  "grows st st' \<Longrightarrow> load_manifests x c st h = Inr m \<Longrightarrow> load_manifests x c st' h = Inr m"
  unfolding load_manifests_def by (auto simp: res_simps) (blast intro: grow)+

lemma verify_manifests_grow [grow]:
  "grows st st' \<Longrightarrow> verify_migration_manifest_objects x c st h = Inr u \<Longrightarrow>
   verify_migration_manifest_objects x c st' h = Inr u"
  by (cases h) (auto simp: verify_migration_manifest_objects_def res_simps dest: grow)

lemma validate_migration_boundary_grow [grow]:
  "grows st st' \<Longrightarrow> validate_migration_boundary x c st root = Inr u \<Longrightarrow>
   validate_migration_boundary x c st' root = Inr u"
  unfolding validate_migration_boundary_def by (auto simp: res_simps) (blast intro: grow)

lemma validate_root_snapshot_grow [grow]:
  "grows st st' \<Longrightarrow> validate_root_snapshot x c st root = Inr u \<Longrightarrow>
   validate_root_snapshot x c st' root = Inr u"
  unfolding validate_root_snapshot_def by (auto simp: res_simps) (blast intro: grow)

lemma head_loop_grow [grow]:
  "grows st st' \<Longrightarrow> head_loop x k st p seen n = Inr b \<Longrightarrow> head_loop x k st' p seen n = Inr b"
proof (induction x k st p seen n rule: head_loop.induct)
  case (1 x k st p seen)
  then show ?case by simp
next
  case (2 x k st p seen h)
  then show ?case by (auto simp: res_simps) (blast intro: grow)
qed

lemma head_extends_grow [grow]:
  "grows st st' \<Longrightarrow> head_extends x k st n p = Inr b \<Longrightarrow> head_extends x k st' n p = Inr b"
  by (cases p) (auto simp: head_extends_def intro: grow)

lemma res_and_then:
  "res_bind m (\<lambda>ok. if \<not> ok then Inr False else k) = Inr True \<longleftrightarrow> m = Inr True \<and> k = Inr True"
  by (cases m) auto

lemma root_extends_Inr:
  "root_extends x c st root prev = Inr True \<longleftrightarrow>
     rt_revision_watermark prev \<le> rt_revision_watermark root
     \<and> rt_policy_watermark prev \<le> rt_policy_watermark root
     \<and> rt_relation_watermark prev \<le> rt_relation_watermark root
     \<and> head_extends x (revision_log c) st (rt_revision_head root) (rt_revision_head prev) = Inr True
     \<and> head_extends x (policy_log c) st (rt_policy_head root) (rt_policy_head prev) = Inr True
     \<and> head_extends x (relation_log c) st (rt_relation_head root) (rt_relation_head prev) = Inr True
     \<and> (rt_migration_manifest_hash prev \<noteq> None \<longrightarrow>
           rt_migration_manifest_hash root = rt_migration_manifest_hash prev)
     \<and> (rt_migration_manifest_hash prev = None \<and> rt_migration_manifest_hash root \<noteq> None \<longrightarrow>
           rt_generation prev = 0)"
  unfolding root_extends_def
  by (simp only: if_split_eq1 res_and_then sum.inject simp_thms) (auto simp: not_less)

lemma step_to_previous_Inr:
  "step_to_previous x c st root h = Inr prev \<longleftrightarrow>
     read_root x c st h = Inr prev
     \<and> (rt_migration_manifest_hash root \<noteq> None \<and> rt_migration_manifest_hash prev = None \<longrightarrow>
           validate_migration_boundary x c st root = Inr ())
     \<and> root_extends x c st root prev = Inr True"
  unfolding step_to_previous_def by (auto simp: res_simps)

lemma step_to_previous_grow [grow]:
  "grows st st' \<Longrightarrow> step_to_previous x c st root h = Inr prev \<Longrightarrow>
   step_to_previous x c st' root h = Inr prev"
  unfolding step_to_previous_Inr root_extends_Inr by (blast intro: grow)

lemma enter_root_grow [grow]:
  "grows st st' \<Longrightarrow> enter_root x c st g seen h root = Inr u \<Longrightarrow> enter_root x c st' g seen h root = Inr u"
  unfolding enter_root_def by (auto simp: res_simps dest: grow)

lemma root_chain_loop_grow [grow]:
  "grows st st' \<Longrightarrow> root_chain_loop x c st g seen h root = Inr u \<Longrightarrow>
   root_chain_loop x c st' g seen h root = Inr u"
proof (induction g arbitrary: seen h root)
  case 0
  then show ?case by (auto simp: res_simps split: option.splits intro: grow)
next
  case (Suc g)
  then show ?case by (auto simp: res_simps split: option.splits intro: grow)
qed

section \<open>The history of roots\<close>

abbreviation root_path ::
  "xenv \<Rightarrow> ledger_codec \<Rightarrow> ledger_storage \<Rightarrow> string option \<Rightarrow> (string \<times> ledger_root) list \<Rightarrow> bool" where
  "root_path x c st \<equiv> hpath (read_root x c st) rt_previous_root_hash"

lemma root_chain_loop_path:
  assumes "root_chain_loop x c st g seen h root = Inr ()" and "read_root x c st h = Inr root"
  shows "\<exists>p. root_path x c st (Some h) ((h, root) # p)"
  using assms
proof (induction g arbitrary: seen h root)
  case 0
  then show ?case by (auto simp: res_simps intro: exI [of _ "[]"] split: option.splits)
next
  case (Suc g)
  from Suc.prems(1) obtain ph prev where ph: "rt_previous_root_hash root = Some ph"
    and step: "step_to_previous x c st root ph = Inr prev"
    and rest: "root_chain_loop x c st g (insert h seen) ph prev = Inr ()"
    by (auto simp: res_simps split: option.splits)
  from step have "read_root x c st ph = Inr prev" by (simp add: step_to_previous_Inr)
  with Suc.IH [OF rest] obtain p where "root_path x c st (Some ph) ((ph, prev) # p)" by blast
  then have "root_path x c st (Some h) ((h, root) # (ph, prev) # p)"
    using Suc.prems(2) ph by simp
  then show ?case by blast
qed

text \<open>The result of the walk does not depend on \<open>seen\<close>, as long as the walk avoids it.\<close>

lemma root_chain_loop_seen:
  assumes "root_chain_loop x c st g seen h root = Inr ()"
    and "root_path x c st (Some h) ((h, root) # p)"
    and "fst ` set ((h, root) # p) \<inter> seen' = {}"
  shows "root_chain_loop x c st g seen' h root = Inr ()"
  using assms
proof (induction g arbitrary: seen seen' h root p)
  case 0
  then show ?case by (auto simp: enter_root_def res_simps split: option.splits)
next
  case (Suc g)
  from Suc.prems(1) obtain ph prev where ph: "rt_previous_root_hash root = Some ph"
    and enter: "enter_root x c st (Suc g) seen h root = Inr ()"
    and step: "step_to_previous x c st root ph = Inr prev"
    and rest: "root_chain_loop x c st g (insert h seen) ph prev = Inr ()"
    by (auto simp: res_simps split: option.splits)
  have "root_path x c st (Some ph) p" using Suc.prems(2) ph by simp
  moreover have "read_root x c st ph = Inr prev" using step by (simp add: step_to_previous_Inr)
  ultimately obtain q where p: "p = (ph, prev) # q" by (auto simp: hpath_Some)
  have "h \<notin> fst ` set p" using Suc.prems(2) by (rule hpath_fresh)
  then have "fst ` set ((ph, prev) # q) \<inter> insert h seen' = {}"
    using Suc.prems(3) p by auto
  then have "root_chain_loop x c st g (insert h seen') ph prev = Inr ()"
    by (rule Suc.IH [OF rest, of q, rotated]) (use Suc.prems(2) p ph in auto)
  moreover have "enter_root x c st (Suc g) seen' h root = Inr ()"
    using enter Suc.prems(3) by (auto simp: enter_root_def res_simps)
  ultimately show ?case using ph step by simp
qed

text \<open>A validated history can be extended by a root whose own checks pass.\<close>

lemma validate_root_chain_extend:
  assumes old: "validate_root_chain x c st h root = Inr ()" "read_root x c st h = Inr root"
    and new: "read_root x c st h' = Inr root'"
    and prev: "rt_previous_root_hash root' = Some h" "rt_generation root' = Suc (rt_generation root)"
    and schema: "rt_schema root' = ROOT_SCHEMA"
    and snapshot: "validate_root_snapshot x c st root' = Inr ()"
    and step: "step_to_previous x c st root' h = Inr root"
  shows "validate_root_chain x c st h' root' = Inr ()"
proof -
  from old have loop: "root_chain_loop x c st (rt_generation root) {} h root = Inr ()"
    by (simp add: validate_root_chain_def)
  then obtain p where p: "root_path x c st (Some h) ((h, root) # p)"
    using root_chain_loop_path old(2) by blast
  then have "root_path x c st (Some h') ((h', root') # (h, root) # p)"
    using new prev by simp
  then have "h' \<notin> fst ` set ((h, root) # p)" by (rule hpath_fresh)
  then have "root_chain_loop x c st (rt_generation root) {h'} h root = Inr ()"
    by (intro root_chain_loop_seen [OF loop p]) auto
  moreover have "enter_root x c st (Suc (rt_generation root)) {} h' root' = Inr ()"
    using schema prev snapshot by (simp add: enter_root_def)
  ultimately show ?thesis using prev step by (simp add: validate_root_chain_def)
qed

section \<open>What an accepted load returns\<close>

definition loaded ::
  "xenv \<Rightarrow> ledger_codec \<Rightarrow> ledger_storage \<Rightarrow> active_pointer \<Rightarrow> ledger_root \<Rightarrow> current_view \<Rightarrow>
   canonical_revision list \<Rightarrow> policy_record list \<Rightarrow> relation_record list \<Rightarrow> bool" where
  "loaded x c st ptr root view rs ps ls \<longleftrightarrow>
     read_pointer c st = Inr ptr \<and> read_root x c st (ap_root_hash ptr) = Inr root
     \<and> rt_schema root = ROOT_SCHEMA
     \<and> validate_root_chain x c st (ap_root_hash ptr) root = Inr ()
     \<and> read_view x c st (rt_current_view_hash root) = Inr view
     \<and> load_logs x c st root = Inr (rs, ps, ls)
     \<and> validate_logs x rs ps ls = Inr ()
     \<and> loaded_view_matches c root view
          (view_of (rt_generation root) rs ps (rt_relation_watermark root)) = Inr ()"

lemma validate_logs_Inr:
  "validate_logs x rs ps ls = Inr () \<longleftrightarrow> logs_wf x rs ps \<and> validate_relations x ls rs = Inr ()"
  by (auto simp: validate_logs_def logs_wf_def res_simps validate_revisions_iff validate_policies_iff)

lemma load_state_Inr:
  "load_state x c st = Inr s \<longleftrightarrow>
     (\<exists>ptr root view rs ps ls. loaded x c st ptr root view rs ps ls
        \<and> s = \<lparr>lg_poisoned = False, lg_root_hash = Some (ap_root_hash ptr), lg_root = Some root,
               lg_view = Some view, lg_revisions = rs, lg_policies = ps, lg_relations = ls\<rparr>)"
proof -
  have rebuild: "rebuild_current_view g rs ps w = Inr (view_of g rs ps w)"
    if "validate_logs x rs ps ls = Inr ()" for g rs ps w ls
    using that rebuild_current_view_ok [of x rs ps g w] by (simp add: validate_logs_Inr)
  show ?thesis
  proof
    assume "load_state x c st = Inr s"
    then obtain ptr root view rs ps ls rebuilt where
      l: "read_pointer c st = Inr ptr" "read_root x c st (ap_root_hash ptr) = Inr root"
        "rt_schema root = ROOT_SCHEMA" "validate_root_chain x c st (ap_root_hash ptr) root = Inr ()"
        "read_view x c st (rt_current_view_hash root) = Inr view"
        "load_logs x c st root = Inr (rs, ps, ls)" "validate_logs x rs ps ls = Inr ()"
        "rebuild_current_view (rt_generation root) rs ps (rt_relation_watermark root) = Inr rebuilt"
        "loaded_view_matches c root view rebuilt = Inr ()"
      and s: "s = \<lparr>lg_poisoned = False, lg_root_hash = Some (ap_root_hash ptr), lg_root = Some root,
               lg_view = Some view, lg_revisions = rs, lg_policies = ps, lg_relations = ls\<rparr>"
      by (auto simp: load_state_def res_simps)
    have "rebuilt = view_of (rt_generation root) rs ps (rt_relation_watermark root)"
      using rebuild [OF l(7), of "rt_generation root" "rt_relation_watermark root"] l(8) by simp
    with l s show "\<exists>ptr root view rs ps ls. loaded x c st ptr root view rs ps ls
        \<and> s = \<lparr>lg_poisoned = False, lg_root_hash = Some (ap_root_hash ptr), lg_root = Some root,
               lg_view = Some view, lg_revisions = rs, lg_policies = ps, lg_relations = ls\<rparr>"
      unfolding loaded_def by blast
  next
    assume "\<exists>ptr root view rs ps ls. loaded x c st ptr root view rs ps ls
        \<and> s = \<lparr>lg_poisoned = False, lg_root_hash = Some (ap_root_hash ptr), lg_root = Some root,
               lg_view = Some view, lg_revisions = rs, lg_policies = ps, lg_relations = ls\<rparr>"
    then obtain ptr root view rs ps ls where l: "loaded x c st ptr root view rs ps ls"
      and s: "s = \<lparr>lg_poisoned = False, lg_root_hash = Some (ap_root_hash ptr), lg_root = Some root,
               lg_view = Some view, lg_revisions = rs, lg_policies = ps, lg_relations = ls\<rparr>"
      by blast
    then have "validate_logs x rs ps ls = Inr ()" by (simp add: loaded_def)
    note rebuild [OF this]
    with l s show "load_state x c st = Inr s" by (simp add: load_state_def loaded_def)
  qed
qed

lemma read_pointer_objects: "ls_active st' = ls_active st \<Longrightarrow> read_pointer c st' = read_pointer c st"
  by (simp add: read_pointer_def read_active_def)

lemma loaded_grow:
  assumes "loaded x c st ptr root view rs ps ls" and "grows st st'" and "read_pointer c st' = Inr ptr"
  shows "loaded x c st' ptr root view rs ps ls"
  using assms unfolding loaded_def validate_root_chain_def by (blast intro: grow)

lemma load_state_grow:
  assumes "load_state x c st = Inr s" and "grows st st'" and "ls_active st' = ls_active st"
  shows "load_state x c st' = Inr s"
  using assms loaded_grow read_pointer_objects unfolding load_state_Inr
  by (metis (no_types, lifting) loaded_def)

section \<open>History is append-only\<close>

lemma head_loop_suffix:
  "head_loop x k st q seen n = Inr True \<Longrightarrow> segment_path x k st n p \<Longrightarrow>
   \<exists>a b. p = a @ b \<and> segment_path x k st (Some q) b"
proof (induction x k st q seen n arbitrary: p rule: head_loop.induct)
  case (1 x k st q seen)
  then show ?case by simp
next
  case (2 x k st q seen h)
  show ?case
  proof (cases "h = q")
    case True
    then show ?thesis using 2(3) by (intro exI [of _ "[]"] exI [of _ p]) simp
  next
    case False
    with 2(2) obtain s where s: "h \<notin> seen" "read_segment x k st h = Inr s"
      "head_loop x k st q (insert h seen) (sg_previous_segment_hash s) = Inr True"
      by (auto simp: res_simps split: if_splits)
    obtain r where p: "p = (h, s) # r" "segment_path x k st (sg_previous_segment_hash s) r"
      using 2(3) s(2) by (auto simp: hpath_Some)
    obtain a b where "r = a @ b" "segment_path x k st (Some q) b"
      using 2(1) [OF False s(1,2,3) p(2)] by blast
    then show ?thesis using p(1) by (intro exI [of _ "(h, s) # a"] exI [of _ b]) simp
  qed
qed

lemma load_segment_chain_records:
  assumes "load_segment_chain x k st h w = Inr rs" and "segment_path x k st h p"
  shows "rs = concat (map sg_records (rev (map snd p)))"
proof -
  obtain q where q: "segment_path x k st h q"
    "res_foldM append_segment (Suc 0, []) (rev (map snd q)) = Inr (Suc w, rs)"
    using assms(1) by (auto simp: load_segment_chain_Inr)
  have "q = p" using q(1) assms(2) by (rule hpath_det)
  then show ?thesis using append_segments_records [OF q(2)] by simp
qed

lemma head_extends_prefix:
  assumes new: "load_segment_chain x k st h w = Inr rs" and old: "load_segment_chain x k st h' w' = Inr rs'"
    and ext: "head_extends x k st h h' = Inr True"
  shows "prefix rs' rs"
proof -
  obtain p where p: "segment_path x k st h p" using new unfolding load_segment_chain_Inr by blast
  obtain p' where p': "segment_path x k st h' p'" using old unfolding load_segment_chain_Inr by blast
  have "\<exists>a. p = a @ p'"
  proof (cases h')
    case None
    then show ?thesis using p' by simp
  next
    case (Some q)
    with ext have "head_loop x k st q {} h = Inr True" by (simp add: head_extends_def)
    from head_loop_suffix [OF this p] obtain a b where ab: "p = a @ b" "segment_path x k st (Some q) b"
      by blast
    have "b = p'" using ab(2) p' unfolding Some by (rule hpath_det)
    then show ?thesis using ab(1) by blast
  qed
  then obtain a where "p = a @ p'" by blast
  then show ?thesis
    using load_segment_chain_records [OF new p] load_segment_chain_records [OF old p']
    by (simp add: prefix_def)
qed

lemma root_extends_prefix:
  assumes "root_extends x c st root prev = Inr True"
    and "load_logs x c st root = Inr (rs, ps, ls)" and "load_logs x c st prev = Inr (rs', ps', ls')"
  shows "prefix rs' rs \<and> prefix ps' ps \<and> prefix ls' ls"
  using assms unfolding root_extends_Inr load_logs_Inr by (blast intro: head_extends_prefix)

lemma validate_root_snapshot_logs:
  assumes "validate_root_snapshot x c st root = Inr ()"
  obtains rs ps ls where "load_logs x c st root = Inr (rs, ps, ls)" "logs_wf x rs ps"
    "validate_relations x ls rs = Inr ()"
  using assms by (auto simp: validate_root_snapshot_def res_simps validate_logs_Inr)

lemma root_chain_prefix:
  assumes "root_chain_loop x c st g seen h root = Inr ()"
    and "root_path x c st (Some h) ((h, root) # p)"
    and "load_logs x c st root = Inr (rs, ps, ls)"
    and "(h', old) \<in> set ((h, root) # p)"
  shows "\<exists>rs' ps' ls'. load_logs x c st old = Inr (rs', ps', ls') \<and> logs_wf x rs' ps'
           \<and> prefix rs' rs \<and> prefix ps' ps \<and> prefix ls' ls"
  using assms
proof (induction g arbitrary: seen h root p rs ps ls)
  case 0
  then have "p = []" by (auto simp: res_simps split: option.splits)
  with 0 show ?case
    by (auto simp: res_simps enter_root_def elim!: validate_root_snapshot_logs)
next
  case (Suc g)
  from Suc.prems(1) obtain ph prev where ph: "rt_previous_root_hash root = Some ph"
    and enter: "enter_root x c st (Suc g) seen h root = Inr ()"
    and step: "step_to_previous x c st root ph = Inr prev"
    and rest: "root_chain_loop x c st g (insert h seen) ph prev = Inr ()"
    by (auto simp: res_simps split: option.splits)
  have read: "read_root x c st ph = Inr prev" using step by (simp add: step_to_previous_Inr)
  obtain q where p: "p = (ph, prev) # q" and path: "root_path x c st (Some ph) ((ph, prev) # q)"
    using Suc.prems(2) ph read by (auto simp: hpath_Some)
  show ?case
  proof (cases "(h', old) = (h, root)")
    case True
    then show ?thesis using enter Suc.prems(3)
      by (auto simp: res_simps enter_root_def elim!: validate_root_snapshot_logs)
  next
    case False
    have "\<exists>u. enter_root x c st g (insert h seen) ph prev = Inr u"
      using rest by (cases g) (auto simp: res_simps)
    then obtain rs1 ps1 ls1 where l1: "load_logs x c st prev = Inr (rs1, ps1, ls1)"
      by (auto simp: enter_root_def res_simps elim!: validate_root_snapshot_logs)
    have "prefix rs1 rs \<and> prefix ps1 ps \<and> prefix ls1 ls"
      using root_extends_prefix [OF _ Suc.prems(3) l1] step by (simp add: step_to_previous_Inr)
    moreover have "(h', old) \<in> set ((ph, prev) # q)" using False Suc.prems(4) p by auto
    ultimately show ?thesis
      using Suc.IH [OF rest path l1] by (meson prefix_order.trans)
  qed
qed

end
