(* ===== verification/Ledger_Commit.thy ===== *)
theory Ledger_Commit
  imports Ledger_Load
begin

text \<open>
  The write path of the ledger (\<open>commit_records\<close>, \<open>ensure_genesis\<close> and the \<open>CanonicalLedger\<close>
  operations in \<open>src/src/memory/ledger/store.rs\<close>).  A commit checks the batch against the current
  heads, stamps it, validates the candidate logs, writes the new segments, the view and the root,
  and finally exchanges the active pointer.  The time of the commit and the identifiers that
  \<open>Uuid::new_v4\<close> returns are arguments, and so are the faults of the storage.
\<close>

section \<open>Preparing a commit\<close>

record ledger_commit =
  cm_generation :: nat
  cm_revision_sequence :: nat
  cm_revision_id :: string
  cm_committed_at :: nat

definition empty_view :: current_view where
  "empty_view = \<lparr>cv_schema = CURRENT_VIEW_SCHEMA, cv_generation = 0, cv_revision_watermark = 0,
     cv_policy_watermark = 0, cv_relation_watermark = 0, cv_streams = []\<rparr>"

definition current_view_of :: "ledger_state \<Rightarrow> current_view" where
  "current_view_of s = (case lg_view s of None \<Rightarrow> empty_view | Some v \<Rightarrow> v)"

definition private_roles :: "string \<Rightarrow> string list" where
  "private_roles role_id =
     (if role_id \<noteq> PERSONAL_OWNER_ROLE_ID then sort [role_id, PERSONAL_OWNER_ROLE_ID] else [role_id])"

definition head_matches :: "canonical_revision \<Rightarrow> expected_head \<Rightarrow> string option \<Rightarrow> bool" where
  "head_matches r expected actual =
     (case expected of
        ExpectAbsent \<Rightarrow> actual = None \<and> rv_parent_revision_id r = None
      | ExpectRevision e \<Rightarrow> actual = Some e \<and> rv_parent_revision_id r = Some e)"

definition check_expected_head ::
  "current_view \<Rightarrow> string \<Rightarrow> memory_tier \<Rightarrow> string set \<Rightarrow> canonical_revision \<times> expected_head \<Rightarrow>
   ledger_error + string set" where
  "check_expected_head view role_id tier = (\<lambda>batch_memory_ids (r, expected).
     res_bind (ensure (\<not> (rv_cognitive_tier r \<noteq> tier
                         \<or> expected = ExpectAbsent \<and> rv_committed_by_role r \<noteq> role_id))
                 (LedgerInvalid ''commit_boundary_mismatch'')) (\<lambda>_.
     res_bind (ensure (rv_memory_id r \<notin> batch_memory_ids)
                 (LedgerInvalid ''duplicate_memory_in_batch'')) (\<lambda>_.
     res_bind (ensure (head_matches r expected (head_for view (rv_memory_id r)))
                 (HeadConflict (rv_memory_id r) expected (head_for view (rv_memory_id r)))) (\<lambda>_.
     Inr (insert (rv_memory_id r) batch_memory_ids)))))"

definition check_writer ::
  "ledger_state \<Rightarrow> current_view \<Rightarrow> string \<Rightarrow> unit \<Rightarrow> canonical_revision \<Rightarrow> ledger_error + unit" where
  "check_writer s view role_id = (\<lambda>_ r.
     if head_for view (rv_memory_id r) \<noteq> None then
       res_bind (ok_or (map_option cs_policy_id (stream_for view (rv_memory_id r)))
                   (LedgerInvalid ''missing_current_policy'')) (\<lambda>policy_id.
       res_bind (ok_or (find (\<lambda>p. po_policy_id p = policy_id) (lg_policies s))
                   (LedgerInvalid ''missing_current_policy'')) (\<lambda>policy.
       ensure (role_id \<in> set (po_writer_roles policy)) (UnsupportedPolicy ''role_not_policy_writer'')))
     else Inr ())"

definition stamp_revision ::
  "string \<Rightarrow> nat \<Rightarrow> nat \<Rightarrow> canonical_revision \<Rightarrow> canonical_revision" where
  "stamp_revision role_id committed_at sequence r =
     r\<lparr>rv_schema := REVISION_SCHEMA, rv_sequence := sequence, rv_committed_at := committed_at,
       rv_committed_by_role := role_id,
       rv_deleted_at := (if rv_deleted_at r \<noteq> None then Some committed_at else rv_deleted_at r)\<rparr>"

definition stamp_revisions ::
  "string \<Rightarrow> nat \<Rightarrow> nat \<Rightarrow> canonical_revision list \<Rightarrow> canonical_revision list" where
  "stamp_revisions role_id committed_at first revisions =
     map (\<lambda>(sequence, r). stamp_revision role_id committed_at sequence r) (enumerate first revisions)"

text \<open>
  One private policy for every new stream.  \<open>uuids i\<close> is the i-th identifier generated by this
  commit.
\<close>

definition root_policy ::
  "string \<Rightarrow> nat \<Rightarrow> nat \<Rightarrow> string \<Rightarrow> canonical_revision \<Rightarrow> policy_record" where
  "root_policy role_id committed_at sequence policy_id r =
     \<lparr>po_schema = POLICY_SCHEMA, po_sequence = sequence, po_policy_id = policy_id,
      po_memory_id = rv_memory_id r, po_effective_from_revision_id = rv_revision_id r,
      po_origin_role_id = role_id, po_mode = PolicyPrivate, po_reader_roles = private_roles role_id,
      po_writer_roles = private_roles role_id, po_committed_at = committed_at,
      po_committed_by_role = role_id\<rparr>"

definition root_policies ::
  "string \<Rightarrow> nat \<Rightarrow> nat \<Rightarrow> (nat \<Rightarrow> string) \<Rightarrow> (canonical_revision \<times> expected_head) list \<Rightarrow>
   policy_record list" where
  "root_policies role_id committed_at first uuids batch =
     map (\<lambda>(i, r, _). root_policy role_id committed_at (first + i) (uuids i) r)
       (enumerate 0 (filter (\<lambda>(_, expected). expected = ExpectAbsent) batch))"

record prepared_commit =
  pc_generation :: nat
  pc_new_revisions :: "canonical_revision list"
  pc_revisions :: "canonical_revision list"
  pc_policies :: "policy_record list"
  pc_segment :: "canonical_revision segment"
  pc_view :: current_view
  pc_root :: ledger_root
  pc_root_hash :: string
  pc_objects :: "(string \<times> string) list"

definition check_batch ::
  "ledger_state \<Rightarrow> string \<Rightarrow> memory_tier \<Rightarrow> canonical_revision list \<Rightarrow> expected_head list \<Rightarrow>
   ledger_error + unit" where
  "check_batch s role_id tier revisions expected_heads =
     res_bind (ensure (\<not> (length revisions \<noteq> length expected_heads \<or> revisions = []))
                 (LedgerInvalid ''invalid_commit_batch'')) (\<lambda>_.
     res_bind (ensure (tier \<noteq> Ephemeral) (LedgerInvalid ''ephemeral_revision_not_durable'')) (\<lambda>_.
     res_bind (ensure (\<not> lg_poisoned s) WriterPoisoned) (\<lambda>_.
     res_bind (res_foldM (check_expected_head (current_view_of s) role_id tier) {}
                 (zip revisions expected_heads)) (\<lambda>_.
     res_foldM (check_writer s (current_view_of s) role_id) () revisions))))"

definition segment_object ::
  "xenv \<Rightarrow> 'r log_kind \<Rightarrow> nat \<Rightarrow> string option \<Rightarrow> 'r list \<Rightarrow>
   ledger_error + ('r segment \<times> string \<times> string)" where
  "segment_object x k first previous records =
     (let s = \<lparr>sg_schema = lk_schema k, sg_first_sequence = first,
               sg_last_sequence = first + length records - 1,
               sg_previous_segment_hash = previous, sg_records = records\<rparr>
      in res_bind (canonical_bytes_and_hash x (enc (lk_codec k)) SEGMENT_DOMAIN s) (\<lambda>(bytes, hash).
         Inr (s, hash, bytes)))"

definition policy_object ::
  "xenv \<Rightarrow> ledger_codec \<Rightarrow> nat \<Rightarrow> string option \<Rightarrow> policy_record list \<Rightarrow>
   ledger_error + (nat \<times> string \<times> string) option" where
  "policy_object x c first previous policies =
     (if policies = [] then Inr None
      else res_bind (segment_object x (policy_log c) first previous policies) (\<lambda>(s, hash, bytes).
           Inr (Some (sg_last_sequence s, hash, bytes))))"

definition prepare_commit ::
  "xenv \<Rightarrow> ledger_codec \<Rightarrow> nat \<Rightarrow> (nat \<Rightarrow> string) \<Rightarrow> ledger_state \<Rightarrow> string \<Rightarrow> memory_tier \<Rightarrow>
   canonical_revision list \<Rightarrow> expected_head list \<Rightarrow> ledger_error + prepared_commit" where
  "prepare_commit x c now uuids s role_id tier revisions expected_heads =
     res_bind (check_batch s role_id tier revisions expected_heads) (\<lambda>_.
     (let first_revision = length (lg_revisions s) + 1;
          first_policy = length (lg_policies s) + 1;
          stamped = stamp_revisions role_id now first_revision revisions;
          policies = root_policies role_id now first_policy uuids (zip stamped expected_heads);
          candidate_revisions = lg_revisions s @ stamped;
          candidate_policies = lg_policies s @ policies;
          generation = (case lg_root s of None \<Rightarrow> 1 | Some root \<Rightarrow> rt_generation root + 1)
      in
     res_bind (validate_revisions x candidate_revisions) (\<lambda>_.
     res_bind (validate_policies x candidate_policies candidate_revisions) (\<lambda>_.
     res_bind (segment_object x (revision_log c) first_revision
                 (Option.bind (lg_root s) rt_revision_head) stamped)
       (\<lambda>(segment, revision_hash, revision_bytes).
     res_bind (policy_object x c first_policy (Option.bind (lg_root s) rt_policy_head) policies)
       (\<lambda>policy_obj.
     res_bind (rebuild_current_view generation candidate_revisions candidate_policies
                 (length (lg_relations s))) (\<lambda>candidate_view.
     res_bind (canonical_bytes_and_hash x (enc (view_codec c)) VIEW_DOMAIN candidate_view)
       (\<lambda>(view_bytes, view_hash).
     (let candidate_root =
            \<lparr>rt_schema = ROOT_SCHEMA, rt_generation = generation,
             rt_previous_root_hash = lg_root_hash s,
             rt_revision_head = Some revision_hash,
             rt_revision_watermark = sg_last_sequence segment,
             rt_policy_head =
               (case policy_obj of
                  Some (_, hash, _) \<Rightarrow> Some hash
                | None \<Rightarrow> Option.bind (lg_root s) rt_policy_head),
             rt_policy_watermark =
               (case policy_obj of
                  Some (sequence, _, _) \<Rightarrow> sequence
                | None \<Rightarrow> length (lg_policies s)),
             rt_relation_head = Option.bind (lg_root s) rt_relation_head,
             rt_relation_watermark =
               (case lg_root s of None \<Rightarrow> 0 | Some root \<Rightarrow> rt_relation_watermark root),
             rt_current_view_hash = view_hash,
             rt_migration_manifest_hash = Option.bind (lg_root s) rt_migration_manifest_hash,
             rt_committed_at = now, rt_committed_by_role = role_id\<rparr>
      in
     res_bind (canonical_bytes_and_hash x (enc (root_codec c)) ROOT_DOMAIN candidate_root)
       (\<lambda>(root_bytes, root_hash).
     Inr \<lparr>pc_generation = generation, pc_new_revisions = stamped,
          pc_revisions = candidate_revisions, pc_policies = candidate_policies,
          pc_segment = segment, pc_view = candidate_view, pc_root = candidate_root,
          pc_root_hash = root_hash,
          pc_objects =
            [(revision_hash, revision_bytes)]
            @ (case policy_obj of None \<Rightarrow> [] | Some (_, hash, bytes) \<Rightarrow> [(hash, bytes)])
            @ [(view_hash, view_bytes), (root_hash, root_bytes)]\<rparr>))))))))))"

section \<open>Writing and publishing\<close>

definition published_state :: "prepared_commit \<Rightarrow> ledger_state \<Rightarrow> ledger_state" where
  "published_state p s =
     s\<lparr>lg_root_hash := Some (pc_root_hash p), lg_root := Some (pc_root p),
       lg_view := Some (pc_view p), lg_revisions := pc_revisions p, lg_policies := pc_policies p\<rparr>"

definition receipts :: "nat \<Rightarrow> prepared_commit \<Rightarrow> ledger_commit list" where
  "receipts now p =
     map (\<lambda>r. \<lparr>cm_generation = pc_generation p, cm_revision_sequence = rv_sequence r,
               cm_revision_id = rv_revision_id r, cm_committed_at = now\<rparr>) (pc_new_revisions p)"

definition publish_prepared ::
  "ledger_codec \<Rightarrow> nat \<Rightarrow> (string \<Rightarrow> put_fault) \<Rightarrow> publish_fault \<Rightarrow> ledger_storage \<Rightarrow> ledger_state \<Rightarrow>
   prepared_commit \<Rightarrow> ledger_storage \<times> ledger_state \<times> (ledger_error + ledger_commit list)" where
  "publish_prepared c now pf qf st s p =
     (case put_seq (\<lambda>h. put_immutable (pf h) h) (pc_objects p) st of
        (st1, Inl _) \<Rightarrow> (st1, s, Inl LedgerIo)
      | (st1, Inr _) \<Rightarrow>
          (case enc (pointer_codec c)
                  \<lparr>ap_schema = ROOT_POINTER_SCHEMA, ap_root_hash = pc_root_hash p\<rparr> of
             None \<Rightarrow> (st1, s, Inl (LedgerInvalid ''jcs_canonicalization_failed''))
           | Some bytes \<Rightarrow>
               (case publish_active qf bytes st1 of
                  (st2, Inl StorageIo) \<Rightarrow> (st2, s, Inl LedgerIo)
                | (st2, Inl PublishedButUnsynced) \<Rightarrow>
                    (st2, s\<lparr>lg_poisoned := True\<rparr>, Inl CommitIndeterminate)
                | (st2, Inr _) \<Rightarrow> (st2, published_state p s, Inr (receipts now p)))))"

definition commit_records ::
  "xenv \<Rightarrow> ledger_codec \<Rightarrow> nat \<Rightarrow> (nat \<Rightarrow> string) \<Rightarrow> (string \<Rightarrow> put_fault) \<Rightarrow> publish_fault \<Rightarrow>
   ledger_storage \<Rightarrow> ledger_state \<Rightarrow> string \<Rightarrow> memory_tier \<Rightarrow> canonical_revision list \<Rightarrow>
   expected_head list \<Rightarrow> ledger_storage \<times> ledger_state \<times> (ledger_error + ledger_commit list)" where
  "commit_records x c now uuids pf qf st s role_id tier revisions expected_heads =
     (case prepare_commit x c now uuids s role_id tier revisions expected_heads of
        Inl e \<Rightarrow> (st, s, Inl e)
      | Inr p \<Rightarrow> publish_prepared c now pf qf st s p)"

definition commit_expected ::
  "xenv \<Rightarrow> ledger_codec \<Rightarrow> nat \<Rightarrow> (nat \<Rightarrow> string) \<Rightarrow> (string \<Rightarrow> put_fault) \<Rightarrow> publish_fault \<Rightarrow>
   ledger_storage \<Rightarrow> ledger_state \<Rightarrow> string \<Rightarrow> memory_tier \<Rightarrow> expected_head \<Rightarrow> canonical_revision \<Rightarrow>
   ledger_storage \<times> ledger_state \<times> (ledger_error + ledger_commit)" where
  "commit_expected x c now uuids pf qf st s role_id tier expected_head revision =
     (case commit_records x c now uuids pf qf st s role_id tier [revision] [expected_head] of
        (st', s', r) \<Rightarrow> (st', s', res_bind r (\<lambda>commits.
           ok_or (last_opt commits) (LedgerInvalid ''missing_commit_receipt''))))"

definition commit_roots ::
  "xenv \<Rightarrow> ledger_codec \<Rightarrow> nat \<Rightarrow> (nat \<Rightarrow> string) \<Rightarrow> (string \<Rightarrow> put_fault) \<Rightarrow> publish_fault \<Rightarrow>
   ledger_storage \<Rightarrow> ledger_state \<Rightarrow> string \<Rightarrow> memory_tier \<Rightarrow> canonical_revision list \<Rightarrow>
   ledger_storage \<times> ledger_state \<times> (ledger_error + ledger_commit list)" where
  "commit_roots x c now uuids pf qf st s role_id tier revisions =
     commit_records x c now uuids pf qf st s role_id tier revisions
       (replicate (length revisions) ExpectAbsent)"

section \<open>Genesis\<close>

definition genesis_root :: "string \<Rightarrow> ledger_root" where
  "genesis_root view_hash =
     \<lparr>rt_schema = ROOT_SCHEMA, rt_generation = 0, rt_previous_root_hash = None,
      rt_revision_head = None, rt_revision_watermark = 0, rt_policy_head = None,
      rt_policy_watermark = 0, rt_relation_head = None, rt_relation_watermark = 0,
      rt_current_view_hash = view_hash, rt_migration_manifest_hash = None, rt_committed_at = 0,
      rt_committed_by_role = PERSONAL_OWNER_ROLE_ID\<rparr>"

definition prepare_genesis ::
  "xenv \<Rightarrow> ledger_codec \<Rightarrow> ledger_storage \<Rightarrow> ledger_error + (string \<times> (string \<times> string) list)" where
  "prepare_genesis x c st =
     res_bind (canonical_bytes_and_hash x (enc (view_codec c)) VIEW_DOMAIN empty_view)
       (\<lambda>(view_bytes, view_hash).
     res_bind (canonical_bytes_and_hash x (enc (root_codec c)) ROOT_DOMAIN (genesis_root view_hash))
       (\<lambda>(root_bytes, root_hash).
     res_bind (map_err (\<lambda>_. LedgerIo) (list_immutable_hashes st)) (\<lambda>hashes.
     res_bind (ensure (set hashes \<subseteq> {view_hash, root_hash}) (LedgerInvalid ''missing_active_pointer''))
       (\<lambda>_.
     Inr (root_hash, [(view_hash, view_bytes), (root_hash, root_bytes)])))))"

definition ensure_genesis ::
  "xenv \<Rightarrow> ledger_codec \<Rightarrow> (string \<Rightarrow> put_fault) \<Rightarrow> publish_fault \<Rightarrow> ledger_storage \<Rightarrow>
   ledger_storage \<times> (ledger_error + unit)" where
  "ensure_genesis x c pf qf st =
     (if read_active st \<noteq> None then (st, Inr ())
      else case prepare_genesis x c st of
        Inl e \<Rightarrow> (st, Inl e)
      | Inr (root_hash, objects) \<Rightarrow>
          (case put_seq (\<lambda>h. put_immutable (pf h) h) objects st of
             (st1, Inl _) \<Rightarrow> (st1, Inl LedgerIo)
           | (st1, Inr _) \<Rightarrow>
               (case enc (pointer_codec c)
                       \<lparr>ap_schema = ROOT_POINTER_SCHEMA, ap_root_hash = root_hash\<rparr> of
                  None \<Rightarrow> (st1, Inl (LedgerInvalid ''jcs_canonicalization_failed''))
                | Some bytes \<Rightarrow>
                    (case publish_active qf bytes st1 of
                       (st2, r) \<Rightarrow> (st2, map_err (\<lambda>_. LedgerIo) r)))))"

text \<open>Opening the ledger over its storage (\<open>CASCanonicalLedger::new\<close>).\<close>

definition open_ledger ::
  "xenv \<Rightarrow> ledger_codec \<Rightarrow> (string \<Rightarrow> put_fault) \<Rightarrow> publish_fault \<Rightarrow> ledger_storage \<Rightarrow>
   ledger_storage \<times> (ledger_error + ledger_state)" where
  "open_ledger x c pf qf st =
     (case ensure_genesis x c pf qf st of
        (st', Inl e) \<Rightarrow> (st', Inl e)
      | (st', Inr _) \<Rightarrow> (st', load_state x c st'))"

end
