(* ===== verification/Ledger_Durability.thy ===== *)
theory Ledger_Durability
  imports Ledger_Commit
begin

text \<open>
  Durability of the ledger: what a commit leaves on disk is what it leaves in memory.  An
  acknowledged commit reloads to the state the writer holds, a failed one reloads to the state
  before it, and the only outcome in between poisons the writer.

  The JSON library enters through two assumptions: encoding followed by decoding is the identity
  on roots, views, policy segments and pointers (\<open>codec_laws\<close>; these consist of strings, integers
  and flags), and on the one revision segment the commit writes (\<open>segment_readable\<close>; revision
  contents may carry floating-point numbers, for which no general law is assumed).
\<close>

section \<open>Assumptions on the JSON library\<close>

definition faithful :: "'a codec \<Rightarrow> bool" where
  "faithful k \<longleftrightarrow> (\<forall>v b. enc k v = Some b \<longrightarrow> dec k b = Some v)"

definition codec_laws :: "ledger_codec \<Rightarrow> bool" where
  "codec_laws c \<longleftrightarrow>
     faithful (root_codec c) \<and> faithful (view_codec c) \<and> faithful (policy_codec c)
     \<and> faithful (pointer_codec c) \<and> dec (pointer_codec c) [] = None"

definition segment_readable :: "ledger_codec \<Rightarrow> prepared_commit \<Rightarrow> bool" where
  "segment_readable c p \<longleftrightarrow>
     (\<forall>b. enc (revision_codec c) (pc_segment p) = Some b \<longrightarrow>
          dec (revision_codec c) b = Some (pc_segment p))"

section \<open>Reading back what was written\<close>

lemma canonical_bytes_and_hash_Inr:
  "canonical_bytes_and_hash x e d v = Inr (b, h) \<longleftrightarrow> e v = Some b \<and> h = sha256_hex x (d @ b)"
  by (auto simp: canonical_bytes_and_hash_def res_simps)

lemma verify_Inr:
  "verify x d k v h cat = Inr () \<longleftrightarrow> (\<exists>b. enc k v = Some b \<and> h = sha256_hex x (d @ b))"
  by (auto simp: verify_def res_simps canonical_bytes_and_hash_Inr)

lemma read_written_root:
  assumes "get_immutable st h = Inr b" and "canonical_bytes_and_hash x (enc (root_codec c)) ROOT_DOMAIN r = Inr (b, h)"
    and "faithful (root_codec c)"
  shows "read_root x c st h = Inr r"
  using assms
  by (auto simp: read_root_def read_hashed_object_Inr verify_Inr canonical_bytes_and_hash_Inr
      faithful_def res_simps)

lemma read_written_view:
  assumes "get_immutable st h = Inr b" and "canonical_bytes_and_hash x (enc (view_codec c)) VIEW_DOMAIN v = Inr (b, h)"
    and "faithful (view_codec c)"
  shows "read_view x c st h = Inr v"
  using assms
  by (auto simp: read_view_def read_hashed_object_Inr verify_Inr canonical_bytes_and_hash_Inr
      faithful_def res_simps)

lemma segment_object_Inr:
  "segment_object x k n prev rs = Inr (s, h, b) \<longleftrightarrow>
     s = \<lparr>sg_schema = lk_schema k, sg_first_sequence = n, sg_last_sequence = n + length rs - 1,
          sg_previous_segment_hash = prev, sg_records = rs\<rparr>
     \<and> canonical_bytes_and_hash x (enc (lk_codec k)) SEGMENT_DOMAIN s = Inr (b, h)"
  by (auto simp: segment_object_def Let_def res_simps)

lemma read_written_segment:
  assumes "get_immutable st h = Inr b" and "segment_object x k n prev rs = Inr (s, h, b)"
    and "rs \<noteq> []" and "dec (lk_codec k) b = Some s"
  shows "read_segment x k st h = Inr s"
  using assms
  by (auto simp: read_segment_def read_hashed_object_Inr verify_Inr segment_object_Inr
      canonical_bytes_and_hash_Inr res_simps)

lemma load_segment_chain_snoc:
  assumes old: "load_segment_chain x k st head w = Inr rs"
    and s: "read_segment x k st h = Inr s" "sg_previous_segment_hash s = head"
    and seq: "sg_first_sequence s = Suc w" "sg_last_sequence s = w + length (sg_records s)"
  shows "load_segment_chain x k st (Some h) (w + length (sg_records s)) = Inr (rs @ sg_records s)"
proof -
  obtain p where p: "segment_path x k st head p"
    "res_foldM append_segment (Suc 0, []) (rev (map snd p)) = Inr (Suc w, rs)" and w: "length rs = w"
    using old unfolding load_segment_chain_Inr by blast
  have "segment_path x k st (Some h) ((h, s) # p)" using p(1) s by simp
  moreover have "append_segment (Suc w, rs) s = Inr (Suc (w + length (sg_records s)), rs @ sg_records s)"
    using seq by (simp add: append_segment_Inr)
  then have "res_foldM append_segment (Suc 0, []) (rev (map snd ((h, s) # p)))
      = Inr (Suc (w + length (sg_records s)), rs @ sg_records s)"
    using p(2) by (simp add: res_foldM_append)
  ultimately show ?thesis
    using w unfolding load_segment_chain_Inr by (intro conjI exI [of _ "(h, s) # p"]) simp_all
qed

lemma head_extends_refl: "head_extends x k st h h = Inr True"
  by (cases h) (simp_all add: head_extends_def)

lemma head_extends_step:
  assumes "read_segment x k st h = Inr s" and "sg_previous_segment_hash s = prev"
  shows "head_extends x k st (Some h) prev = Inr True"
  using assms by (cases prev) (auto simp: head_extends_def)

lemma check_relation_append:
  "check_relation x rs n l = Inr m \<Longrightarrow> check_relation x (rs @ rs') n l = Inr m"
  by (auto simp: check_relation_def res_simps)

lemma validate_relations_append:
  assumes "validate_relations x ls rs = Inr ()"
  shows "validate_relations x ls (rs @ rs') = Inr ()"
proof -
  have "res_foldM (check_relation x (rs @ rs')) n ls = Inr m"
    if "res_foldM (check_relation x rs) n ls = Inr m" for n m
    using that by (induction ls arbitrary: n) (auto simp: res_simps intro: check_relation_append)
  then show ?thesis using assms by (auto simp: validate_relations_def res_simps)
qed

section \<open>The prepared commit\<close>

text \<open>What a prepared commit consists of, for a state that has a root.\<close>

lemma prepare_commit_Inr:
  assumes "prepare_commit x c now uuids s role tier revs heads = Inr p"
    and "lg_root s = Some root"
  obtains new pols rh rb po vb vh rtb where
    "new = stamp_revisions role now (length (lg_revisions s) + 1) revs"
    "pols = root_policies role now (length (lg_policies s) + 1) uuids (zip new heads)"
    "check_batch s role tier revs heads = Inr ()"
    "pc_generation p = rt_generation root + 1" "pc_new_revisions p = new"
    "pc_revisions p = lg_revisions s @ new" "pc_policies p = lg_policies s @ pols"
    "logs_wf x (pc_revisions p) (pc_policies p)"
    "segment_object x (revision_log c) (length (lg_revisions s) + 1) (rt_revision_head root) new
       = Inr (pc_segment p, rh, rb)"
    "policy_object x c (length (lg_policies s) + 1) (rt_policy_head root) pols = Inr po"
    "pc_view p = view_of (pc_generation p) (pc_revisions p) (pc_policies p) (length (lg_relations s))"
    "canonical_bytes_and_hash x (enc (view_codec c)) VIEW_DOMAIN (pc_view p) = Inr (vb, vh)"
    "pc_root p = \<lparr>rt_schema = ROOT_SCHEMA, rt_generation = pc_generation p,
       rt_previous_root_hash = lg_root_hash s, rt_revision_head = Some rh,
       rt_revision_watermark = sg_last_sequence (pc_segment p),
       rt_policy_head = (case po of Some (_, hash, _) \<Rightarrow> Some hash | None \<Rightarrow> rt_policy_head root),
       rt_policy_watermark = (case po of Some (sequence, _, _) \<Rightarrow> sequence | None \<Rightarrow> length (lg_policies s)),
       rt_relation_head = rt_relation_head root, rt_relation_watermark = rt_relation_watermark root,
       rt_current_view_hash = vh, rt_migration_manifest_hash = rt_migration_manifest_hash root,
       rt_committed_at = now, rt_committed_by_role = role\<rparr>"
    "canonical_bytes_and_hash x (enc (root_codec c)) ROOT_DOMAIN (pc_root p) = Inr (rtb, pc_root_hash p)"
    "pc_objects p = [(rh, rb)] @ (case po of None \<Rightarrow> [] | Some (_, hash, bytes) \<Rightarrow> [(hash, bytes)])
       @ [(vh, vb), (pc_root_hash p, rtb)]"
proof -
  define new where "new = stamp_revisions role now (length (lg_revisions s) + 1) revs"
  define pols where
    "pols = root_policies role now (length (lg_policies s) + 1) uuids (zip new heads)"
  obtain seg rh rb po view vb vh rtb rth where
    ok: "check_batch s role tier revs heads = Inr ()"
      "validate_revisions x (lg_revisions s @ new) = Inr ()"
      "validate_policies x (lg_policies s @ pols) (lg_revisions s @ new) = Inr ()"
    and seg: "segment_object x (revision_log c) (length (lg_revisions s) + 1) (rt_revision_head root) new
       = Inr (seg, rh, rb)"
    and po: "policy_object x c (length (lg_policies s) + 1) (rt_policy_head root) pols = Inr po"
    and view: "rebuild_current_view (rt_generation root + 1) (lg_revisions s @ new)
       (lg_policies s @ pols) (length (lg_relations s)) = Inr view"
      "canonical_bytes_and_hash x (enc (view_codec c)) VIEW_DOMAIN view = Inr (vb, vh)"
    and root: "canonical_bytes_and_hash x (enc (root_codec c)) ROOT_DOMAIN (pc_root p) = Inr (rtb, rth)"
    and p: "p = \<lparr>pc_generation = rt_generation root + 1, pc_new_revisions = new,
          pc_revisions = lg_revisions s @ new, pc_policies = lg_policies s @ pols,
          pc_segment = seg, pc_view = view, pc_root = \<lparr>rt_schema = ROOT_SCHEMA,
             rt_generation = rt_generation root + 1,
       rt_previous_root_hash = lg_root_hash s, rt_revision_head = Some rh,
       rt_revision_watermark = sg_last_sequence seg,
       rt_policy_head = (case po of Some (_, hash, _) \<Rightarrow> Some hash | None \<Rightarrow> rt_policy_head root),
       rt_policy_watermark = (case po of Some (sequence, _, _) \<Rightarrow> sequence | None \<Rightarrow> length (lg_policies s)),
       rt_relation_head = rt_relation_head root, rt_relation_watermark = rt_relation_watermark root,
       rt_current_view_hash = vh, rt_migration_manifest_hash = rt_migration_manifest_hash root,
       rt_committed_at = now, rt_committed_by_role = role\<rparr>,
          pc_root_hash = rth,
          pc_objects = [(rh, rb)] @ (case po of None \<Rightarrow> [] | Some (_, hash, bytes) \<Rightarrow> [(hash, bytes)])
            @ [(vh, vb), (rth, rtb)]\<rparr>"
    using assms(1)
    unfolding prepare_commit_def Let_def new_def [symmetric] pols_def [symmetric] assms(2)
      Option.bind_lunit option.case
    by (auto simp: res_simps)
  have wf: "logs_wf x (lg_revisions s @ new) (lg_policies s @ pols)"
    using ok by (simp add: logs_wf_def validate_revisions_iff validate_policies_iff)
  have "view = view_of (rt_generation root + 1) (lg_revisions s @ new) (lg_policies s @ pols)
      (length (lg_relations s))"
    using view(1) rebuild_current_view_ok [OF wf] by simp
  then show ?thesis
    using ok seg po view(2) root wf
    by (intro that [OF new_def pols_def, of rh rb po vb vh rtb]) (simp_all add: p)
qed

lemma load_segment_chain_length: "load_segment_chain x k st h w = Inr rs \<Longrightarrow> length rs = w"
  unfolding load_segment_chain_Inr by blast

lemma segment_log_extended:
  assumes old: "load_segment_chain x k st head w = Inr rs"
    and obj: "segment_object x k (length rs + 1) head new = Inr (s, h, b)"
    and get: "get_immutable st h = Inr b" and ne: "new \<noteq> []" and dec: "dec (lk_codec k) b = Some s"
  shows "load_segment_chain x k st (Some h) (sg_last_sequence s) = Inr (rs @ new)"
    and "head_extends x k st (Some h) head = Inr True"
    and "sg_last_sequence s = length (rs @ new)"
proof -
  have s: "sg_records s = new" "sg_previous_segment_hash s = head" "sg_first_sequence s = Suc (length rs)"
    "sg_last_sequence s = length rs + length new"
    using obj ne by (auto simp: segment_object_Inr neq_Nil_conv)
  have w: "length rs = w" using old by (rule load_segment_chain_length)
  have read: "read_segment x k st h = Inr s" using get obj ne dec by (rule read_written_segment)
  show "head_extends x k st (Some h) head = Inr True" using read s(2) by (rule head_extends_step)
  show "load_segment_chain x k st (Some h) (sg_last_sequence s) = Inr (rs @ new)"
    using load_segment_chain_snoc [OF old read s(2)] s w by simp
  show "sg_last_sequence s = length (rs @ new)" using s(4) by simp
qed

lemma policy_log_extended:
  assumes old: "load_segment_chain x (policy_log c) st head w = Inr ps"
    and obj: "policy_object x c (length ps + 1) head pols = Inr po"
    and get: "\<forall>n h b. po = Some (n, h, b) \<longrightarrow> get_immutable st h = Inr b"
    and law: "faithful (policy_codec c)"
  defines "head' \<equiv> (case po of Some (_, h, _) \<Rightarrow> Some h | None \<Rightarrow> head)"
    and "w' \<equiv> (case po of Some (n, _, _) \<Rightarrow> n | None \<Rightarrow> length ps)"
  shows "load_segment_chain x (policy_log c) st head' w' = Inr (ps @ pols)"
    and "head_extends x (policy_log c) st head' head = Inr True"
    and "w' = length (ps @ pols)"
proof -
  have "load_segment_chain x (policy_log c) st head' w' = Inr (ps @ pols)
      \<and> head_extends x (policy_log c) st head' head = Inr True \<and> w' = length (ps @ pols)"
  proof (cases "pols = []")
    case True
    then have "po = None" using obj by (simp add: policy_object_def)
    then show ?thesis
      using True old load_segment_chain_length [OF old] head_extends_refl
      by (simp add: head'_def w'_def)
  next
    case False
    then obtain s h b where o: "segment_object x (policy_log c) (length ps + 1) head pols = Inr (s, h, b)"
      and po: "po = Some (sg_last_sequence s, h, b)"
      using obj by (auto simp: policy_object_def res_simps)
    have "dec (lk_codec (policy_log c)) b = Some s"
      using o law by (auto simp: segment_object_Inr canonical_bytes_and_hash_Inr policy_log_def faithful_def)
    from segment_log_extended [OF old o _ False this] get po show ?thesis
      by (simp add: head'_def w'_def po)
  qed
  then show "load_segment_chain x (policy_log c) st head' w' = Inr (ps @ pols)"
    "head_extends x (policy_log c) st head' head = Inr True" "w' = length (ps @ pols)" by auto
qed

lemma check_batch_nonempty: "check_batch s role tier revs heads = Inr () \<Longrightarrow> revs \<noteq> []"
  by (auto simp: check_batch_def res_simps)

lemma length_stamp_revisions [simp]: "length (stamp_revisions role now n revs) = length revs"
  by (simp add: stamp_revisions_def)

lemma stamp_revisions_eq_Nil [simp]: "stamp_revisions role now n revs = [] \<longleftrightarrow> revs = []"
  by (metis length_0_conv length_stamp_revisions)

abbreviation state_of ::
  "active_pointer \<Rightarrow> ledger_root \<Rightarrow> current_view \<Rightarrow> canonical_revision list \<Rightarrow> policy_record list \<Rightarrow>
   relation_record list \<Rightarrow> ledger_state" where
  "state_of ptr root view rs ps ls \<equiv>
     \<lparr>lg_poisoned = False, lg_root_hash = Some (ap_root_hash ptr), lg_root = Some root,
      lg_view = Some view, lg_revisions = rs, lg_policies = ps, lg_relations = ls\<rparr>"

text \<open>The objects of a prepared commit, once stored, load as its state.\<close>

lemma prepared_objects_load:
  assumes loaded: "loaded x c st ptr root view rs ps ls"
    and s: "s = state_of ptr root view rs ps ls"
    and prep: "prepare_commit x c now uuids s role tier revs heads = Inr p"
    and laws: "codec_laws c" "segment_readable c p"
    and grows: "grows st st'"
    and stored: "\<And>h b. (h, b) \<in> set (pc_objects p) \<Longrightarrow> get_immutable st' h = Inr b"
    and pointer: "read_pointer c st' = Inr \<lparr>ap_schema = ROOT_POINTER_SCHEMA, ap_root_hash = pc_root_hash p\<rparr>"
  shows "loaded x c st' \<lparr>ap_schema = ROOT_POINTER_SCHEMA, ap_root_hash = pc_root_hash p\<rparr>
           (pc_root p) (pc_view p) (pc_revisions p) (pc_policies p) ls"
proof -
  have sel: "lg_revisions s = rs" "lg_policies s = ps" "lg_relations s = ls"
    "lg_root_hash s = Some (ap_root_hash ptr)" and rootsel: "lg_root s = Some root"
    by (simp_all add: s)
  obtain new pols rh rb po vb vh rtb where
    new: "new = stamp_revisions role now (length rs + 1) revs"
    and batch: "check_batch s role tier revs heads = Inr ()"
    and gen: "pc_generation p = rt_generation root + 1"
    and cand: "pc_revisions p = rs @ new" "pc_policies p = ps @ pols"
    and wf: "logs_wf x (pc_revisions p) (pc_policies p)"
    and seg: "segment_object x (revision_log c) (length rs + 1) (rt_revision_head root) new
       = Inr (pc_segment p, rh, rb)"
    and pol: "policy_object x c (length ps + 1) (rt_policy_head root) pols = Inr po"
    and view: "pc_view p = view_of (pc_generation p) (pc_revisions p) (pc_policies p) (length ls)"
      "canonical_bytes_and_hash x (enc (view_codec c)) VIEW_DOMAIN (pc_view p) = Inr (vb, vh)"
    and root: "pc_root p = \<lparr>rt_schema = ROOT_SCHEMA, rt_generation = pc_generation p,
       rt_previous_root_hash = Some (ap_root_hash ptr), rt_revision_head = Some rh,
       rt_revision_watermark = sg_last_sequence (pc_segment p),
       rt_policy_head = (case po of Some (_, hash, _) \<Rightarrow> Some hash | None \<Rightarrow> rt_policy_head root),
       rt_policy_watermark = (case po of Some (sequence, _, _) \<Rightarrow> sequence | None \<Rightarrow> length ps),
       rt_relation_head = rt_relation_head root, rt_relation_watermark = rt_relation_watermark root,
       rt_current_view_hash = vh, rt_migration_manifest_hash = rt_migration_manifest_hash root,
       rt_committed_at = now, rt_committed_by_role = role\<rparr>"
      "canonical_bytes_and_hash x (enc (root_codec c)) ROOT_DOMAIN (pc_root p) = Inr (rtb, pc_root_hash p)"
    and objs: "pc_objects p = [(rh, rb)] @ (case po of None \<Rightarrow> [] | Some (_, hash, bytes) \<Rightarrow> [(hash, bytes)])
       @ [(vh, vb), (pc_root_hash p, rtb)]"
    by (rule prepare_commit_Inr [OF prep rootsel, unfolded sel])
  have old: "read_root x c st' (ap_root_hash ptr) = Inr root"
      "validate_root_chain x c st' (ap_root_hash ptr) root = Inr ()"
      "load_logs x c st' root = Inr (rs, ps, ls)" "validate_relations x ls rs = Inr ()"
      "verify_migration_manifest_objects x c st' (rt_migration_manifest_hash root) = Inr ()"
  proof -
    show "read_root x c st' (ap_root_hash ptr) = Inr root"
      "validate_root_chain x c st' (ap_root_hash ptr) root = Inr ()"
      "load_logs x c st' root = Inr (rs, ps, ls)" "validate_relations x ls rs = Inr ()"
      using loaded grows unfolding loaded_def validate_root_chain_def validate_logs_Inr
      by (blast intro: grow)+
    show "verify_migration_manifest_objects x c st' (rt_migration_manifest_hash root) = Inr ()"
      using \<open>validate_root_chain x c st' (ap_root_hash ptr) root = Inr ()\<close>
      by (cases "rt_generation root")
         (auto simp: validate_root_chain_def enter_root_def validate_root_snapshot_def res_simps)
  qed
  note logs = old(3) [unfolded load_logs_Inr]
  have ne: "new \<noteq> []" using check_batch_nonempty [OF batch] new by simp
  have segdec: "dec (lk_codec (revision_log c)) rb = Some (pc_segment p)"
    using seg laws(2)
    by (auto simp: segment_object_Inr canonical_bytes_and_hash_Inr revision_log_def segment_readable_def)
  have getseg: "get_immutable st' rh = Inr rb" using stored objs by simp
  note rev = segment_log_extended [OF conjunct1 [OF logs] seg getseg ne segdec]
  have getpol: "\<forall>n h b. po = Some (n, h, b) \<longrightarrow> get_immutable st' h = Inr b"
    using stored objs by auto
  have laws': "faithful (root_codec c)" "faithful (view_codec c)" "faithful (policy_codec c)"
    using laws(1) by (simp_all add: codec_laws_def)
  note pol' = policy_log_extended [OF conjunct1 [OF conjunct2 [OF logs]] pol getpol laws'(3)]
  have len: "length rs = rt_revision_watermark root" "length ps = rt_policy_watermark root"
    "length ls = rt_relation_watermark root"
    using logs load_segment_chain_length by blast+
  have newlogs: "load_logs x c st' (pc_root p) = Inr (pc_revisions p, pc_policies p, ls)"
    unfolding load_logs_Inr using rev(1) pol'(1) logs cand root(1) by simp
  have valid: "validate_logs x (pc_revisions p) (pc_policies p) ls = Inr ()"
    using wf validate_relations_append [OF old(4)] cand(1) by (simp add: validate_logs_Inr)
  have readview: "read_view x c st' (rt_current_view_hash (pc_root p)) = Inr (pc_view p)"
    using read_written_view [OF _ view(2) laws'(2)] stored objs root(1) by simp
  have wm: "watermarks_match (pc_root p) (pc_view p)"
    using view(1) root(1) rev(3) pol'(3) cand len
    by (simp add: watermarks_match_def view_of_def)
  have readroot: "read_root x c st' (pc_root_hash p) = Inr (pc_root p)"
    using read_written_root [OF _ root(2) laws'(1)] stored objs by simp
  have viewof: "view_of (rt_generation (pc_root p)) (pc_revisions p) (pc_policies p)
      (rt_relation_watermark (pc_root p)) = pc_view p"
    using view(1) root(1) len by simp
  obtain vb' where vb': "enc (view_codec c) (pc_view p) = Some vb'"
    using view(2) by (simp add: canonical_bytes_and_hash_Inr)
  have snapshot: "validate_root_snapshot x c st' (pc_root p) = Inr ()"
    using readview newlogs valid old(5) rebuild_current_view_ok [OF wf] viewof wm vb' root(1)
    by (simp add: validate_root_snapshot_def historical_view_matches_def)
  have step: "step_to_previous x c st' (pc_root p) (ap_root_hash ptr) = Inr root"
    unfolding step_to_previous_Inr root_extends_Inr
    using old(1) rev(2,3) pol'(2,3) root(1) len head_extends_refl by auto
  have chain: "validate_root_chain x c st' (pc_root_hash p) (pc_root p) = Inr ()"
    by (rule validate_root_chain_extend [OF old(2,1) readroot _ _ _ snapshot step])
       (simp_all add: root(1) gen)
  show ?thesis
    unfolding loaded_def
    using pointer readroot chain readview newlogs valid viewof wm vb' root(1)
    by (simp add: loaded_view_matches_def)
qed

section \<open>Outcomes of a commit\<close>

text \<open>Preparation fails only for a reason in the request or the state, never because of I/O.\<close>

fun request_error :: "ledger_error \<Rightarrow> bool" where
  "request_error (LedgerInvalid _) \<longleftrightarrow> True"
| "request_error (UnsupportedPolicy _) \<longleftrightarrow> True"
| "request_error (HeadConflict _ _ _) \<longleftrightarrow> True"
| "request_error WriterPoisoned \<longleftrightarrow> True"
| "request_error _ \<longleftrightarrow> False"

lemma validate_revisions_errs: "errs request_error (validate_revisions x rs)"
  unfolding validate_revisions_def check_revision_def check_tombstone_def
  by (auto intro!: errs_intro simp: Let_def split: option.splits)

lemma validate_policies_errs: "errs request_error (validate_policies x ps rs)"
  unfolding validate_policies_def check_policy_record_def check_policy_order_def
  by (auto intro!: errs_intro split: option.splits)

lemma check_batch_errs: "errs request_error (check_batch s role tier revs heads)"
  unfolding check_batch_def check_expected_head_def check_writer_def
  by (auto intro!: errs_intro)

lemma canonical_bytes_errs: "errs request_error (canonical_bytes_and_hash x e d v)"
  unfolding canonical_bytes_and_hash_def by (auto intro!: errs_intro)

lemma prepare_commit_errs:
  "errs request_error (prepare_commit x c now uuids s role tier revs heads)"
  unfolding prepare_commit_def Let_def segment_object_def policy_object_def rebuild_current_view_def
    current_stream_for_def
  by (auto intro!: errs_intro check_batch_errs validate_revisions_errs validate_policies_errs
      canonical_bytes_errs)

lemma publish_prepared_cases:
  assumes "publish_prepared c now pf qf st s p = (st', s', r)"
  obtains (write_error) e where "put_seq (\<lambda>h. put_immutable (pf h) h) (pc_objects p) st = (st', Inl e)"
      "s' = s" "r = Inl LedgerIo"
  | (pointer_error) u where "put_seq (\<lambda>h. put_immutable (pf h) h) (pc_objects p) st = (st', Inr u)"
      "s' = s" "r = Inl (LedgerInvalid ''jcs_canonicalization_failed'')"
  | (publish_error) st1 u bytes where
      "put_seq (\<lambda>h. put_immutable (pf h) h) (pc_objects p) st = (st1, Inr u)"
      "publish_active qf bytes st1 = (st', Inl StorageIo)" "s' = s" "r = Inl LedgerIo"
  | (unsynced) st1 u bytes where
      "put_seq (\<lambda>h. put_immutable (pf h) h) (pc_objects p) st = (st1, Inr u)"
      "enc (pointer_codec c) \<lparr>ap_schema = ROOT_POINTER_SCHEMA, ap_root_hash = pc_root_hash p\<rparr> = Some bytes"
      "publish_active qf bytes st1 = (st', Inl PublishedButUnsynced)"
      "s' = s\<lparr>lg_poisoned := True\<rparr>" "r = Inl CommitIndeterminate"
  | (published) st1 u u' bytes where
      "put_seq (\<lambda>h. put_immutable (pf h) h) (pc_objects p) st = (st1, Inr u)"
      "enc (pointer_codec c) \<lparr>ap_schema = ROOT_POINTER_SCHEMA, ap_root_hash = pc_root_hash p\<rparr> = Some bytes"
      "publish_active qf bytes st1 = (st', Inr u')"
      "s' = published_state p s" "r = Inr (receipts now p)"
proof -
  obtain st1 q where put: "put_seq (\<lambda>h. put_immutable (pf h) h) (pc_objects p) st = (st1, q)" by force
  show thesis
  proof (cases q)
    case (Inl e)
    then show thesis using assms put by (intro write_error) (simp_all add: publish_prepared_def)
  next
    case q: (Inr u)
    show thesis
    proof (cases "enc (pointer_codec c) \<lparr>ap_schema = ROOT_POINTER_SCHEMA, ap_root_hash = pc_root_hash p\<rparr>")
      case None
      then show thesis using assms put q by (intro pointer_error) (simp_all add: publish_prepared_def)
    next
      case enc: (Some bytes)
      obtain st2 w where pub: "publish_active qf bytes st1 = (st2, w)" by force
      show thesis
      proof (cases w)
        case (Inl e)
        then show thesis
          using assms put q enc pub publish_error unsynced
          by (cases e) (auto simp: publish_prepared_def)
      next
        case (Inr v)
        then show thesis using assms put q enc pub published by (auto simp: publish_prepared_def)
      qed
    qed
  qed
qed

lemma put_seq_grows:
  "put_seq (\<lambda>h. put_immutable (pf h) h) xs st = (st', r) \<Longrightarrow> grows st st'"
  using immutable.put_seq_keeps by (fastforce simp: grows_def simp flip: object_bytes_get)

lemma get_immutable_objects: "ls_objects st' = ls_objects st \<Longrightarrow> get_immutable st' = get_immutable st"
  by (simp add: fun_eq_iff get_immutable_def)

lemma publish_grows:
  "grows st st1 \<Longrightarrow> publish_active qf b st1 = (st2, r) \<Longrightarrow> grows st st2"
  using publish_active_objects get_immutable_objects unfolding grows_def by metis

lemma exchanged_loads:
  assumes load: "load_state x c st = Inr s"
    and prep: "prepare_commit x c now uuids s role tier revs heads = Inr p"
    and laws: "codec_laws c" "segment_readable c p"
    and put: "put_seq (\<lambda>h. put_immutable (pf h) h) (pc_objects p) st = (st1, Inr ())"
    and ptr: "enc (pointer_codec c) \<lparr>ap_schema = ROOT_POINTER_SCHEMA, ap_root_hash = pc_root_hash p\<rparr> = Some bytes"
    and pub: "publish_active qf bytes st1 = (st2, r)" "r \<noteq> Inl StorageIo"
  shows "load_state x c st2 = Inr (published_state p s)"
proof -
  from load obtain ptr0 root view rs ps ls where l: "loaded x c st ptr0 root view rs ps ls"
    and s: "s = state_of ptr0 root view rs ps ls" unfolding load_state_Inr by blast
  have objs: "get_immutable st2 = get_immutable st1"
    using publish_active_objects [OF pub(1)] by (rule get_immutable_objects)
  have "grows st st2" using put_seq_grows [OF put] objs by (simp add: grows_def)
  moreover have "get_immutable st2 h = Inr b" if "(h, b) \<in> set (pc_objects p)" for h b
    using immutable.put_seq_reads [OF put that] objs by (simp add: object_bytes_get)
  moreover have "read_pointer c st2 = Inr \<lparr>ap_schema = ROOT_POINTER_SCHEMA, ap_root_hash = pc_root_hash p\<rparr>"
  proof -
    have "ls_active st2 = bytes" using publish_active_atomic(2) [OF pub(1)] pub(2) by simp
    moreover have "dec (pointer_codec c) bytes
        = Some \<lparr>ap_schema = ROOT_POINTER_SCHEMA, ap_root_hash = pc_root_hash p\<rparr>"
      using laws(1) ptr by (simp add: codec_laws_def faithful_def)
    moreover from this have "bytes \<noteq> []" using laws(1) by (auto simp: codec_laws_def)
    ultimately show ?thesis using ptr by (simp add: read_pointer_def read_active_def)
  qed
  ultimately have "loaded x c st2 \<lparr>ap_schema = ROOT_POINTER_SCHEMA, ap_root_hash = pc_root_hash p\<rparr>
      (pc_root p) (pc_view p) (pc_revisions p) (pc_policies p) ls"
    by (rule prepared_objects_load [OF l s prep laws])
  moreover have "published_state p s = state_of \<lparr>ap_schema = ROOT_POINTER_SCHEMA, ap_root_hash = pc_root_hash p\<rparr>
      (pc_root p) (pc_view p) (pc_revisions p) (pc_policies p) ls"
    by (simp add: published_state_def s)
  ultimately show ?thesis unfolding load_state_Inr by blast
qed

theorem commit_reloads:
  assumes "load_state x c st = Inr s"
    and "prepare_commit x c now uuids s role tier revs heads = Inr p"
    and "codec_laws c" and "segment_readable c p"
    and commit: "commit_records x c now uuids pf qf st s role tier revs heads = (st', s', Inr cs)"
  shows "load_state x c st' = Inr s'"
proof -
  have "publish_prepared c now pf qf st s p = (st', s', Inr cs)"
    using commit assms(2) by (simp add: commit_records_def)
  then show ?thesis
    by (cases rule: publish_prepared_cases) (auto intro: exchanged_loads [OF assms(1-4)])
qed

theorem commit_failure_atomic:
  assumes load: "load_state x c st = Inr s"
    and commit: "commit_records x c now uuids pf qf st s role tier revs heads = (st', s', Inl e)"
    and e: "e \<noteq> CommitIndeterminate"
  shows "s' = s \<and> load_state x c st' = Inr s"
proof (cases "prepare_commit x c now uuids s role tier revs heads")
  case (Inl e')
  then show ?thesis using commit load by (simp add: commit_records_def)
next
  case (Inr p)
  then have "publish_prepared c now pf qf st s p = (st', s', Inl e)"
    using commit by (simp add: commit_records_def)
  then show ?thesis
  proof (cases rule: publish_prepared_cases)
    case (write_error f)
    then show ?thesis using load_state_grow [OF load] put_seq_grows put_seq_slots by blast
  next
    case (pointer_error u)
    then show ?thesis using load_state_grow [OF load] put_seq_grows put_seq_slots by blast
  next
    case (publish_error st1 u bytes)
    have "grows st st'" using put_seq_grows publish_grows publish_error(1,2) by blast
    moreover have "ls_active st' = ls_active st"
      using put_seq_slots [OF publish_error(1)] publish_active_atomic(1) [OF publish_error(2)] by simp
    ultimately show ?thesis using load_state_grow [OF load] publish_error by blast
  qed (use e in auto)
qed

theorem commit_indeterminate:
  assumes load: "load_state x c st = Inr s"
    and commit: "commit_records x c now uuids pf qf st s role tier revs heads
                   = (st', s', Inl CommitIndeterminate)"
    and laws: "codec_laws c"
    and readable: "\<forall>p. prepare_commit x c now uuids s role tier revs heads = Inr p \<longrightarrow> segment_readable c p"
  shows "s' = s\<lparr>lg_poisoned := True\<rparr>
    \<and> (\<exists>p. prepare_commit x c now uuids s role tier revs heads = Inr p
           \<and> load_state x c st' = Inr (published_state p s))"
proof (cases "prepare_commit x c now uuids s role tier revs heads")
  case (Inl e)
  then show ?thesis
    using commit errsD [OF prepare_commit_errs Inl] by (simp add: commit_records_def)
next
  case (Inr p)
  then have "publish_prepared c now pf qf st s p = (st', s', Inl CommitIndeterminate)"
    using commit by (simp add: commit_records_def)
  then show ?thesis
  proof (cases rule: publish_prepared_cases)
    case (unsynced st1 u bytes)
    then show ?thesis
      using exchanged_loads [OF load Inr laws _ _ unsynced(2,3)] readable Inr by simp
  qed auto
qed

lemma poisoned_prepare:
  assumes "lg_poisoned s"
  shows "\<exists>e. prepare_commit x c now uuids s role tier revs heads = Inl e"
proof (cases "prepare_commit x c now uuids s role tier revs heads")
  case (Inr p)
  then show ?thesis using assms by (auto simp: prepare_commit_def check_batch_def res_simps)
qed simp

lemma poisoned_commit_refused:
  assumes "lg_poisoned s"
  shows "\<exists>e. commit_records x c now uuids pf qf st s role tier revs heads = (st, s, Inl e)"
  using poisoned_prepare [OF assms] unfolding commit_records_def by (metis sum.case(1))

end
