(* ===== verification/Ledger_Access.thy ===== *)
theory Ledger_Access
  imports Ledger_Durability
begin

text \<open>
  Reading the ledger state and who may write to it: the query operations of \<open>CanonicalLedger\<close>,
  the projection source, the conversions between memory entries and revisions
  (\<open>src/src/memory/ledger/store.rs\<close>), and the access-control and concurrency guarantees of
  a commit.
\<close>

section \<open>Queries\<close>

definition revisions_of_tier :: "canonical_revision list \<Rightarrow> memory_tier \<Rightarrow> canonical_revision list option" where
  "revisions_of_tier revisions tier =
     (let rs = filter (\<lambda>r. rv_cognitive_tier r = tier) revisions in if rs = [] then None else Some rs)"

definition rebuild_origin_role ::
  "ledger_state \<Rightarrow> string \<Rightarrow> (memory_tier \<times> canonical_revision list) list" where
  "rebuild_origin_role s role_id =
     (let origin_memories =
            set (map po_memory_id (filter (\<lambda>p. po_origin_role_id p = role_id) (lg_policies s)));
          owned = filter (\<lambda>r. rv_memory_id r \<in> origin_memories) (lg_revisions s)
      in List.map_filter (\<lambda>tier. map_option (Pair tier) (revisions_of_tier owned tier))
           [Working, LongTerm, Procedural])"

definition list_origin_roles :: "ledger_state \<Rightarrow> string list" where
  "list_origin_roles s = sort (remdups (map po_origin_role_id (lg_policies s)))"

definition find_policy :: "ledger_state \<Rightarrow> string \<Rightarrow> policy_record option" where
  "find_policy s policy_id = find (\<lambda>p. po_policy_id p = policy_id) (lg_policies s)"

definition readable_active_revision_ids ::
  "ledger_state \<Rightarrow> string \<Rightarrow> ledger_error + string list" where
  "readable_active_revision_ids s role_id =
     res_bind (ok_or (lg_view s) (LedgerInvalid ''missing_current_view'')) (\<lambda>view.
     Inr (sort (List.map_filter (\<lambda>t.
            case find_policy s (cs_policy_id t) of
              Some policy \<Rightarrow>
                if role_id \<in> set (po_reader_roles policy) then Some (cs_head_revision_id t) else None
            | None \<Rightarrow> None) (filter (\<lambda>t. \<not> cs_deleted t) (cv_streams view)))))"

definition find_revision :: "ledger_state \<Rightarrow> string \<Rightarrow> canonical_revision option" where
  "find_revision s revision_id = find (\<lambda>r. rv_revision_id r = revision_id) (lg_revisions s)"

definition state_stream :: "ledger_state \<Rightarrow> string \<Rightarrow> current_stream option" where
  "state_stream s memory_id = Option.bind (lg_view s) (\<lambda>view. stream_for view memory_id)"

definition origin_for_revision ::
  "ledger_state \<Rightarrow> string \<Rightarrow> string \<Rightarrow> bool \<Rightarrow> ledger_error + string option" where
  "origin_for_revision s role_id revision_id write =
     (case find_revision s revision_id of
        None \<Rightarrow> Inr None
      | Some revision \<Rightarrow>
          (case state_stream s (rv_memory_id revision) of
             None \<Rightarrow> Inr None
           | Some t \<Rightarrow>
               res_bind (ok_or (find_policy s (cs_policy_id t)) (LedgerInvalid ''missing_current_policy''))
                 (\<lambda>policy.
               Inr (if role_id \<in> set (if write then po_writer_roles policy else po_reader_roles policy)
                    then Some (po_origin_role_id policy) else None))))"

section \<open>The projection source\<close>

record canonical_source_identity =
  si_canonical_kind :: string
  si_memory_id :: string
  si_revision_id :: string
  si_revision_sequence :: nat
  si_content_hash :: string

fun projection_text :: "memory_content \<Rightarrow> string option" where
  "projection_text (Text text) = (if \<not> trim_is_empty text then Some text else None)"
| "projection_text _ = None"

definition current_projection_revision ::
  "ledger_state \<Rightarrow> canonical_source_identity \<Rightarrow> canonical_revision option" where
  "current_projection_revision s expected =
     (case find_revision s (si_revision_id expected) of
        None \<Rightarrow> None
      | Some actual \<Rightarrow>
          if rv_memory_id actual \<noteq> si_memory_id expected
             \<or> rv_sequence actual \<noteq> si_revision_sequence expected
             \<or> rv_content_hash actual \<noteq> si_content_hash expected then None
          else (case state_stream s (rv_memory_id actual) of
             None \<Rightarrow> None
           | Some t \<Rightarrow>
               if cs_deleted t \<or> cs_head_revision_id t \<noteq> rv_revision_id actual
                  \<or> rv_deleted_at actual \<noteq> None
                  \<or> rv_cognitive_tier actual \<notin> {Working, LongTerm} then None
               else if \<not> list_ex (\<lambda>p. po_policy_id p = cs_policy_id t
                          \<and> po_memory_id p = rv_memory_id actual
                          \<and> PERSONAL_OWNER_ROLE_ID \<in> set (po_reader_roles p)) (lg_policies s) then None
               else (case projection_text (rv_content actual) of
                       None \<Rightarrow> None | Some _ \<Rightarrow> Some actual)))"

definition guarded_projection_document ::
  "ledger_state \<Rightarrow> canonical_source_identity \<Rightarrow> ledger_error + string option" where
  "guarded_projection_document s expected =
     (if lg_poisoned s then Inl WriterPoisoned
      else case current_projection_revision s expected of
        None \<Rightarrow> Inr None
      | Some actual \<Rightarrow> Inr (projection_text (rv_content actual)))"

text \<open>
  The loop that collects the chain of roots has no guard against cycles, so it is a partial
  function; \<open>None\<close> means that it does not return.
\<close>

partial_function (option) root_chain_walk ::
  "xenv \<Rightarrow> ledger_codec \<Rightarrow> ledger_storage \<Rightarrow> ledger_root \<Rightarrow>
   (ledger_error + (string \<times> ledger_root) list) option" where
  "root_chain_walk x c st cursor =
     (case rt_previous_root_hash cursor of
        None \<Rightarrow> Some (Inr [])
      | Some previous_hash \<Rightarrow>
          (case read_root x c st previous_hash of
             Inl e \<Rightarrow> Some (Inl e)
           | Inr previous \<Rightarrow>
               Option.bind (root_chain_walk x c st previous) (\<lambda>r.
               Some (res_bind r (\<lambda>chain. Inr ((previous_hash, previous) # chain))))))"

record canonical_projection_snapshot =
  sp_genesis_root_hash :: string
  sp_genesis_root :: ledger_root
  sp_root_hash :: string
  sp_root :: ledger_root
  sp_root_chain :: "(string \<times> ledger_root) list"
  sp_revisions :: "canonical_revision list"

definition projection_snapshot_from_state ::
  "xenv \<Rightarrow> ledger_codec \<Rightarrow> ledger_storage \<Rightarrow> ledger_state \<Rightarrow>
   (ledger_error + canonical_projection_snapshot) option" where
  "projection_snapshot_from_state x c st s =
     (case lg_root_hash s of
        None \<Rightarrow> Some (Inl (LedgerInvalid ''missing_active_root''))
      | Some root_hash \<Rightarrow>
          (case lg_root s of
             None \<Rightarrow> Some (Inl (LedgerInvalid ''missing_active_root''))
           | Some root \<Rightarrow>
               Option.bind (root_chain_walk x c st root) (\<lambda>r.
               Some (res_bind r (\<lambda>older.
                 (let chain = rev ((root_hash, root) # older) in
                  Inr \<lparr>sp_genesis_root_hash = fst (hd chain), sp_genesis_root = snd (hd chain),
                       sp_root_hash = root_hash, sp_root = root, sp_root_chain = chain,
                       sp_revisions = lg_revisions s\<rparr>))))))"

definition projection_snapshot ::
  "xenv \<Rightarrow> ledger_codec \<Rightarrow> ledger_storage \<Rightarrow> ledger_state \<Rightarrow>
   (ledger_error + canonical_projection_snapshot) option" where
  "projection_snapshot x c st s =
     (if lg_poisoned s then Some (Inl WriterPoisoned) else projection_snapshot_from_state x c st s)"

section \<open>Entries and revisions\<close>

definition entry_to_revision :: "memory_entry \<Rightarrow> ledger_error + canonical_revision" where
  "entry_to_revision e =
     res_bind (ensure (en_tenant_id e = DEFAULT_TENANT) (UnsupportedPolicy ''non_default_namespace''))
       (\<lambda>_.
     res_bind (ensure (en_scope e = ScopePrivate) (UnsupportedPolicy ''non_private_scope'')) (\<lambda>_.
     res_bind (ensure (\<not> (en_ttl_ms e \<noteq> None \<or> en_original_ttl_ms e \<noteq> None))
                 (UnsupportedPolicy ''ttl_policy_not_implemented'')) (\<lambda>_.
     res_bind (ensure (en_causal_parent e = None)
                 (UnsupportedPolicy ''relation_log_write_not_implemented'')) (\<lambda>_.
     res_bind (ensure (\<not> (en_supersedes e \<noteq> None \<or> en_superseded_by e \<noteq> None))
                 (LedgerInvalid ''legacy_supersession_state'')) (\<lambda>_.
     Inr \<lparr>rv_schema = REVISION_SCHEMA, rv_sequence = 0, rv_memory_id = en_memory_id e,
          rv_revision_id = en_id e, rv_parent_revision_id = en_parent_revision_id e,
          rv_content = en_content e, rv_content_hash = en_canonical_content_hash e,
          rv_tags = en_tags e, rv_memory_type = en_memory_type e, rv_cognitive_tier = en_tier e,
          rv_deleted_at = en_deleted_at e, rv_committed_at = en_created_at e,
          rv_committed_by_role = en_agent_id e\<rparr>)))))"

definition into_runtime_entry :: "canonical_revision \<Rightarrow> string \<Rightarrow> memory_entry" where
  "into_runtime_entry r origin_role =
     \<lparr>en_id = rv_revision_id r, en_memory_id = rv_memory_id r,
      en_parent_revision_id = rv_parent_revision_id r,
      en_canonical_content_hash = rv_content_hash r, en_agent_id = origin_role,
      en_tenant_id = DEFAULT_TENANT, en_tier = rv_cognitive_tier r, en_content = rv_content r,
      en_importance = 50, en_access_count = 0, en_last_accessed = rv_committed_at r,
      en_created_at = rv_committed_at r, en_tags = rv_tags r, en_ttl_ms = None,
      en_original_ttl_ms = None, en_scope = ScopePrivate, en_memory_type = rv_memory_type r,
      en_causal_parent = None, en_supersedes = None, en_superseded_by = None,
      en_deleted_at = rv_deleted_at r\<rparr>"

section \<open>The invariant of the in-memory state\<close>

definition ledger_inv :: "xenv \<Rightarrow> ledger_state \<Rightarrow> bool" where
  "ledger_inv x s \<longleftrightarrow>
     logs_wf x (lg_revisions s) (lg_policies s)
     \<and> (\<exists>root. lg_root s = Some root
          \<and> lg_view s = Some (view_of (rt_generation root) (lg_revisions s) (lg_policies s)
                               (length (lg_relations s))))"

lemma load_state_inv:
  assumes load: "load_state x c st = Inr s" and law: "faithful (view_codec c)"
  shows "ledger_inv x s"
proof -
  from load obtain ptr root view rs ps ls where l: "loaded x c st ptr root view rs ps ls"
    and s: "s = state_of ptr root view rs ps ls" unfolding load_state_Inr by blast
  have wf: "logs_wf x rs ps" using l by (simp add: loaded_def validate_logs_Inr)
  have len: "length ls = rt_relation_watermark root"
    using l load_segment_chain_length by (auto simp: loaded_def load_logs_Inr)
  have "enc (view_codec c) view = enc (view_codec c)
      (view_of (rt_generation root) rs ps (rt_relation_watermark root))"
    "enc (view_codec c) view \<noteq> None"
    using l by (auto simp: loaded_def loaded_view_matches_def res_simps)
  then have "view = view_of (rt_generation root) rs ps (rt_relation_watermark root)"
    using law unfolding faithful_def by (metis option.exhaust option.inject)
  then show ?thesis using wf len by (simp add: ledger_inv_def s)
qed

lemma commit_records_state:
  assumes "commit_records x c now uuids pf qf st s role tier revs heads = (st', s', r)"
  shows "s' = s \<or> s' = s\<lparr>lg_poisoned := True\<rparr> \<or>
    (\<exists>p. prepare_commit x c now uuids s role tier revs heads = Inr p \<and> s' = published_state p s
         \<and> r = Inr (receipts now p))"
  and "\<And>cs. r = Inr cs \<Longrightarrow> \<exists>p. prepare_commit x c now uuids s role tier revs heads = Inr p
         \<and> s' = published_state p s \<and> cs = receipts now p"
proof -
  have "s' = s \<and> (\<exists>e. r = Inl e) \<or> s' = s\<lparr>lg_poisoned := True\<rparr> \<and> (\<exists>e. r = Inl e) \<or>
    (\<exists>p. prepare_commit x c now uuids s role tier revs heads = Inr p \<and> s' = published_state p s
         \<and> r = Inr (receipts now p))"
  proof (cases "prepare_commit x c now uuids s role tier revs heads")
    case (Inl e)
    then show ?thesis using assms by (auto simp: commit_records_def)
  next
    case (Inr p)
    then have "publish_prepared c now pf qf st s p = (st', s', r)"
      using assms by (simp add: commit_records_def)
    then show ?thesis using Inr by (cases rule: publish_prepared_cases) auto
  qed
  then show "s' = s \<or> s' = s\<lparr>lg_poisoned := True\<rparr> \<or>
    (\<exists>p. prepare_commit x c now uuids s role tier revs heads = Inr p \<and> s' = published_state p s
         \<and> r = Inr (receipts now p))"
    "\<And>cs. r = Inr cs \<Longrightarrow> \<exists>p. prepare_commit x c now uuids s role tier revs heads = Inr p
         \<and> s' = published_state p s \<and> cs = receipts now p" by auto
qed

lemma published_state_inv:
  assumes "ledger_inv x s" and prep: "prepare_commit x c now uuids s role tier revs heads = Inr p"
  shows "ledger_inv x (published_state p s)"
proof -
  obtain root where root: "lg_root s = Some root" using assms(1) by (auto simp: ledger_inv_def)
  show ?thesis
    by (rule prepare_commit_Inr [OF prep root]) (simp add: ledger_inv_def published_state_def)
qed

lemma commit_records_inv:
  assumes "ledger_inv x s"
    and "commit_records x c now uuids pf qf st s role tier revs heads = (st', s', r)"
  shows "ledger_inv x s'"
  using commit_records_state(1) [OF assms(2)] published_state_inv [OF assms(1)] assms(1)
  by (auto simp: ledger_inv_def)

text \<open>Under the invariant the view answers for the logs.\<close>

lemma inv_stream:
  assumes "ledger_inv x s"
  shows "state_stream s m = (if m \<in> rv_memory_id ` set (lg_revisions s)
           then Some (stream_entry (lg_revisions s) (lg_policies s) m) else None)"
    and "stream_for (current_view_of s) m = state_stream s m"
    and "head_for (current_view_of s) m = map_option rv_revision_id (last_opt (stream m (lg_revisions s)))"
  using assms stream_for_view head_for_view
  by (auto simp: ledger_inv_def state_stream_def current_view_of_def)

lemma inv_policy:
  assumes inv: "ledger_inv x s" and m: "m \<in> rv_memory_id ` set (lg_revisions s)"
  obtains p where "last_opt (policy_stream m (lg_policies s)) = Some p" "p \<in> set (lg_policies s)"
    "po_memory_id p = m" "audience_ok p"
    "find_policy s (cs_policy_id (stream_entry (lg_revisions s) (lg_policies s) m)) = Some p"
proof -
  have wf: "logs_wf x (lg_revisions s) (lg_policies s)" using inv by (simp add: ledger_inv_def)
  have ne: "policy_stream m (lg_policies s) \<noteq> []" using logs_wf_policy_stream [OF wf] m by blast
  let ?p = "last (policy_stream m (lg_policies s))"
  have mem: "?p \<in> set (lg_policies s)" "po_memory_id ?p = m"
    using last_in_set [OF ne] by simp_all
  have pwf: "policy_log_wf x (lg_revisions s) (lg_policies s)" using wf by (simp add: logs_wf_def)
  then have "find_policy s (po_policy_id ?p) = Some ?p"
    unfolding find_policy_def by (intro find_unique [OF _ mem(1)]) (simp add: policy_log_wf_def)
  with that [of ?p] ne mem policy_log_wf_audience [OF pwf mem(1)] show thesis
    by (simp add: last_opt_def stream_entry_def)
qed

section \<open>Write authority\<close>

lemma check_batch_writer:
  assumes "check_batch s role tier revs heads = Inr ()" and "r \<in> set revs"
  shows "check_writer s (current_view_of s) role () r = Inr ()"
proof -
  have "res_foldM (check_writer s (current_view_of s) role) () revs = Inr ()"
    using assms(1) by (auto simp: check_batch_def res_simps)
  then show ?thesis
    using assms(2) by (induction revs) (auto simp: res_simps)
qed

lemma check_batch_head:
  assumes "check_batch s role tier revs heads = Inr ()" and "(r, e) \<in> set (zip revs heads)"
  shows "head_matches r e (head_for (current_view_of s) (rv_memory_id r))"
proof -
  have "\<exists>t. res_foldM (check_expected_head (current_view_of s) role tier) {} (zip revs heads) = Inr t"
    using assms(1) by (auto simp: check_batch_def res_simps)
  moreover have "\<exists>t. res_foldM (check_expected_head v role tier) b xs = Inr t \<Longrightarrow> (r, e) \<in> set xs \<Longrightarrow>
      head_matches r e (head_for v (rv_memory_id r))" for v b xs
    by (induction xs arbitrary: b) (auto simp: check_expected_head_def res_simps)
  ultimately show ?thesis using assms(2) by blast
qed

theorem commit_authorised:
  assumes inv: "ledger_inv x s"
    and commit: "commit_records x c now uuids pf qf st s role tier revs heads = (st', s', Inr cs)"
    and r: "(r, ExpectRevision h) \<in> set (zip revs heads)"
  shows "\<exists>p \<in> set (lg_policies s). po_memory_id p = rv_memory_id r
           \<and> (role = po_origin_role_id p \<or> role = PERSONAL_OWNER_ROLE_ID)"
proof -
  obtain p where prep: "prepare_commit x c now uuids s role tier revs heads = Inr p"
    using commit_records_state(2) [OF commit refl] by blast
  have batch: "check_batch s role tier revs heads = Inr ()"
    using prep by (auto simp: prepare_commit_def res_simps)
  have head: "head_for (current_view_of s) (rv_memory_id r) = Some h"
    using check_batch_head [OF batch r] by (simp add: head_matches_def)
  then have m: "rv_memory_id r \<in> rv_memory_id ` set (lg_revisions s)"
    using inv_stream(1,2) [OF inv, of "rv_memory_id r"] by (simp add: head_for_def split: if_splits)
  obtain q where q: "q \<in> set (lg_policies s)" "po_memory_id q = rv_memory_id r" "audience_ok q"
    "find_policy s (cs_policy_id (stream_entry (lg_revisions s) (lg_policies s) (rv_memory_id r))) = Some q"
    using inv_policy [OF inv m] by metis
  have "check_writer s (current_view_of s) role () r = Inr ()"
    using check_batch_writer [OF batch] r by (meson set_zip_leftD)
  then have "role \<in> set (po_writer_roles q)"
    using head q(4) m inv_stream(1,2) [OF inv, of "rv_memory_id r"]
    by (simp add: check_writer_def find_policy_def res_simps)
  then show ?thesis using q(1-3) by (auto simp: audience_ok_def)
qed

section \<open>What a commit changes\<close>

lemma check_expected_head_Inr:
  "check_expected_head v role tier b (r, e) = Inr t \<longleftrightarrow>
     rv_cognitive_tier r = tier \<and> (e = ExpectAbsent \<longrightarrow> rv_committed_by_role r = role)
     \<and> rv_memory_id r \<notin> b \<and> head_matches r e (head_for v (rv_memory_id r))
     \<and> t = insert (rv_memory_id r) b"
  by (auto simp: check_expected_head_def res_simps)

lemma expected_heads_distinct:
  "res_foldM (check_expected_head v role tier) b xs = Inr t \<Longrightarrow>
     distinct (map (rv_memory_id \<circ> fst) xs) \<and> (\<forall>m \<in> b. m \<notin> (rv_memory_id \<circ> fst) ` set xs)"
proof (induction xs arbitrary: b)
  case Nil
  then show ?case by simp
next
  case (Cons y xs)
  obtain r e where y: "y = (r, e)" by force
  have r: "rv_memory_id r \<notin> b"
    and rest: "res_foldM (check_expected_head v role tier) (insert (rv_memory_id r) b) xs = Inr t"
    using Cons.prems unfolding y res_foldM.simps res_bind_eq_Inr check_expected_head_Inr by auto
  show ?case using Cons.IH [OF rest] r by (auto simp: y)
qed

lemma check_batch_distinct:
  assumes "check_batch s role tier revs heads = Inr ()"
  shows "distinct (map rv_memory_id revs)" and "length revs = length heads"
proof -
  obtain t where t: "res_foldM (check_expected_head (current_view_of s) role tier) {} (zip revs heads) = Inr t"
    and len: "length revs = length heads"
    using assms by (auto simp: check_batch_def res_simps)
  have "map (rv_memory_id \<circ> fst) (zip revs heads) = map rv_memory_id revs"
    using len by (simp flip: map_map)
  then show "distinct (map rv_memory_id revs)" using expected_heads_distinct [OF t] by simp
  show "length revs = length heads" by (rule len)
qed

lemma stamp_revision_ids [simp]:
  "rv_revision_id (stamp_revision role now n r) = rv_revision_id r"
  "rv_memory_id (stamp_revision role now n r) = rv_memory_id r"
  "rv_sequence (stamp_revision role now n r) = n"
  by (simp_all add: stamp_revision_def)

lemma stamp_revisions_Cons [simp]:
  "stamp_revisions role now n (r # rs) = stamp_revision role now n r # stamp_revisions role now (Suc n) rs"
  by (simp add: stamp_revisions_def)

lemma stamp_revisions_Nil [simp]: "stamp_revisions role now n [] = []"
  by (simp add: stamp_revisions_def)

lemma map_stamp_revisions [simp]:
  "map rv_revision_id (stamp_revisions role now n rs) = map rv_revision_id rs"
  "map rv_memory_id (stamp_revisions role now n rs) = map rv_memory_id rs"
  "map rv_sequence (stamp_revisions role now n rs) = [n ..< n + length rs]"
  by (induction rs arbitrary: n) (simp_all add: upt_conv_Cons del: upt_Suc)

lemma stream_stamp_revisions:
  assumes "distinct (map rv_memory_id rs)"
  shows "map rv_revision_id (stream m (stamp_revisions role now n rs))
    = map rv_revision_id (filter (\<lambda>r. rv_memory_id r = m) rs)"
  by (induction rs arbitrary: n) simp_all

lemma filter_key_distinct:
  assumes "distinct (map f xs)" and "x \<in> set xs"
  shows "filter (\<lambda>y. f y = f x) xs = [x]"
  using assms by (induction xs) (auto simp: image_iff filter_empty_conv)

lemma last_opt_map_append:
  "map_option f (last_opt (xs @ ys)) =
     (case last_opt (map f ys) of None \<Rightarrow> map_option f (last_opt xs) | Some y \<Rightarrow> Some y)"
  by (simp add: last_opt_append last_opt_map split: option.splits)

theorem commit_effect:
  assumes inv: "ledger_inv x s"
    and commit: "commit_records x c now uuids pf qf st s role tier revs heads = (st', s', Inr cs)"
  shows "lg_revisions s' = lg_revisions s
           @ stamp_revisions role now (length (lg_revisions s) + 1) revs"
    and "map cm_revision_id cs = map rv_revision_id revs"
    and "map cm_revision_sequence cs = [length (lg_revisions s) + 1 ..< length (lg_revisions s) + 1 + length revs]"
    and "\<forall>m. head_for (current_view_of s') m =
           (case find (\<lambda>r. rv_memory_id r = m) revs of
              Some r \<Rightarrow> Some (rv_revision_id r)
            | None \<Rightarrow> head_for (current_view_of s) m)"
proof -
  obtain p where prep: "prepare_commit x c now uuids s role tier revs heads = Inr p"
    and s': "s' = published_state p s" and cs: "cs = receipts now p"
    using commit_records_state(2) [OF commit refl] by blast
  obtain root where root: "lg_root s = Some root" using inv by (auto simp: ledger_inv_def)
  from prepare_commit_Inr [OF prep root] have
    new: "pc_new_revisions p = stamp_revisions role now (length (lg_revisions s) + 1) revs"
    and all: "pc_revisions p = lg_revisions s @ pc_new_revisions p"
    and batch: "check_batch s role tier revs heads = Inr ()" by metis+
  show revs: "lg_revisions s' = lg_revisions s
      @ stamp_revisions role now (length (lg_revisions s) + 1) revs"
    using s' new all by (simp add: published_state_def)
  show "map cm_revision_id cs = map rv_revision_id revs"
    using cs new map_stamp_revisions(1) by (simp add: receipts_def comp_def)
  show "map cm_revision_sequence cs = [length (lg_revisions s) + 1 ..< length (lg_revisions s) + 1 + length revs]"
    using cs new map_stamp_revisions(3) [of role now "length (lg_revisions s) + 1" revs]
    by (simp add: receipts_def comp_def)
  have d: "distinct (map rv_memory_id revs)" using check_batch_distinct [OF batch] by simp
  have inv': "ledger_inv x s'" using commit_records_inv [OF inv commit] .
  show "\<forall>m. head_for (current_view_of s') m =
      (case find (\<lambda>r. rv_memory_id r = m) revs of
         Some r \<Rightarrow> Some (rv_revision_id r) | None \<Rightarrow> head_for (current_view_of s) m)"
  proof
    fix m
    show "head_for (current_view_of s') m =
      (case find (\<lambda>r. rv_memory_id r = m) revs of
         Some r \<Rightarrow> Some (rv_revision_id r) | None \<Rightarrow> head_for (current_view_of s) m)"
    proof (cases "find (\<lambda>r. rv_memory_id r = m) revs")
      case None
      then have "filter (\<lambda>r. rv_memory_id r = m) revs = []" by (simp add: find_None_iff_filter)
      then have "map rv_revision_id (stream m (stamp_revisions role now (length (lg_revisions s) + 1) revs)) = []"
        by (simp only: stream_stamp_revisions [OF d] list.map)
      then show ?thesis
        using None inv_stream(3) [OF inv] inv_stream(3) [OF inv'] revs
        by (simp add: last_opt_append)
    next
      case (Some r)
      then have r: "r \<in> set revs" "rv_memory_id r = m" by (auto dest: find_Some_in)
      then have "map rv_revision_id (stream m (stamp_revisions role now (length (lg_revisions s) + 1) revs))
          = [rv_revision_id r]"
        using stream_stamp_revisions [OF d] filter_key_distinct [OF d r(1)] by simp
      then show ?thesis
        using Some inv_stream(3) [OF inv'] revs
        by (simp add: last_opt_map_append) (simp add: last_opt_def)
    qed
  qed
qed

section \<open>Optimistic concurrency\<close>

theorem stale_commit_conflicts:
  assumes inv: "ledger_inv x s"
    and commit: "commit_records x c now uuids pf qf st s role tier revs heads = (st', s', Inr cs)"
    and r: "(r, e) \<in> set (zip revs heads)"
    and second: "rv_memory_id r2 = rv_memory_id r" "rv_cognitive_tier r2 = tier2" "tier2 \<noteq> Ephemeral"
      "e = ExpectAbsent \<longrightarrow> rv_committed_by_role r2 = role2"
  shows "commit_expected x c now2 uuids2 pf2 qf2 st' s' role2 tier2 e r2
    = (st', s', Inl (HeadConflict (rv_memory_id r) e (Some (rv_revision_id r))))"
proof -
  obtain p where prep: "prepare_commit x c now uuids s role tier revs heads = Inr p"
    and s': "s' = published_state p s"
    using commit_records_state(2) [OF commit refl] by blast
  have batch: "check_batch s role tier revs heads = Inr ()"
    using prep by (auto simp: prepare_commit_def res_simps)
  have mem: "r \<in> set revs" using r by (meson set_zip_leftD)
  have live: "\<not> lg_poisoned s'"
    using batch s' by (auto simp: check_batch_def res_simps published_state_def)
  have find: "find (\<lambda>t. rv_memory_id t = rv_memory_id r) revs = Some r"
    using check_batch_distinct(1) [OF batch] mem by (rule find_unique)
  have head': "head_for (current_view_of s') (rv_memory_id r) = Some (rv_revision_id r)"
    using commit_effect(4) [OF inv commit] find by simp
  have "\<not> head_matches r2 e (Some (rv_revision_id r))"
  proof (cases e)
    case ExpectAbsent
    then show ?thesis by (simp add: head_matches_def)
  next
    case (ExpectRevision h)
    then have "head_for (current_view_of s) (rv_memory_id r) = Some h"
      using check_batch_head [OF batch r] by (simp add: head_matches_def)
    then obtain t where t: "last_opt (stream (rv_memory_id r) (lg_revisions s)) = Some t"
      "rv_revision_id t = h"
      using inv_stream(3) [OF inv] by auto
    then have "t \<in> set (stream (rv_memory_id r) (lg_revisions s))"
      by (metis last_in_set last_opt_eq_Some)
    then have old: "h \<in> set (map rv_revision_id (lg_revisions s))" using t(2) by auto
    have "distinct (map rv_revision_id (lg_revisions s'))"
      using commit_records_inv [OF inv commit]
      by (simp add: ledger_inv_def logs_wf_def revision_log_wf_def)
    then have "h \<notin> set (map rv_revision_id revs)"
      using old commit_effect(1) [OF inv commit] map_stamp_revisions(1)
      by (metis disjoint_iff distinct_append map_append)
    then have "h \<noteq> rv_revision_id r" using mem by auto
    then show ?thesis by (simp add: head_matches_def ExpectRevision)
  qed
  then have "check_expected_head (current_view_of s') role2 tier2 {} (r2, e)
      = Inl (HeadConflict (rv_memory_id r) e (Some (rv_revision_id r)))"
    using second head' by (simp add: check_expected_head_def)
  then have "check_batch s' role2 tier2 [r2] [e]
      = Inl (HeadConflict (rv_memory_id r) e (Some (rv_revision_id r)))"
    using live second(3) by (simp add: check_batch_def)
  then show ?thesis by (simp add: commit_expected_def commit_records_def prepare_commit_def)
qed

section \<open>Visibility\<close>

text \<open>The revisions a role may read: heads that are not deleted under a policy naming the role.\<close>

definition visible :: "ledger_state \<Rightarrow> string \<Rightarrow> string \<Rightarrow> bool" where
  "visible s role i \<longleftrightarrow>
     (\<exists>r p. last_opt (stream (rv_memory_id r) (lg_revisions s)) = Some r
        \<and> last_opt (policy_stream (rv_memory_id r) (lg_policies s)) = Some p
        \<and> rv_deleted_at r = None \<and> role \<in> set (po_reader_roles p) \<and> i = rv_revision_id r)"

lemma inv_streams:
  assumes "ledger_inv x s"
  obtains view where "lg_view s = Some view" "cv_streams view =
    map (stream_entry (lg_revisions s) (lg_policies s)) (sorted_list_of_set (rv_memory_id ` set (lg_revisions s)))"
  using assms by (auto simp: ledger_inv_def view_of_def)

theorem readable_active_revision_ids_spec:
  assumes inv: "ledger_inv x s"
  shows "\<exists>ids. readable_active_revision_ids s role = Inr ids \<and> sorted ids
           \<and> set ids = {i. visible s role i}"
proof -
  obtain view where view: "lg_view s = Some view" and streams: "cv_streams view =
    map (stream_entry (lg_revisions s) (lg_policies s)) (sorted_list_of_set (rv_memory_id ` set (lg_revisions s)))"
    using inv_streams [OF inv] .
  let ?pick = "\<lambda>t. case find_policy s (cs_policy_id t) of
      Some policy \<Rightarrow> if role \<in> set (po_reader_roles policy) then Some (cs_head_revision_id t) else None
    | None \<Rightarrow> None"
  let ?ids = "List.map_filter ?pick (filter (\<lambda>t. \<not> cs_deleted t) (cv_streams view))"
  have "i \<in> set ?ids \<longleftrightarrow> visible s role i" for i
  proof
    assume "i \<in> set ?ids"
    then obtain t where t: "t \<in> set (cv_streams view)" "\<not> cs_deleted t" "?pick t = Some i"
      by (auto simp: map_filter_def)
    then obtain m where m: "m \<in> rv_memory_id ` set (lg_revisions s)"
      "t = stream_entry (lg_revisions s) (lg_policies s) m"
      using streams by auto
    obtain p where p: "last_opt (policy_stream m (lg_policies s)) = Some p" "find_policy s (cs_policy_id t) = Some p"
      using inv_policy [OF inv m(1)] m(2) by metis
    have ne: "stream m (lg_revisions s) \<noteq> []" using m(1) by (auto simp: stream_def filter_empty_conv)
    let ?r = "last (stream m (lg_revisions s))"
    have "rv_memory_id ?r = m" using last_in_set [OF ne] by simp
    then show "visible s role i"
      using t p ne m(2) unfolding visible_def
      by (intro exI [of _ ?r] exI [of _ p]) (auto simp: last_opt_def stream_entry_def split: if_splits)
  next
    assume "visible s role i"
    then obtain r p where r: "last_opt (stream (rv_memory_id r) (lg_revisions s)) = Some r"
      "last_opt (policy_stream (rv_memory_id r) (lg_policies s)) = Some p"
      "rv_deleted_at r = None" "role \<in> set (po_reader_roles p)" "i = rv_revision_id r"
      unfolding visible_def by blast
    have "stream (rv_memory_id r) (lg_revisions s) \<noteq> []" "r = last (stream (rv_memory_id r) (lg_revisions s))"
      using r(1) by (auto simp: last_opt_eq_Some)
    then have "r \<in> set (stream (rv_memory_id r) (lg_revisions s))" by (metis last_in_set)
    then have mem: "rv_memory_id r \<in> rv_memory_id ` set (lg_revisions s)" by simp
    let ?t = "stream_entry (lg_revisions s) (lg_policies s) (rv_memory_id r)"
    have "find_policy s (cs_policy_id ?t) = Some p" using inv_policy [OF inv mem] r(2) by (metis option.inject)
    then have "?pick ?t = Some i"
      using r \<open>r = last (stream (rv_memory_id r) (lg_revisions s))\<close> by (simp add: stream_entry_def)
    moreover have "?t \<in> set (filter (\<lambda>t. \<not> cs_deleted t) (cv_streams view))"
      using mem r(3) streams \<open>r = last (stream (rv_memory_id r) (lg_revisions s))\<close>
      by (auto simp: stream_entry_def)
    ultimately show "i \<in> set ?ids" by (force simp: map_filter_def)
  qed
  then have "set ?ids = {i. visible s role i}" by auto
  then show ?thesis
    using view by (intro exI [of _ "sort ?ids"]) (simp add: readable_active_revision_ids_def)
qed

text \<open>The personal owner and the origin of a memory always see its live head.\<close>

lemma owner_and_origin_see:
  assumes inv: "ledger_inv x s"
    and r: "last_opt (stream (rv_memory_id r) (lg_revisions s)) = Some r" "rv_deleted_at r = None"
    and p: "p \<in> set (lg_policies s)" "po_memory_id p = rv_memory_id r"
    and role: "role \<in> {PERSONAL_OWNER_ROLE_ID, po_origin_role_id p}"
  shows "visible s role (rv_revision_id r)"
proof -
  have "r \<in> set (stream (rv_memory_id r) (lg_revisions s))"
    using r(1) by (metis last_in_set last_opt_eq_Some)
  then have mem: "rv_memory_id r \<in> rv_memory_id ` set (lg_revisions s)" by simp
  obtain q where q: "last_opt (policy_stream (rv_memory_id r) (lg_policies s)) = Some q"
    "q \<in> set (lg_policies s)" "po_memory_id q = rv_memory_id r" "audience_ok q"
    using inv_policy [OF inv mem] by metis
  have "po_origin_role_id q = po_origin_role_id p"
    using policy_log_wf_same_origin inv q p unfolding ledger_inv_def logs_wf_def by metis
  then have "role \<in> set (po_reader_roles q)" using q(4) role by (auto simp: audience_ok_def)
  then show ?thesis unfolding visible_def using r q by blast
qed

text \<open>
  Only the origin role and the personal owner get write access, and the answer names the origin.
\<close>

lemma origin_for_revision_write:
  assumes inv: "ledger_inv x s" and found: "find_revision s i = Some r"
    and p: "p \<in> set (lg_policies s)" "po_memory_id p = rv_memory_id r"
  shows "origin_for_revision s role i True =
    Inr (if role \<in> {po_origin_role_id p, PERSONAL_OWNER_ROLE_ID} then Some (po_origin_role_id p) else None)"
proof -
  have "r \<in> set (lg_revisions s)" using found by (auto simp: find_revision_def dest: find_Some_in)
  then have mem: "rv_memory_id r \<in> rv_memory_id ` set (lg_revisions s)" by simp
  obtain q where q: "q \<in> set (lg_policies s)" "po_memory_id q = rv_memory_id r" "audience_ok q"
    "find_policy s (cs_policy_id (stream_entry (lg_revisions s) (lg_policies s) (rv_memory_id r))) = Some q"
    using inv_policy [OF inv mem] by metis
  have "po_origin_role_id q = po_origin_role_id p"
    using policy_log_wf_same_origin inv q p unfolding ledger_inv_def logs_wf_def by metis
  then show ?thesis
    using found mem q inv_stream(1) [OF inv, of "rv_memory_id r"]
    by (simp add: origin_for_revision_def audience_ok_def)
qed

definition owned_revisions :: "ledger_state \<Rightarrow> string \<Rightarrow> canonical_revision list" where
  "owned_revisions s role = filter (\<lambda>r. rv_memory_id r \<in>
     set (map po_memory_id (filter (\<lambda>p. po_origin_role_id p = role) (lg_policies s)))) (lg_revisions s)"

lemma owned_revisions_mem:
  "r \<in> set (owned_revisions s role) \<longleftrightarrow> r \<in> set (lg_revisions s)
     \<and> (\<exists>q \<in> set (lg_policies s). po_origin_role_id q = role \<and> po_memory_id q = rv_memory_id r)"
proof -
  have "m \<in> set (map f (filter P qs)) \<longleftrightarrow> (\<exists>q \<in> set qs. P q \<and> f q = m)" for m :: string and f P and qs :: "policy_record list"
    by (induction qs) auto
  then show ?thesis unfolding owned_revisions_def by simp
qed

lemma rebuild_origin_role_tier:
  "(t, rs) \<in> set (rebuild_origin_role s role) \<longleftrightarrow>
     t \<in> {Working, LongTerm, Procedural} \<and> rs \<noteq> []
     \<and> rs = filter (\<lambda>r. rv_cognitive_tier r = t) (owned_revisions s role)"
proof -
  have "rebuild_origin_role s role =
      List.map_filter (\<lambda>t. map_option (Pair t) (revisions_of_tier (owned_revisions s role) t))
        [Working, LongTerm, Procedural]"
    by (simp add: rebuild_origin_role_def owned_revisions_def Let_def)
  then have "(t, rs) \<in> set (rebuild_origin_role s role) \<longleftrightarrow> t \<in> {Working, LongTerm, Procedural}
      \<and> revisions_of_tier (owned_revisions s role) t = Some rs"
    by (auto simp: map_filter_def)
  then show ?thesis by (auto simp: revisions_of_tier_def Let_def)
qed

text \<open>Rebuilding role by role returns every durable revision to exactly one role.\<close>

lemma rebuild_origin_role_mem:
  assumes inv: "ledger_inv x s" and r: "r \<in> set (lg_revisions s)" and tier: "rv_cognitive_tier r \<noteq> Ephemeral"
    and p: "p \<in> set (lg_policies s)" "po_memory_id p = rv_memory_id r"
  shows "(\<exists>rs. (rv_cognitive_tier r, rs) \<in> set (rebuild_origin_role s role) \<and> r \<in> set rs)
    \<longleftrightarrow> role = po_origin_role_id p"
proof -
  have same: "po_origin_role_id q = po_origin_role_id p"
    if "q \<in> set (lg_policies s)" "po_memory_id q = rv_memory_id r" for q
    using policy_log_wf_same_origin inv that p unfolding ledger_inv_def logs_wf_def by metis
  have "(\<exists>rs. (rv_cognitive_tier r, rs) \<in> set (rebuild_origin_role s role) \<and> r \<in> set rs) \<longleftrightarrow>
      r \<in> set (owned_revisions s role)"
  proof
    assume "r \<in> set (owned_revisions s role)"
    then have "r \<in> set (filter (\<lambda>t. rv_cognitive_tier t = rv_cognitive_tier r) (owned_revisions s role))"
      by simp
    moreover from this have "filter (\<lambda>t. rv_cognitive_tier t = rv_cognitive_tier r) (owned_revisions s role) \<noteq> []"
      by (metis empty_iff empty_set)
    moreover have "rv_cognitive_tier r \<in> {Working, LongTerm, Procedural}"
      using tier by (cases "rv_cognitive_tier r") simp_all
    ultimately show "\<exists>rs. (rv_cognitive_tier r, rs) \<in> set (rebuild_origin_role s role) \<and> r \<in> set rs"
      unfolding rebuild_origin_role_tier by blast
  next
    assume "\<exists>rs. (rv_cognitive_tier r, rs) \<in> set (rebuild_origin_role s role) \<and> r \<in> set rs"
    then show "r \<in> set (owned_revisions s role)" unfolding rebuild_origin_role_tier by auto
  qed
  also have "\<dots> \<longleftrightarrow> (\<exists>q \<in> set (lg_policies s). po_origin_role_id q = role \<and> po_memory_id q = rv_memory_id r)"
    using r owned_revisions_mem by blast
  also have "\<dots> \<longleftrightarrow> role = po_origin_role_id p" using same p by blast
  finally show ?thesis .
qed

section \<open>Entries and revisions agree\<close>

theorem entry_revision_round_trip:
  assumes "entry_to_revision e = Inr r"
  shows "into_runtime_entry r (en_agent_id e) =
    e\<lparr>en_importance := 50, en_access_count := 0, en_last_accessed := en_created_at e\<rparr>"
  using assms by (cases e) (auto simp: entry_to_revision_def into_runtime_entry_def res_simps)

lemma revision_entry_round_trip:
  "entry_to_revision (into_runtime_entry r origin) =
     Inr (r\<lparr>rv_schema := REVISION_SCHEMA, rv_sequence := 0, rv_committed_by_role := origin\<rparr>)"
  by (simp add: entry_to_revision_def into_runtime_entry_def)

section \<open>The projection snapshot returns\<close>

lemma root_chain_walk_path:
  "root_path x c st (rt_previous_root_hash root) p \<Longrightarrow> root_chain_walk x c st root = Some (Inr p)"
proof (induction p arbitrary: root)
  case Nil
  then show ?case by (subst root_chain_walk.simps) simp
next
  case (Cons a p)
  obtain h r where a: "a = (h, r)" by force
  with Cons show ?case by (subst root_chain_walk.simps) simp
qed

theorem projection_snapshot_returns:
  assumes "load_state x c st = Inr s"
  shows "\<exists>snap. projection_snapshot x c st s = Some (Inr snap)
    \<and> rt_previous_root_hash (sp_genesis_root snap) = None
    \<and> sp_revisions snap = lg_revisions s
    \<and> last (sp_root_chain snap) = (sp_root_hash snap, sp_root snap)
    \<and> Some (sp_root snap) = lg_root s"
proof -
  from assms obtain ptr root view rs ps ls where l: "loaded x c st ptr root view rs ps ls"
    and s: "s = state_of ptr root view rs ps ls" unfolding load_state_Inr by blast
  obtain p where p: "root_path x c st (Some (ap_root_hash ptr)) ((ap_root_hash ptr, root) # p)"
    using l root_chain_loop_path unfolding loaded_def validate_root_chain_def by blast
  have walk: "root_chain_walk x c st root = Some (Inr p)"
    using p by (intro root_chain_walk_path) simp
  have last: "rt_previous_root_hash (snd (last ((h, r) # q))) = None"
    if "root_path x c st n ((h, r) # q)" for n h r q
    using that by (induction q arbitrary: n h r) auto
  have "rt_previous_root_hash (snd (hd (rev ((ap_root_hash ptr, root) # p)))) = None"
    using last [OF p] by (simp add: hd_rev del: rev.simps)
  then show ?thesis
    using walk by (simp add: projection_snapshot_def projection_snapshot_from_state_def s Let_def)
qed

end
