(* ===== verification/Ledger_Progress.thy ===== *)
theory Ledger_Progress
  imports Ledger_Access
begin

text \<open>
  The ledger makes progress: a fresh store opens as the empty ledger, and a well-formed request
  is accepted.  These are the converses of the safety results: the validators reject nothing that
  the write path produces.
\<close>

section \<open>Genesis\<close>

lemma logs_wf_Nil [simp]: "logs_wf x [] []"
  by (simp add: logs_wf_def policy_log_wf_def)

lemma view_of_Nil [simp]: "view_of g [] [] w = empty_view\<lparr>cv_generation := g, cv_relation_watermark := w\<rparr>"
  by (simp add: view_of_def empty_view_def)

lemma load_segment_chain_Nil [simp]: "load_segment_chain x k st None 0 = Inr []"
  by (simp add: load_segment_chain_def)

lemma genesis_loaded:
  assumes view: "read_view x c st vh = Inr empty_view" "enc (view_codec c) empty_view \<noteq> None"
    and root: "read_root x c st rh = Inr (genesis_root vh)"
    and ptr: "read_pointer c st = Inr \<lparr>ap_schema = ROOT_POINTER_SCHEMA, ap_root_hash = rh\<rparr>"
  shows "loaded x c st \<lparr>ap_schema = ROOT_POINTER_SCHEMA, ap_root_hash = rh\<rparr> (genesis_root vh) empty_view [] [] []"
proof -
  have logs: "load_logs x c st (genesis_root vh) = Inr ([], [], [])"
    by (simp add: load_logs_def genesis_root_def)
  have valid: "validate_logs x [] [] [] = Inr ()"
    by (simp add: validate_logs_Inr validate_relations_def)
  have view0: "empty_view\<lparr>cv_generation := 0, cv_relation_watermark := 0\<rparr> = empty_view"
    by (simp add: empty_view_def)
  have wm: "watermarks_match (genesis_root vh) empty_view"
    by (simp add: watermarks_match_def genesis_root_def empty_view_def)
  have rebuild: "rebuild_current_view 0 [] [] 0 = Inr empty_view"
    using rebuild_current_view_ok [OF logs_wf_Nil] view0 by simp
  have sel: "rt_generation (genesis_root vh) = 0" "rt_relation_watermark (genesis_root vh) = 0"
    "rt_current_view_hash (genesis_root vh) = vh" "rt_migration_manifest_hash (genesis_root vh) = None"
    "rt_schema (genesis_root vh) = ROOT_SCHEMA" "rt_previous_root_hash (genesis_root vh) = None"
    "is_genesis_root (genesis_root vh)"
    by (simp_all add: genesis_root_def is_genesis_root_def)
  have "validate_root_snapshot x c st (genesis_root vh) = Inr ()"
    using view logs valid rebuild wm sel
    by (auto simp: validate_root_snapshot_def verify_migration_manifest_objects_def
        historical_view_matches_def)
  then have "validate_root_chain x c st rh (genesis_root vh) = Inr ()"
    using sel by (simp add: validate_root_chain_def enter_root_def)
  then show ?thesis
    using view logs valid wm sel root ptr view0
    by (auto simp: loaded_def loaded_view_matches_def)
qed

theorem genesis_opens_empty:
  assumes laws: "codec_laws c" and fresh: "read_active st = None"
    and opened: "ensure_genesis x c pf qf st = (st', Inr ())"
  shows "\<exists>s. load_state x c st' = Inr s \<and> lg_revisions s = [] \<and> lg_policies s = [] \<and> lg_relations s = []
           \<and> lg_view s = Some empty_view \<and> \<not> lg_poisoned s"
proof -
  obtain vb vh rb rh where
    vb: "canonical_bytes_and_hash x (enc (view_codec c)) VIEW_DOMAIN empty_view = Inr (vb, vh)"
    and rb: "canonical_bytes_and_hash x (enc (root_codec c)) ROOT_DOMAIN (genesis_root vh) = Inr (rb, rh)"
    and prep: "prepare_genesis x c st = Inr (rh, [(vh, vb), (rh, rb)])"
  proof -
    have "\<exists>g. prepare_genesis x c st = Inr g"
      using opened fresh by (cases "prepare_genesis x c st") (simp_all add: ensure_genesis_def)
    then show thesis using that by (auto simp: prepare_genesis_def res_simps)
  qed
  obtain st1 q where put: "put_seq (\<lambda>h. put_immutable (pf h) h) [(vh, vb), (rh, rb)] st = (st1, q)"
    by force
  let ?ptr = "\<lparr>ap_schema = ROOT_POINTER_SCHEMA, ap_root_hash = rh\<rparr>"
  obtain u where q: "q = Inr u" using opened fresh prep put
    by (cases q) (simp_all add: ensure_genesis_def del: put_seq.simps)
  obtain bytes where bytes: "enc (pointer_codec c) ?ptr = Some bytes"
    using opened fresh prep put q
    by (cases "enc (pointer_codec c) ?ptr") (simp_all add: ensure_genesis_def del: put_seq.simps)
  obtain r where pub: "publish_active qf bytes st1 = (st', r)" and r: "r \<noteq> Inl StorageIo"
    using opened fresh prep put q bytes
    by (auto simp: ensure_genesis_def simp del: put_seq.simps split: prod.splits)
  have objs: "get_immutable st' = get_immutable st1"
    using publish_active_objects [OF pub] by (rule get_immutable_objects)
  have put': "put_seq (\<lambda>h. put_immutable (pf h) h) [(vh, vb), (rh, rb)] st = (st1, Inr ())"
    using put q by simp
  have "get_immutable st' vh = Inr vb" "get_immutable st' rh = Inr rb"
    using immutable.put_seq_reads [OF put', of vh vb] immutable.put_seq_reads [OF put', of rh rb] objs
    by (simp_all add: object_bytes_get)
  moreover have "read_pointer c st' = Inr ?ptr"
  proof -
    have "ls_active st' = bytes" using publish_active_atomic(2) [OF pub] r by simp
    moreover have "dec (pointer_codec c) bytes = Some ?ptr"
      using laws bytes by (simp add: codec_laws_def faithful_def)
    moreover from this have "bytes \<noteq> []" using laws by (auto simp: codec_laws_def)
    ultimately show ?thesis using bytes by (simp add: read_pointer_def read_active_def)
  qed
  moreover have "enc (view_codec c) empty_view \<noteq> None"
    using vb by (simp add: canonical_bytes_and_hash_Inr)
  ultimately have "loaded x c st' ?ptr (genesis_root vh) empty_view [] [] []"
    using laws vb rb by (intro genesis_loaded read_written_view read_written_root) (auto simp: codec_laws_def)
  then have "load_state x c st' = Inr (state_of ?ptr (genesis_root vh) empty_view [] [] [])"
    unfolding load_state_Inr by blast
  then show ?thesis by simp
qed

section \<open>More revisions never invalidate old policies\<close>

lemma sequence_by_revision_append:
  "sequence_by_revision (rs @ [r]) =
     (sequence_by_revision rs)(rv_revision_id r \<mapsto> rv_sequence r)"
  by (simp add: sequence_by_revision_def)

lemma root_by_memory_append:
  "root_by_memory (rs @ [r]) =
     (if rv_parent_revision_id r = None
      then (root_by_memory rs)(rv_memory_id r \<mapsto> rv_revision_id r) else root_by_memory rs)"
  by (simp add: root_by_memory_def)

lemma sequence_by_revision_Some: "i \<in> rv_revision_id ` set rs \<Longrightarrow> sequence_by_revision rs i \<noteq> None"
  by (simp add: sequence_by_revision_def collect_map_None image_image)

lemma policy_record_ok_effective:
  assumes "policy_record_ok x rs n p"
  obtains r where "r \<in> set rs" "rv_revision_id r = po_effective_from_revision_id p"
    "rv_memory_id r = po_memory_id p"
  using assms by (auto simp: policy_record_ok_def dest!: find_Some_in)

lemma policy_log_effective:
  assumes "\<forall>i < length ps. policy_record_ok x rs i (ps ! i)" and "p \<in> set ps"
  obtains r where "r \<in> set rs" "rv_revision_id r = po_effective_from_revision_id p"
    "rv_memory_id r = po_memory_id p"
proof -
  obtain i where "i < length ps" "p = ps ! i" using assms(2) by (auto simp: in_set_conv_nth)
  then have "policy_record_ok x rs i p" using assms(1) by simp
  then show thesis using that by (rule policy_record_ok_effective)
qed

lemma policy_record_ok_append:
  "policy_record_ok x rs n p \<Longrightarrow> policy_record_ok x (rs @ [r]) n p"
  by (auto simp: policy_record_ok_def find_append)

lemma root_memory_fresh:
  assumes "revision_log_wf x (rs @ [r])" and "rv_parent_revision_id r = None" and "s \<in> set rs"
  shows "rv_memory_id s \<noteq> rv_memory_id r"
proof
  assume "rv_memory_id s = rv_memory_id r"
  then have ne: "stream (rv_memory_id r) rs \<noteq> []" using assms(3) by (auto simp: stream_def filter_empty_conv)
  have "admissible x rs r" using assms(1) by (simp add: revision_log_wf_snoc)
  then have "revises x (last (stream (rv_memory_id r) rs)) r"
    using ne by (simp add: admissible_def last_opt_def)
  then show False using assms(2) by (simp add: revises_def)
qed

lemma policies_survive:
  assumes wf: "logs_wf x rs ps" and more: "revision_log_wf x (rs @ [r])"
  shows "\<forall>i < length ps. policy_record_ok x (rs @ [r]) i (ps ! i)"
    and "\<forall>m. chained (policy_initial (rs @ [r])) (policy_follows (rs @ [r])) (policy_stream m ps)"
proof -
  have ok: "\<forall>i < length ps. policy_record_ok x rs i (ps ! i)"
    and chains: "chained (policy_initial rs) (policy_follows rs) (policy_stream m ps)" for m
    using wf by (simp_all add: logs_wf_def policy_log_wf_def)
  show "\<forall>i < length ps. policy_record_ok x (rs @ [r]) i (ps ! i)"
    using ok policy_record_ok_append by blast
  have seq: "sequence_by_revision (rs @ [r]) (po_effective_from_revision_id p)
      = sequence_by_revision rs (po_effective_from_revision_id p)"
    and root: "root_by_memory (rs @ [r]) (po_memory_id p) = root_by_memory rs (po_memory_id p)"
    if mem: "p \<in> set ps" for p
  proof -
    obtain t where t: "t \<in> set rs" "rv_revision_id t = po_effective_from_revision_id p"
      "rv_memory_id t = po_memory_id p"
      using ok mem by (rule policy_log_effective)
    have "rv_revision_id r \<noteq> rv_revision_id t"
      using more t(1) by (auto simp: revision_log_wf_snoc admissible_def)
    then show "sequence_by_revision (rs @ [r]) (po_effective_from_revision_id p)
      = sequence_by_revision rs (po_effective_from_revision_id p)"
      using t(2) by (simp add: sequence_by_revision_append)
    show "root_by_memory (rs @ [r]) (po_memory_id p) = root_by_memory rs (po_memory_id p)"
      using root_memory_fresh [OF more _ t(1)] t(3) by (auto simp: root_by_memory_append)
  qed
  show "\<forall>m. chained (policy_initial (rs @ [r])) (policy_follows (rs @ [r])) (policy_stream m ps)"
  proof
    fix m
    show "chained (policy_initial (rs @ [r])) (policy_follows (rs @ [r])) (policy_stream m ps)"
      by (rule chained_mono [OF chains]) (auto simp: policy_initial_def policy_follows_def seq root)
  qed
qed

lemma private_roles_origin: "private_roles role = origin_roles role"
  by (auto simp: private_roles_def origin_roles_def)

lemma root_policy_admitted:
  assumes wf: "logs_wf x rs ps" and more: "revision_log_wf x (rs @ [r])"
    and root: "is_root r" and role: "\<not> trim_is_empty role"
    and fresh: "uuid_ok x i" "i \<notin> po_policy_id ` set ps"
  shows "logs_wf x (rs @ [r]) (ps @ [root_policy role now (length ps + 1) i r])"
proof -
  let ?p = "root_policy role now (length ps + 1) i r"
  note old = policies_survive [OF wf more]
  have new: "rv_revision_id r \<notin> rv_revision_id ` set rs"
    using more by (simp add: revision_log_wf_snoc admissible_def)
  have find: "find (\<lambda>t. rv_revision_id t = rv_revision_id r) (rs @ [r]) = Some r"
  proof -
    have "find (\<lambda>t. rv_revision_id t = rv_revision_id r) rs = None"
      using new by (metis (mono_tags, lifting) find_None_iff imageI)
    then show ?thesis by (simp add: find_append)
  qed
  have "audience_ok ?p"
    using origin_roles_sorted [of role] by (simp add: audience_ok_def root_policy_def private_roles_origin)
  then have rec: "policy_record_ok x (rs @ [r]) (length ps) ?p"
    using fresh(1) role find unfolding policy_record_ok_def by (simp add: root_policy_def)
  have init: "policy_initial (rs @ [r]) ?p"
    using root by (simp add: policy_initial_def sequence_by_revision_append root_by_memory_append
        is_root_def root_policy_def)
  have none: "policy_stream (rv_memory_id r) ps = []"
  proof -
    have "po_memory_id p \<noteq> rv_memory_id r" if p: "p \<in> set ps" for p
    proof -
      have "\<forall>i < length ps. policy_record_ok x rs i (ps ! i)"
        using wf by (simp add: logs_wf_def policy_log_wf_def)
      then obtain t where "t \<in> set rs" "rv_memory_id t = po_memory_id p"
        using p by (rule policy_log_effective)
      then show ?thesis using root_memory_fresh [OF more _ \<open>t \<in> set rs\<close>] root by (simp add: is_root_def)
    qed
    then show ?thesis by (simp add: policy_stream_def filter_empty_conv)
  qed
  have cov: "\<forall>t \<in> set (rs @ [r]). rv_parent_revision_id t = None \<longrightarrow>
      policy_stream (rv_memory_id t) (ps @ [?p]) \<noteq> []"
    using wf by (auto simp: logs_wf_def policy_log_wf_def root_policy_def)
  have "policy_log_wf x (rs @ [r]) (ps @ [?p])"
    unfolding policy_log_wf_def
  proof (intro conjI)
    show "\<forall>j < length (ps @ [?p]). policy_record_ok x (rs @ [r]) j ((ps @ [?p]) ! j)"
      using old(1) rec by (auto simp: nth_append less_Suc_eq)
    show "distinct (map po_policy_id (ps @ [?p]))"
      using wf fresh(2) by (simp add: logs_wf_def policy_log_wf_def root_policy_def)
    show "\<forall>m. chained (policy_initial (rs @ [r])) (policy_follows (rs @ [r])) (policy_stream m (ps @ [?p]))"
      using old(2) init none by (auto simp: chained_snoc root_policy_def)
    show "\<forall>t \<in> set (rs @ [r]). rv_parent_revision_id t = None \<longrightarrow>
      policy_stream (rv_memory_id t) (ps @ [?p]) \<noteq> []" by (rule cov)
  qed
  then show ?thesis using more by (simp add: logs_wf_def)
qed

lemma update_admitted:
  assumes wf: "logs_wf x rs ps" and more: "revision_log_wf x (rs @ [r])"
    and child: "rv_parent_revision_id r \<noteq> None"
  shows "logs_wf x (rs @ [r]) ps"
  using policies_survive [OF wf more] wf more child
  by (auto simp: logs_wf_def policy_log_wf_def)

section \<open>Well-formed requests are accepted\<close>

definition encodes :: "ledger_codec \<Rightarrow> bool" where
  "encodes c \<longleftrightarrow>
     (\<forall>v. enc (revision_codec c) v \<noteq> None) \<and> (\<forall>v. enc (policy_codec c) v \<noteq> None)
     \<and> (\<forall>v. enc (view_codec c) v \<noteq> None) \<and> (\<forall>v. enc (root_codec c) v \<noteq> None)
     \<and> (\<forall>v. enc (pointer_codec c) v \<noteq> None)"

text \<open>The fields a caller has to get right, for any revision.\<close>

definition well_formed_request ::
  "xenv \<Rightarrow> ledger_state \<Rightarrow> string \<Rightarrow> memory_tier \<Rightarrow> canonical_revision \<Rightarrow> bool" where
  "well_formed_request x s role tier r \<longleftrightarrow>
     \<not> lg_poisoned s \<and> tier \<noteq> Ephemeral \<and> rv_cognitive_tier r = tier \<and> \<not> trim_is_empty role
     \<and> uuid_ok x (rv_revision_id r) \<and> uuid_ok x (rv_memory_id r)
     \<and> rv_revision_id r \<notin> rv_revision_id ` set (lg_revisions s)
     \<and> canonical_content_hash x (rv_content r) = Inr (rv_content_hash r)"

definition root_request ::
  "xenv \<Rightarrow> ledger_state \<Rightarrow> string \<Rightarrow> memory_tier \<Rightarrow> canonical_revision \<Rightarrow> bool" where
  "root_request x s role tier r \<longleftrightarrow>
     well_formed_request x s role tier r \<and> rv_committed_by_role r = role \<and> is_root r"

definition update_request ::
  "xenv \<Rightarrow> ledger_state \<Rightarrow> string \<Rightarrow> memory_tier \<Rightarrow> canonical_revision \<Rightarrow> canonical_revision \<Rightarrow> bool" where
  "update_request x s role tier head r \<longleftrightarrow>
     well_formed_request x s role tier r
     \<and> last_opt (stream (rv_memory_id r) (lg_revisions s)) = Some head \<and> revises x head r
     \<and> (\<exists>p \<in> set (lg_policies s). po_memory_id p = rv_memory_id r
          \<and> role \<in> {po_origin_role_id p, PERSONAL_OWNER_ROLE_ID})"

lemma canonical_bytes_succeeds:
  "enc k v \<noteq> None \<Longrightarrow> succeeds (canonical_bytes_and_hash x (enc k) d v)"
  unfolding canonical_bytes_and_hash_def by (rule succeeds_bind) simp_all

lemma segment_object_succeeds:
  "\<forall>v. enc (lk_codec k) v \<noteq> None \<Longrightarrow> succeeds (segment_object x k n prev rs)"
  unfolding segment_object_def Let_def
  by (rule succeeds_bind [OF canonical_bytes_succeeds]) (auto split: prod.splits)

lemma policy_object_succeeds:
  "\<forall>v. enc (policy_codec c) v \<noteq> None \<Longrightarrow> succeeds (policy_object x c n prev pols)"
  unfolding policy_object_def
  by (auto simp: policy_log_def intro!: succeeds_bind [OF segment_object_succeeds] split: prod.splits)

lemma prepare_commit_succeeds:
  assumes enc: "encodes c"
    and batch: "check_batch s role tier revs heads = Inr ()"
    and wf: "logs_wf x (lg_revisions s @ stamp_revisions role now (length (lg_revisions s) + 1) revs)
      (lg_policies s @ root_policies role now (length (lg_policies s) + 1) uuids
         (zip (stamp_revisions role now (length (lg_revisions s) + 1) revs) heads))"
  shows "succeeds (prepare_commit x c now uuids s role tier revs heads)"
proof -
  have v: "validate_revisions x (lg_revisions s @ stamp_revisions role now (length (lg_revisions s) + 1) revs) = Inr ()"
    "validate_policies x (lg_policies s @ root_policies role now (length (lg_policies s) + 1) uuids
         (zip (stamp_revisions role now (length (lg_revisions s) + 1) revs) heads))
       (lg_revisions s @ stamp_revisions role now (length (lg_revisions s) + 1) revs) = Inr ()"
    using wf by (simp_all add: logs_wf_def validate_revisions_iff validate_policies_iff)
  show ?thesis
    unfolding prepare_commit_def Let_def batch v rebuild_current_view_ok [OF wf] res_bind_Inr
    by (rule succeeds_bind [OF segment_object_succeeds], use enc in \<open>simp add: encodes_def revision_log_def\<close>,
        clarify, rule succeeds_bind [OF policy_object_succeeds], use enc in \<open>simp add: encodes_def\<close>,
        rule succeeds_bind [OF canonical_bytes_succeeds], use enc in \<open>simp add: encodes_def\<close>,
        clarify, rule succeeds_bind [OF canonical_bytes_succeeds], use enc in \<open>simp add: encodes_def\<close>)
       (simp split: prod.splits)
qed

lemma stamp_admissible:
  assumes req: "well_formed_request x s role tier r"
  shows "well_identified x (length (lg_revisions s)) (stamp_revision role now (length (lg_revisions s) + 1) r)"
  using req by (simp add: well_formed_request_def well_identified_def stamp_revision_def)

lemma root_request_admissible:
  assumes inv: "ledger_inv x s" and req: "root_request x s role tier r"
  shows "revision_log_wf x (lg_revisions s @ [stamp_revision role now (length (lg_revisions s) + 1) r])"
    and "stream (rv_memory_id r) (lg_revisions s) = []"
proof -
  have wf: "revision_log_wf x (lg_revisions s)" using inv by (simp add: ledger_inv_def logs_wf_def)
  show none: "stream (rv_memory_id r) (lg_revisions s) = []"
  proof (rule ccontr)
    assume "stream (rv_memory_id r) (lg_revisions s) \<noteq> []"
    then obtain t where "t \<in> set (lg_revisions s)" "rv_memory_id t = rv_memory_id r"
      by (auto simp: stream_def filter_empty_conv)
    then obtain u where "u \<in> set (lg_revisions s)" "is_root u" "rv_memory_id u = rv_memory_id r"
      using revision_log_wf_root [OF wf] by metis
    then have "rv_revision_id r \<in> rv_revision_id ` set (lg_revisions s)"
      using req by (metis imageI is_root_def root_request_def)
    then show False using req by (simp add: root_request_def well_formed_request_def)
  qed
  have "is_root (stamp_revision role now n r)" for n
    using req by (simp add: root_request_def is_root_def stamp_revision_def)
  then show "revision_log_wf x (lg_revisions s @ [stamp_revision role now (length (lg_revisions s) + 1) r])"
    using wf none req stamp_admissible [of x s role tier r now]
    by (simp add: revision_log_wf_snoc admissible_def root_request_def well_formed_request_def)
qed

theorem root_commit_prepared:
  assumes inv: "ledger_inv x s" and req: "root_request x s role tier r" and enc: "encodes c"
    and uuid: "uuid_ok x (uuids 0)" "uuids 0 \<notin> po_policy_id ` set (lg_policies s)"
  shows "succeeds (prepare_commit x c now uuids s role tier [r] [ExpectAbsent])"
proof (rule prepare_commit_succeeds [OF enc])
  have none: "head_for (current_view_of s) (rv_memory_id r) = None"
    using inv_stream(3) [OF inv] root_request_admissible(2) [OF inv req] by simp
  show "check_batch s role tier [r] [ExpectAbsent] = Inr ()"
    using req none
    by (simp add: check_batch_def check_expected_head_def check_writer_def head_matches_def
        root_request_def well_formed_request_def is_root_def)
  have "is_root (stamp_revision role now (length (lg_revisions s) + 1) r)"
    using req by (simp add: root_request_def is_root_def stamp_revision_def)
  moreover have "logs_wf x (lg_revisions s) (lg_policies s)" using inv by (simp add: ledger_inv_def)
  ultimately show "logs_wf x (lg_revisions s @ stamp_revisions role now (length (lg_revisions s) + 1) [r])
      (lg_policies s @ root_policies role now (length (lg_policies s) + 1) uuids
         (zip (stamp_revisions role now (length (lg_revisions s) + 1) [r]) [ExpectAbsent]))"
    using root_policy_admitted [OF _ root_request_admissible(1) [OF inv req] _ _ uuid] req
    by (simp add: root_policies_def root_request_def well_formed_request_def)
qed

theorem update_commit_prepared:
  assumes inv: "ledger_inv x s" and req: "update_request x s role tier head r" and enc: "encodes c"
  shows "succeeds (prepare_commit x c now uuids s role tier [r] [ExpectRevision (rv_revision_id head)])"
proof (rule prepare_commit_succeeds [OF enc])
  have last: "last_opt (stream (rv_memory_id r) (lg_revisions s)) = Some head"
    and rev: "revises x head r" and wfr: "well_formed_request x s role tier r"
    using req by (simp_all add: update_request_def)
  then have hd: "head_for (current_view_of s) (rv_memory_id r) = Some (rv_revision_id head)"
    using inv_stream(3) [OF inv] by simp
  then have mem: "rv_memory_id r \<in> rv_memory_id ` set (lg_revisions s)"
    using inv_stream(1,2) [OF inv, of "rv_memory_id r"] by (simp add: head_for_def split: if_splits)
  obtain p where p: "p \<in> set (lg_policies s)" "po_memory_id p = rv_memory_id r"
    "role \<in> {po_origin_role_id p, PERSONAL_OWNER_ROLE_ID}"
    using req by (auto simp: update_request_def)
  obtain q where q: "q \<in> set (lg_policies s)" "po_memory_id q = rv_memory_id r" "audience_ok q"
    "find_policy s (cs_policy_id (stream_entry (lg_revisions s) (lg_policies s) (rv_memory_id r))) = Some q"
    using inv_policy [OF inv mem] by metis
  have "po_origin_role_id q = po_origin_role_id p"
    using policy_log_wf_same_origin inv q p unfolding ledger_inv_def logs_wf_def by metis
  then have "role \<in> set (po_writer_roles q)" using p(3) q(3) by (auto simp: audience_ok_def)
  then have writer: "check_writer s (current_view_of s) role () r = Inr ()"
    using hd q(4) mem inv_stream(1,2) [OF inv, of "rv_memory_id r"]
    by (simp add: check_writer_def find_policy_def)
  have "check_expected_head (current_view_of s) role tier {} (r, ExpectRevision (rv_revision_id head))
      = Inr {rv_memory_id r}"
    using hd wfr rev by (simp add: check_expected_head_def head_matches_def revises_def well_formed_request_def)
  then show "check_batch s role tier [r] [ExpectRevision (rv_revision_id head)] = Inr ()"
    using wfr writer by (simp add: check_batch_def well_formed_request_def)
  have wf: "logs_wf x (lg_revisions s) (lg_policies s)" using inv by (simp add: ledger_inv_def)
  have "revises x head (stamp_revision role now (length (lg_revisions s) + 1) r)"
    using rev by (auto simp: revises_def stamp_revision_def)
  then have "revision_log_wf x (lg_revisions s @ [stamp_revision role now (length (lg_revisions s) + 1) r])"
    using wf last wfr stamp_admissible [OF wfr]
    by (simp add: revision_log_wf_snoc admissible_def logs_wf_def well_formed_request_def)
  then have "logs_wf x (lg_revisions s @ [stamp_revision role now (length (lg_revisions s) + 1) r]) (lg_policies s)"
    using rev by (intro update_admitted [OF wf]) (simp_all add: revises_def stamp_revision_def)
  then show "logs_wf x (lg_revisions s @ stamp_revisions role now (length (lg_revisions s) + 1) [r])
      (lg_policies s @ root_policies role now (length (lg_policies s) + 1) uuids
         (zip (stamp_revisions role now (length (lg_revisions s) + 1) [r])
              [ExpectRevision (rv_revision_id head)]))"
    by (simp add: root_policies_def)
qed

section \<open>Publication without faults\<close>

text \<open>The objects can be stored: valid names, and no other bytes under any of them.\<close>

definition storable :: "ledger_storage \<Rightarrow> (string \<times> string) list \<Rightarrow> bool" where
  "storable st objects \<longleftrightarrow>
     (\<forall>(h, b) \<in> set objects. is_lower_hash h
        \<and> map_of (ls_objects st) h \<in> {None, Some (PrivateFile b)})
     \<and> (\<forall>(h, b) \<in> set objects. \<forall>(h', b') \<in> set objects. h = h' \<longrightarrow> b = b')"

lemma validate_hash_lower: "validate_hash h = Inr () \<longleftrightarrow> is_lower_hash h"
  by (simp add: validate_hash_def is_lower_hash_def)

lemma put_seq_storable:
  assumes "storable st xs"
  shows "\<exists>st'. put_seq (\<lambda>h. put_immutable NoPutFault h) xs st = (st', Inr ())"
  using assms
proof (induction xs arbitrary: st)
  case Nil
  then show ?case by simp
next
  case (Cons y xs)
  obtain h b where y: "y = (h, b)" by force
  have hash: "validate_hash h = Inr ()" and free: "map_of (ls_objects st) h \<in> {None, Some (PrivateFile b)}"
    using Cons.prems by (auto simp: storable_def y validate_hash_lower)
  obtain st1 where put: "put_immutable NoPutFault h b st = (st1, Inr ())"
    and st1: "map_of (ls_objects st1) = (map_of (ls_objects st))(h \<mapsto> PrivateFile b)"
  proof (cases "map_of (ls_objects st) h")
    case None
    then show ?thesis using that hash by (simp add: put_immutable_def Let_def)
  next
    case (Some e)
    then have "map_of (ls_objects st) = (map_of (ls_objects st))(h \<mapsto> PrivateFile b)"
      using free by (simp add: fun_eq_iff)
    then show ?thesis using that hash free Some by (simp add: put_immutable_def)
  qed
  have "storable st1 xs"
    using Cons.prems st1 unfolding storable_def y by (auto split: if_splits)
  then show ?case using Cons.IH [of st1] put by (simp add: y)
qed

theorem publish_prepared_succeeds:
  assumes "storable st (pc_objects p)" and "encodes c"
  shows "\<exists>st'. publish_prepared c now (\<lambda>_. NoPutFault) NoPublishFault st s p
           = (st', published_state p s, Inr (receipts now p))"
proof -
  obtain st1 where put: "put_seq (\<lambda>h. put_immutable NoPutFault h) (pc_objects p) st = (st1, Inr ())"
    using put_seq_storable [OF assms(1)] by blast
  obtain b where "enc (pointer_codec c) \<lparr>ap_schema = ROOT_POINTER_SCHEMA, ap_root_hash = pc_root_hash p\<rparr> = Some b"
    using assms(2) unfolding encodes_def by blast
  then show ?thesis using put by (simp add: publish_prepared_def publish_active_def Let_def)
qed

end
