(* ===== verification/Ledger_Scenario.thy ===== *)
theory Ledger_Scenario
  imports Ledger_Progress
begin

text \<open>
  A small concrete ledger on which the general results are instantiated: a fresh store is
  opened, the role \<open>agent\<close> commits a memory and then a second revision of it.  The JSON library
  is instantiated by finite tables and the hash function by one that keeps the last byte.
\<close>

definition table_codec :: "('a \<times> string) list \<Rightarrow> 'a codec" where
  "table_codec t = \<lparr>enc = map_of t, dec = map_of (map (\<lambda>(v, b). (b, v)) t)\<rparr>"

lemma faithful_table_codec:
  assumes "distinct (map snd t)"
  shows "faithful (table_codec t)"
  using assms by (auto simp: faithful_def table_codec_def intro!: map_of_is_SomeI rev_image_eqI
      dest!: map_of_SomeD simp: comp_def case_prod_beta)

definition demo_env :: xenv where
  "demo_env = \<lparr>sha256_hex = (\<lambda>s. replicate 63 CHR ''0'' @ [last s]), jcs_json = (\<lambda>_. Some ''0''),
     jcs_content = (\<lambda>_. Some ''0''), uuid_ok = (\<lambda>s. s \<noteq> [])\<rparr>"

definition demo_hash :: "char \<Rightarrow> string" where
  "demo_hash ch = replicate 63 CHR ''0'' @ [ch]"

definition demo_request :: canonical_revision where
  "demo_request = \<lparr>rv_schema = [], rv_sequence = 0, rv_memory_id = ''a'', rv_revision_id = ''a'',
     rv_parent_revision_id = None, rv_content = Text ''a'', rv_content_hash = demo_hash CHR ''a'',
     rv_tags = [], rv_memory_type = Untyped, rv_cognitive_tier = Working, rv_deleted_at = None,
     rv_committed_at = 0, rv_committed_by_role = ''agent''\<rparr>"

definition demo_update :: canonical_revision where
  "demo_update = demo_request\<lparr>rv_revision_id := ''c'', rv_parent_revision_id := Some ''a'',
     rv_content := Text ''c'', rv_content_hash := demo_hash CHR ''c''\<rparr>"

definition demo_revision :: canonical_revision where
  "demo_revision = stamp_revision ''agent'' 7 1 demo_request"

definition demo_revision2 :: canonical_revision where
  "demo_revision2 = stamp_revision ''agent'' 8 2 demo_update"

definition demo_policy :: policy_record where
  "demo_policy = root_policy ''agent'' 7 1 ''b'' demo_revision"

definition demo_view :: "nat \<Rightarrow> current_view" where
  "demo_view g = view_of g (if g = 1 then [demo_revision] else [demo_revision, demo_revision2])
     [demo_policy] 0"

definition demo_root :: ledger_root where
  "demo_root = \<lparr>rt_schema = ROOT_SCHEMA, rt_generation = 1,
     rt_previous_root_hash = Some (demo_hash CHR ''1''),
     rt_revision_head = Some (demo_hash CHR ''2''), rt_revision_watermark = 1,
     rt_policy_head = Some (demo_hash CHR ''3''), rt_policy_watermark = 1,
     rt_relation_head = None, rt_relation_watermark = 0,
     rt_current_view_hash = demo_hash CHR ''4'', rt_migration_manifest_hash = None,
     rt_committed_at = 7, rt_committed_by_role = ''agent''\<rparr>"

definition demo_root2 :: ledger_root where
  "demo_root2 = demo_root\<lparr>rt_generation := 2, rt_previous_root_hash := Some (demo_hash CHR ''5''),
     rt_revision_head := Some (demo_hash CHR ''8''), rt_revision_watermark := 2,
     rt_current_view_hash := demo_hash CHR ''9'', rt_committed_at := 8\<rparr>"

definition demo_segment :: "string \<Rightarrow> nat \<Rightarrow> string option \<Rightarrow> 'r \<Rightarrow> 'r segment" where
  "demo_segment schema n prev r = \<lparr>sg_schema = schema, sg_first_sequence = n, sg_last_sequence = n,
     sg_previous_segment_hash = prev, sg_records = [r]\<rparr>"

definition demo_pointer :: "char \<Rightarrow> active_pointer" where
  "demo_pointer ch = \<lparr>ap_schema = ROOT_POINTER_SCHEMA, ap_root_hash = demo_hash ch\<rparr>"

definition demo_codec :: ledger_codec where
  "demo_codec = \<lparr>
     revision_codec = table_codec
       [(demo_segment REVISION_SEGMENT_SCHEMA 1 None demo_revision, ''2''),
        (demo_segment REVISION_SEGMENT_SCHEMA 2 (Some (demo_hash CHR ''2'')) demo_revision2, ''8'')],
     policy_codec = table_codec [(demo_segment POLICY_SEGMENT_SCHEMA 1 None demo_policy, ''3'')],
     relation_codec = table_codec [],
     root_codec = table_codec
       [(genesis_root (demo_hash CHR ''0''), ''1''), (demo_root, ''5''), (demo_root2, ''d'')],
     view_codec = table_codec [(empty_view, ''0''), (demo_view 1, ''4''), (demo_view 2, ''9'')],
     pointer_codec = table_codec
       [(demo_pointer CHR ''1'', ''6''), (demo_pointer CHR ''5'', ''7''), (demo_pointer CHR ''d'', ''e'')],
     source_codec = table_codec [],
     manifest_codec = table_codec []\<rparr>"

definition demo_storage0 :: ledger_storage where
  "demo_storage0 = \<lparr>ls_objects = [], ls_active = [], ls_candidate = []\<rparr>"

definition demo_storage1 :: ledger_storage where
  "demo_storage1 = fst (ensure_genesis demo_env demo_codec (\<lambda>_. NoPutFault) NoPublishFault demo_storage0)"

definition demo_state1 :: ledger_state where
  "demo_state1 = projr (load_state demo_env demo_codec demo_storage1)"

definition demo_commit ::
  "put_fault \<Rightarrow> publish_fault \<Rightarrow> ledger_storage \<times> ledger_state \<times> (ledger_error + ledger_commit list)" where
  "demo_commit pf qf = commit_records demo_env demo_codec 7 (\<lambda>_. ''b'') (\<lambda>_. pf) qf
     demo_storage1 demo_state1 ''agent'' Working [demo_request] [ExpectAbsent]"

definition demo_storage2 :: ledger_storage where
  "demo_storage2 = fst (demo_commit NoPutFault NoPublishFault)"

definition demo_state2 :: ledger_state where
  "demo_state2 = fst (snd (demo_commit NoPutFault NoPublishFault))"

definition demo_commit2 ::
  "ledger_storage \<times> ledger_state \<times> (ledger_error + ledger_commit list)" where
  "demo_commit2 = commit_records demo_env demo_codec 8 (\<lambda>_. ''b'') (\<lambda>_. NoPutFault) NoPublishFault
     demo_storage2 demo_state2 ''agent'' Working [demo_update] [ExpectRevision ''a'']"

definition demo_receipt :: "nat \<Rightarrow> string \<Rightarrow> nat \<Rightarrow> ledger_commit" where
  "demo_receipt n i at = \<lparr>cm_generation = n, cm_revision_sequence = n, cm_revision_id = i, cm_committed_at = at\<rparr>"

lemma demo_genesis:
  "ensure_genesis demo_env demo_codec (\<lambda>_. NoPutFault) NoPublishFault demo_storage0 = (demo_storage1, Inr ())"
  by code_simp

lemma demo_load: "load_state demo_env demo_codec demo_storage1 = Inr demo_state1"
  by code_simp

lemma demo_commit_ok:
  "snd (snd (demo_commit NoPutFault NoPublishFault)) = Inr [demo_receipt 1 ''a'' 7]"
  by code_simp

lemma demo_commit_staged:
  "snd (snd (demo_commit NoPutFault PublishFailsStaged)) = Inl LedgerIo"
  by code_simp

lemma demo_commit_unsynced:
  "snd (snd (demo_commit NoPutFault PublishFailsUnsynced)) = Inl CommitIndeterminate"
  by code_simp

lemma demo_commit2_ok: "snd (snd demo_commit2) = Inr [demo_receipt 2 ''c'' 8]"
  by code_simp

lemma demo_codec_laws: "codec_laws demo_codec"
  unfolding codec_laws_def demo_codec_def
  by (auto intro!: faithful_table_codec) (simp add: table_codec_def)

lemma demo_segments_faithful: "faithful (revision_codec demo_codec)"
  by (simp add: demo_codec_def faithful_table_codec)

lemma demo_segment_readable: "segment_readable demo_codec p"
  using demo_segments_faithful by (simp add: segment_readable_def faithful_def)

lemma demo_inv: "ledger_inv demo_env demo_state1"
  using load_state_inv [OF demo_load] demo_codec_laws by (simp add: codec_laws_def)

lemma demo_commit_split:
  "commit_records demo_env demo_codec 7 (\<lambda>_. ''b'') (\<lambda>_. NoPutFault) NoPublishFault
     demo_storage1 demo_state1 ''agent'' Working [demo_request] [ExpectAbsent]
   = (demo_storage2, demo_state2, Inr [demo_receipt 1 ''a'' 7])"
  using demo_commit_ok
  by (simp add: demo_storage2_def demo_state2_def demo_commit_def prod_eq_iff)

lemma demo_inv2: "ledger_inv demo_env demo_state2"
  by (rule commit_records_inv [OF demo_inv demo_commit_split])

lemma demo_commit2_split:
  "commit_records demo_env demo_codec 8 (\<lambda>_. ''b'') (\<lambda>_. NoPutFault) NoPublishFault
     demo_storage2 demo_state2 ''agent'' Working [demo_update] [ExpectRevision ''a'']
   = (fst demo_commit2, fst (snd demo_commit2), Inr [demo_receipt 2 ''c'' 8])"
  using demo_commit2_ok by (simp add: demo_commit2_def prod_eq_iff)

end
