(* ===== verification/Ledger_Properties.thy ===== *)
theory Ledger_Properties
  imports Ledger_Scenario
begin

text \<open>
  The guarantees of the memory ledger, each followed by an instance on the concrete ledger of
  \<open>Ledger_Scenario\<close>.
\<close>

section \<open>Durability\<close>

text \<open>
  C1.  Durability of an acknowledged commit: if the writer's state is what the store loads to and
  \<open>commit_records\<close> returns receipts, then the store afterwards loads to exactly the new state of
  the writer.  Hash collisions need no assumption, because a write under a taken name fails.
\<close>

theorem acknowledged_commit_reloads:
  assumes "load_state x c st = Inr s" and "codec_laws c"
    and "\<forall>p. prepare_commit x c now uuids s role tier revs heads = Inr p \<longrightarrow> segment_readable c p"
    and "commit_records x c now uuids pf qf st s role tier revs heads = (st', s', Inr cs)"
  shows "load_state x c st' = Inr s'"
  using assms commit_records_state(2) [OF assms(4) refl] commit_reloads by blast

theorem acknowledged_commit_reloads_witness:
  "load_state demo_env demo_codec demo_storage2 = Inr demo_state2"
  by (rule acknowledged_commit_reloads [OF demo_load demo_codec_laws _ demo_commit_split])
     (simp add: demo_segment_readable)

text \<open>
  C3.  Atomicity of a failed commit: whatever fault the storage has, unless the outcome is
  reported as indeterminate the writer keeps its state and the store still loads to it.
\<close>

theorem failed_commit_is_atomic:
  assumes "load_state x c st = Inr s"
    and "commit_records x c now uuids pf qf st s role tier revs heads = (st', s', Inl e)"
    and "e \<noteq> CommitIndeterminate"
  shows "s' = s \<and> load_state x c st' = Inr s"
  using assms by (rule commit_failure_atomic)

theorem failed_commit_is_atomic_witness:
  "fst (snd (demo_commit NoPutFault PublishFailsStaged)) = demo_state1
   \<and> load_state demo_env demo_codec (fst (demo_commit NoPutFault PublishFailsStaged)) = Inr demo_state1"
  by (rule failed_commit_is_atomic [OF demo_load, where e = LedgerIo])
     (use demo_commit_staged in \<open>simp_all add: demo_commit_def prod_eq_iff\<close>)

text \<open>
  C9.  The indeterminate outcome: when the pointer was exchanged but not synced, the store loads to
  the new state, and the writer in memory is poisoned and otherwise unchanged.
\<close>

theorem indeterminate_commit_poisons:
  assumes "load_state x c st = Inr s"
    and "commit_records x c now uuids pf qf st s role tier revs heads = (st', s', Inl CommitIndeterminate)"
    and "codec_laws c"
    and "\<forall>p. prepare_commit x c now uuids s role tier revs heads = Inr p \<longrightarrow> segment_readable c p"
  shows "s' = s\<lparr>lg_poisoned := True\<rparr>
    \<and> (\<exists>p. prepare_commit x c now uuids s role tier revs heads = Inr p
           \<and> load_state x c st' = Inr (published_state p s))"
  using assms by (rule commit_indeterminate)

theorem indeterminate_commit_poisons_witness:
  "fst (snd (demo_commit NoPutFault PublishFailsUnsynced)) = demo_state1\<lparr>lg_poisoned := True\<rparr>
   \<and> (\<exists>p. prepare_commit demo_env demo_codec 7 (\<lambda>_. ''b'') demo_state1 ''agent'' Working
             [demo_request] [ExpectAbsent] = Inr p
          \<and> load_state demo_env demo_codec (fst (demo_commit NoPutFault PublishFailsUnsynced))
            = Inr (published_state p demo_state1))"
  by (rule indeterminate_commit_poisons [OF demo_load _ demo_codec_laws])
     (use demo_commit_unsynced in \<open>simp_all add: demo_commit_def prod_eq_iff demo_segment_readable\<close>)

text \<open>
  C10.  A poisoned writer never writes again: every further commit is refused and changes neither
  the store nor the state.
\<close>

theorem poisoned_writer_refuses:
  assumes "lg_poisoned s"
  shows "\<exists>e. commit_records x c now uuids pf qf st s role tier revs heads = (st, s, Inl e)"
  using assms by (rule poisoned_commit_refused)

theorem poisoned_writer_refuses_witness:
  "\<exists>e. commit_records demo_env demo_codec 9 (\<lambda>_. ''b'') (\<lambda>_. NoPutFault) NoPublishFault demo_storage1
         (demo_state1\<lparr>lg_poisoned := True\<rparr>) ''agent'' Working [demo_request] [ExpectAbsent]
       = (demo_storage1, demo_state1\<lparr>lg_poisoned := True\<rparr>, Inl e)"
  by (rule poisoned_writer_refuses) simp

text \<open>
  C7.  History is append-only: for every root that the active root reaches through its
  predecessors, the logs of that root load, are well formed, and are prefixes of the current logs.
\<close>

theorem history_is_append_only:
  assumes load: "load_state x c st = Inr s"
    and chain: "lg_root_hash s = Some h" "hpath (read_root x c st) rt_previous_root_hash (Some h) p"
    and old: "(h', old) \<in> set p"
  shows "\<exists>rs ps ls. load_logs x c st old = Inr (rs, ps, ls) \<and> logs_wf x rs ps
    \<and> prefix rs (lg_revisions s) \<and> prefix ps (lg_policies s) \<and> prefix ls (lg_relations s)"
proof -
  from load obtain ptr root view rs ps ls where l: "loaded x c st ptr root view rs ps ls"
    and s: "s = state_of ptr root view rs ps ls" unfolding load_state_Inr by blast
  have h: "h = ap_root_hash ptr" using chain(1) s by simp
  then obtain q where p: "p = (ap_root_hash ptr, root) # q"
    using chain(2) l by (auto simp: hpath_Some loaded_def)
  have "root_chain_loop x c st (rt_generation root) {} (ap_root_hash ptr) root = Inr ()"
    and "load_logs x c st root = Inr (rs, ps, ls)"
    using l by (simp_all add: loaded_def validate_root_chain_def)
  from root_chain_prefix [OF this(1) _ this(2), of q h' old] show ?thesis
    using chain(2) old p h s by simp
qed

theorem history_is_append_only_witness:
  "\<exists>rs ps ls. load_logs demo_env demo_codec demo_storage1 (genesis_root (demo_hash CHR ''0'')) = Inr (rs, ps, ls)
    \<and> logs_wf demo_env rs ps \<and> prefix rs (lg_revisions demo_state1)
    \<and> prefix ps (lg_policies demo_state1) \<and> prefix ls (lg_relations demo_state1)"
proof (rule history_is_append_only [OF demo_load])
  show "lg_root_hash demo_state1 = Some (demo_hash CHR ''1'')" by code_simp
  show "hpath (read_root demo_env demo_codec demo_storage1) rt_previous_root_hash (Some (demo_hash CHR ''1''))
      [(demo_hash CHR ''1'', genesis_root (demo_hash CHR ''0''))]" by code_simp
qed simp

section \<open>Committing\<close>

text \<open>
  C11.  The effect of a commit: the batch is appended to the revision log in order with consecutive
  sequence numbers, the receipts name exactly these, the heads of the committed memories move to
  the new revisions and no other head moves.
\<close>

theorem commit_appends_batch:
  assumes "ledger_inv x s"
    and "commit_records x c now uuids pf qf st s role tier revs heads = (st', s', Inr cs)"
  shows "lg_revisions s' = lg_revisions s @ stamp_revisions role now (length (lg_revisions s) + 1) revs
    \<and> map cm_revision_id cs = map rv_revision_id revs
    \<and> map cm_revision_sequence cs
        = [length (lg_revisions s) + 1 ..< length (lg_revisions s) + 1 + length revs]
    \<and> (\<forall>m. head_for (current_view_of s') m =
          (case find (\<lambda>r. rv_memory_id r = m) revs of
             Some r \<Rightarrow> Some (rv_revision_id r)
           | None \<Rightarrow> head_for (current_view_of s) m))"
  using commit_effect [OF assms] by blast

theorem commit_appends_batch_witness:
  "lg_revisions demo_state2 = lg_revisions demo_state1
     @ stamp_revisions ''agent'' 7 (length (lg_revisions demo_state1) + 1) [demo_request]"
  using commit_appends_batch [OF demo_inv demo_commit_split] by blast

text \<open>
  C5.  The invariant of the writer: validated logs together with the view that the logs determine.
  Every commit keeps it, whatever its outcome and whatever the storage does.
\<close>

theorem commit_keeps_invariant:
  assumes "ledger_inv x s"
    and "commit_records x c now uuids pf qf st s role tier revs heads = (st', s', r)"
  shows "ledger_inv x s'"
  using assms by (rule commit_records_inv)

theorem commit_keeps_invariant_witness: "ledger_inv demo_env demo_state2"
  by (rule commit_keeps_invariant [OF demo_inv demo_commit_split])

text \<open>
  C4.  Optimistic concurrency: after a commit against an expected head, a second commit to the same
  memory with the same expectation is answered with \<open>HeadConflict\<close>, naming the new head, and
  changes nothing.
\<close>

theorem stale_head_is_rejected:
  assumes "ledger_inv x s"
    and "commit_records x c now uuids pf qf st s role tier revs heads = (st', s', Inr cs)"
    and "(r, e) \<in> set (zip revs heads)"
    and "rv_memory_id r2 = rv_memory_id r" and "rv_cognitive_tier r2 = tier2" and "tier2 \<noteq> Ephemeral"
    and "e = ExpectAbsent \<longrightarrow> rv_committed_by_role r2 = role2"
  shows "commit_expected x c now2 uuids2 pf2 qf2 st' s' role2 tier2 e r2
    = (st', s', Inl (HeadConflict (rv_memory_id r) e (Some (rv_revision_id r))))"
  using assms by (rule stale_commit_conflicts)

theorem stale_head_is_rejected_witness:
  "commit_expected demo_env demo_codec 9 (\<lambda>_. ''e'') (\<lambda>_. NoPutFault) NoPublishFault
     demo_storage2 demo_state2 ''agent'' Working ExpectAbsent demo_request
   = (demo_storage2, demo_state2, Inl (HeadConflict ''a'' ExpectAbsent (Some ''a'')))"
proof -
  have "rv_memory_id demo_request = ''a''" "rv_revision_id demo_request = ''a''"
    "rv_cognitive_tier demo_request = Working" "rv_committed_by_role demo_request = ''agent''"
    by (simp_all add: demo_request_def)
  then show ?thesis
    using stale_head_is_rejected [OF demo_inv demo_commit_split, of demo_request ExpectAbsent demo_request
        Working "''agent''"] by simp
qed

text \<open>
  C6.  Write authority: a revision of an existing memory is committed only by the role its policies
  name as origin or by the personal owner.
\<close>

theorem only_origin_or_owner_writes:
  assumes "ledger_inv x s"
    and "commit_records x c now uuids pf qf st s role tier revs heads = (st', s', Inr cs)"
    and "(r, ExpectRevision h) \<in> set (zip revs heads)"
  shows "\<exists>p \<in> set (lg_policies s). po_memory_id p = rv_memory_id r
           \<and> (role = po_origin_role_id p \<or> role = PERSONAL_OWNER_ROLE_ID)"
  using assms by (rule commit_authorised)

theorem only_origin_or_owner_writes_witness:
  "\<exists>p \<in> set (lg_policies demo_state2). po_memory_id p = rv_memory_id demo_update
     \<and> (''agent'' = po_origin_role_id p \<or> ''agent'' = PERSONAL_OWNER_ROLE_ID)"
  by (rule only_origin_or_owner_writes [OF demo_inv2 demo_commit2_split]) simp

text \<open>
  C8.  Progress: without storage faults a well-formed request for a new memory is committed.  The
  validators reject nothing the write path produces.
\<close>

theorem new_memory_is_accepted:
  assumes "ledger_inv x s" and "root_request x s role tier r" and "encodes c"
    and "uuid_ok x (uuids 0)" and "uuids 0 \<notin> po_policy_id ` set (lg_policies s)"
    and store: "\<forall>p. prepare_commit x c now uuids s role tier [r] [ExpectAbsent] = Inr p \<longrightarrow>
                  storable st (pc_objects p)"
  shows "\<exists>st' s' cs. commit_records x c now uuids (\<lambda>_. NoPutFault) NoPublishFault st s role tier [r] [ExpectAbsent]
           = (st', s', Inr cs) \<and> map cm_revision_id cs = [rv_revision_id r]"
proof -
  obtain p where p: "prepare_commit x c now uuids s role tier [r] [ExpectAbsent] = Inr p"
    using root_commit_prepared [where uuids = uuids, OF assms(1-5)] by (auto simp: succeeds_def)
  then obtain st' where pub: "publish_prepared c now (\<lambda>_. NoPutFault) NoPublishFault st s p
      = (st', published_state p s, Inr (receipts now p))"
    using publish_prepared_succeeds store assms(3) by blast
  then have commit: "commit_records x c now uuids (\<lambda>_. NoPutFault) NoPublishFault st s role tier [r] [ExpectAbsent]
      = (st', published_state p s, Inr (receipts now p))"
    using p by (simp add: commit_records_def)
  have "map cm_revision_id (receipts now p) = [rv_revision_id r]"
    using commit_effect(2) [OF assms(1) commit] by simp
  with commit show ?thesis by (intro exI conjI)
qed

definition constant_codec :: "'a codec" where
  "constant_codec = \<lparr>enc = (\<lambda>_. Some ''0''), dec = (\<lambda>_. None)\<rparr>"

definition blind_codec :: ledger_codec where
  "blind_codec = \<lparr>revision_codec = constant_codec, policy_codec = constant_codec,
     relation_codec = constant_codec, root_codec = constant_codec, view_codec = constant_codec,
     pointer_codec = constant_codec, source_codec = constant_codec, manifest_codec = constant_codec\<rparr>"

lemma blind_encodes: "encodes blind_codec"
  by (simp add: encodes_def blind_codec_def constant_codec_def)

lemma blind_storable:
  assumes "prepare_commit demo_env blind_codec 7 uuids s ''agent'' Working revs heads = Inr p"
    and "lg_root s = Some root"
  shows "storable demo_storage0 (pc_objects p)"
proof -
  have "is_lower_hash (sha256_hex demo_env (d @ ''0''))" for d
    by (simp add: demo_env_def is_lower_hash_def is_hex_byte_def list_all_iff)
  moreover have "snd y = ''0'' \<and> (\<exists>d. fst y = sha256_hex demo_env (d @ ''0''))"
    if "y \<in> set (pc_objects p)" for y
    by (rule prepare_commit_Inr [OF assms])
       (use that in \<open>auto simp: segment_object_Inr policy_object_def canonical_bytes_and_hash_Inr
          blind_codec_def constant_codec_def revision_log_def policy_log_def res_simps
          split: option.splits if_splits\<close>)
  ultimately have "snd y = ''0'' \<and> is_lower_hash (fst y)" if "y \<in> set (pc_objects p)" for y
    using that by metis
  then have "b = ''0'' \<and> is_lower_hash h" if "(h, b) \<in> set (pc_objects p)" for h b
    using that by fastforce
  then show ?thesis
    unfolding storable_def demo_storage0_def by simp blast
qed

theorem new_memory_is_accepted_witness:
  "\<exists>st' s' cs. commit_records demo_env blind_codec 7 (\<lambda>_. ''b'') (\<lambda>_. NoPutFault) NoPublishFault
      demo_storage0 demo_state1 ''agent'' Working [demo_request] [ExpectAbsent] = (st', s', Inr cs)
     \<and> map cm_revision_id cs = [rv_revision_id demo_request]"
proof (rule new_memory_is_accepted [OF demo_inv _ blind_encodes])
  show "root_request demo_env demo_state1 ''agent'' Working demo_request" by code_simp
  show "uuid_ok demo_env ''b''" by (simp add: demo_env_def)
  show "''b'' \<notin> po_policy_id ` set (lg_policies demo_state1)" by code_simp
  obtain root where "lg_root demo_state1 = Some root" using demo_inv by (auto simp: ledger_inv_def)
  then show "\<forall>p. prepare_commit demo_env blind_codec 7 (\<lambda>_. ''b'') demo_state1 ''agent'' Working
      [demo_request] [ExpectAbsent] = Inr p \<longrightarrow> storable demo_storage0 (pc_objects p)"
    using blind_storable by blast
qed

end
