(* ===== verification/Ledger_Reading.thy ===== *)
theory Ledger_Reading
  imports Ledger_Properties
begin

text \<open>
  What readers of the ledger can rely on: the meaning of the validators, the current view, the
  visibility of revisions, the conversion between revisions and runtime entries, and the opening
  of a fresh ledger.
\<close>

section \<open>Validation\<close>

text \<open>
  C16.  \<open>validate_revisions\<close> accepts exactly the well-formed logs: positions are sequence numbers,
  identifiers are distinct, content hashes are right, and every memory is one linear history from a
  root in which nothing follows a tombstone.
\<close>

theorem revision_validator_exact: "validate_revisions x rs = Inr () \<longleftrightarrow> revision_log_wf x rs"
  by (rule validate_revisions_iff)

text \<open>
  C17.  \<open>validate_policies\<close> accepts exactly the well-formed policy logs: every audience contains the
  origin and the owner and only these two may write, policies of a memory keep their origin and take
  effect in revision order, and no memory is without a policy.
\<close>

theorem policy_validator_exact: "validate_policies x ps rs = Inr () \<longleftrightarrow> policy_log_wf x rs ps"
  by (rule validate_policies_iff)

text \<open>
  C18.  The current view is a function of the logs: on validated logs the optimised one-pass rebuild
  succeeds and lists, in ascending order, every memory with its last revision and its last policy.
\<close>

theorem view_rebuild_is_view_of:
  assumes "validate_revisions x rs = Inr ()" and "validate_policies x ps rs = Inr ()"
  shows "rebuild_current_view g rs ps w = Inr (view_of g rs ps w)
    \<and> (\<forall>m. head_for (view_of g rs ps w) m = map_option rv_revision_id (last_opt (stream m rs)))"
  using assms rebuild_current_view_ok [of x rs ps g w] head_for_view
  by (simp add: logs_wf_def validate_revisions_iff validate_policies_iff)

theorem view_rebuild_is_view_of_witness:
  "rebuild_current_view 1 [demo_revision] [demo_policy] 0 = Inr (view_of 1 [demo_revision] [demo_policy] 0)"
proof -
  have "validate_revisions demo_env [demo_revision] = Inr ()"
    "validate_policies demo_env [demo_policy] [demo_revision] = Inr ()" by code_simp+
  then show ?thesis using view_rebuild_is_view_of by blast
qed

section \<open>Reading\<close>

text \<open>
  C19.  A role sees exactly the live heads of the memories whose last policy names it as a reader;
  the query never fails on a writer that holds its invariant.
\<close>

theorem readable_revisions_exact:
  assumes "ledger_inv x s"
  shows "\<exists>ids. readable_active_revision_ids s role = Inr ids \<and> sorted ids
           \<and> set ids = {i. visible s role i}"
  using assms by (rule readable_active_revision_ids_spec)

theorem readable_revisions_exact_witness:
  "\<exists>ids. readable_active_revision_ids demo_state2 ''agent'' = Inr ids \<and> sorted ids
     \<and> set ids = {i. visible demo_state2 ''agent'' i}"
  by (rule readable_revisions_exact [OF demo_inv2])

text \<open>
  Write access to a revision is decided by its origin: \<open>origin_for_revision\<close> answers a write
  query of the origin role and of the personal owner with the origin role, and any other role with
  nothing, whatever readers the policies name.
\<close>

theorem write_access_is_origin:
  assumes "ledger_inv x s" and "find_revision s i = Some r"
    and "p \<in> set (lg_policies s)" and "po_memory_id p = rv_memory_id r"
  shows "origin_for_revision s role i True =
    Inr (if role \<in> {po_origin_role_id p, PERSONAL_OWNER_ROLE_ID} then Some (po_origin_role_id p) else None)"
  using assms by (rule origin_for_revision_write)

lemma demo_logs: "lg_revisions demo_state2 = [demo_revision] \<and> lg_policies demo_state2 = [demo_policy]"
  by code_simp

lemma demo_lookup:
  "find_revision demo_state2 ''a'' = Some demo_revision" "demo_policy \<in> set (lg_policies demo_state2)"
  "po_memory_id demo_policy = rv_memory_id demo_revision" "po_origin_role_id demo_policy = ''agent''"
  by (simp_all add: find_revision_def demo_logs demo_revision_def demo_request_def stamp_revision_def
      demo_policy_def root_policy_def)

theorem write_access_is_origin_witness:
  "origin_for_revision demo_state2 ''guest'' ''a'' True = Inr None
   \<and> origin_for_revision demo_state2 ''agent'' ''a'' True = Inr (Some ''agent'')"
  using write_access_is_origin [OF demo_inv2 demo_lookup(1-3)] demo_lookup(4)
  by (simp add: PERSONAL_OWNER_ROLE_ID_def)

text \<open>
  C25.  Rebuilding the runtime memory of a role restores each durable revision exactly for the role
  that the policies of its memory name as origin.
\<close>

theorem rebuild_partitions_by_origin:
  assumes "ledger_inv x s" and "r \<in> set (lg_revisions s)" and "rv_cognitive_tier r \<noteq> Ephemeral"
    and "p \<in> set (lg_policies s)" and "po_memory_id p = rv_memory_id r"
  shows "(\<exists>rs. (rv_cognitive_tier r, rs) \<in> set (rebuild_origin_role s role) \<and> r \<in> set rs)
    \<longleftrightarrow> role = po_origin_role_id p"
  using assms by (rule rebuild_origin_role_mem)

theorem rebuild_partitions_by_origin_witness:
  "\<exists>rs. (rv_cognitive_tier demo_revision, rs) \<in> set (rebuild_origin_role demo_state2 ''agent'')
     \<and> demo_revision \<in> set rs"
proof -
  have live: "demo_revision \<in> set (lg_revisions demo_state2)" "rv_cognitive_tier demo_revision \<noteq> Ephemeral"
    by (simp_all add: demo_logs demo_revision_def demo_request_def stamp_revision_def)
  show ?thesis
    unfolding rebuild_partitions_by_origin [OF demo_inv2 live demo_lookup(2,3)] demo_lookup(4)
    by (rule refl)
qed



section \<open>Opening and projecting\<close>

text \<open>
  Opening a fresh store writes a genesis root that loads to the empty, usable ledger.
\<close>

theorem fresh_store_opens_empty:
  assumes "codec_laws c" and "read_active st = None"
    and "ensure_genesis x c pf qf st = (st', Inr ())"
  shows "\<exists>s. load_state x c st' = Inr s \<and> lg_revisions s = [] \<and> lg_policies s = [] \<and> lg_relations s = []
           \<and> lg_view s = Some empty_view \<and> \<not> lg_poisoned s"
  using assms by (rule genesis_opens_empty)

theorem fresh_store_opens_empty_witness:
  "\<exists>s. load_state demo_env demo_codec demo_storage1 = Inr s \<and> lg_revisions s = [] \<and> lg_policies s = []
     \<and> lg_relations s = [] \<and> lg_view s = Some empty_view \<and> \<not> lg_poisoned s"
  by (rule fresh_store_opens_empty [OF demo_codec_laws _ demo_genesis])
     (simp add: demo_storage0_def read_active_def)

text \<open>
  C27.  The walk of \<open>projection_snapshot\<close> back to the genesis root, a loop without a bound of its own,
  ends on every store that loads, and returns a chain from a root without predecessor to the
  current root.
\<close>

theorem projection_snapshot_terminates:
  assumes "load_state x c st = Inr s"
  shows "\<exists>snap. projection_snapshot x c st s = Some (Inr snap)
    \<and> rt_previous_root_hash (sp_genesis_root snap) = None
    \<and> sp_revisions snap = lg_revisions s
    \<and> last (sp_root_chain snap) = (sp_root_hash snap, sp_root snap)
    \<and> Some (sp_root snap) = lg_root s"
  using assms by (rule projection_snapshot_returns)

theorem projection_snapshot_terminates_witness:
  "\<exists>snap. projection_snapshot demo_env demo_codec demo_storage1 demo_state1 = Some (Inr snap)
    \<and> rt_previous_root_hash (sp_genesis_root snap) = None
    \<and> sp_revisions snap = lg_revisions demo_state1
    \<and> last (sp_root_chain snap) = (sp_root_hash snap, sp_root snap)
    \<and> Some (sp_root snap) = lg_root demo_state1"
  by (rule projection_snapshot_terminates [OF demo_load])

end
