(* ===== verification/Layered_Memory.thy ===== *)
theory Layered_Memory
  imports Ledger_Access "HOL-Library.AList"
begin

text \<open>
  The runtime memory of the kernel (\<open>LayeredMemory\<close> of \<open>src/src/memory/layered/mod.rs\<close>): four
  tiers of entries per role in front of a canonical ledger.  The ledger is a trait object in the
  code; here it is a record of its methods over a state \<open>'l\<close>.  An operation is one step on the
  state: the durable operations exclude each other by \<open>persist_lock\<close>.  Reads, ephemeral stores and
  access tracking do not take that lock, and the tiers are counted under one read lock each, so the
  quota results speak of operations that do not overlap with ephemeral stores of the same role.
\<close>

section \<open>The ledger trait\<close>

record 'l canonical_ledger =
  lgr_commit_expected ::
    "string \<Rightarrow> memory_tier \<Rightarrow> expected_head \<Rightarrow> canonical_revision \<Rightarrow> 'l \<Rightarrow> 'l \<times> (ledger_error + ledger_commit)"
  lgr_commit_roots ::
    "string \<Rightarrow> memory_tier \<Rightarrow> canonical_revision list \<Rightarrow> 'l \<Rightarrow> 'l \<times> (ledger_error + ledger_commit list)"
  lgr_rebuild_origin_role :: "string \<Rightarrow> 'l \<Rightarrow> ledger_error + (memory_tier \<times> canonical_revision list) list"
  lgr_list_origin_roles :: "'l \<Rightarrow> ledger_error + string list"
  lgr_readable_active_revision_ids :: "string \<Rightarrow> 'l \<Rightarrow> ledger_error + string list"
  lgr_origin_for_revision :: "string \<Rightarrow> string \<Rightarrow> bool \<Rightarrow> 'l \<Rightarrow> ledger_error + string option"
  lgr_flush :: "'l \<Rightarrow> ledger_error + unit"

section \<open>Errors and state\<close>

datatype memory_error =
    EntryNotFound string
  | SerializationError
  | TierCapacityExceeded memory_tier string
  | MemoryQuotaExceeded string nat nat
  | InvalidEntryContent string
  | MemoryLedger ledger_error

datatype mutation_error =
    MutationNotFound string
  | MutationInactive string
  | MutationNamespaceMismatch string
  | MutationEmptyContent
  | MutationInvalidContent string
  | MutationQuotaExceeded nat nat
  | MutationPermissionDenied
  | PersistenceUnavailable
  | MutationLedger ledger_error

fun mutation_error_category :: "mutation_error \<Rightarrow> string" where
  "mutation_error_category (MutationNotFound _) = ''not_found''"
| "mutation_error_category (MutationInactive _) = ''inactive''"
| "mutation_error_category (MutationNamespaceMismatch _) = ''namespace_mismatch''"
| "mutation_error_category MutationEmptyContent = ''empty_content''"
| "mutation_error_category (MutationInvalidContent category) = category"
| "mutation_error_category (MutationQuotaExceeded _ _) = ''quota_exceeded''"
| "mutation_error_category MutationPermissionDenied = ''permission_denied''"
| "mutation_error_category PersistenceUnavailable = ''persistence_unavailable''"
| "mutation_error_category (MutationLedger e) = ledger_error_category e"

text \<open>A hash map per tier, from the role to its entries.\<close>

type_synonym tier_map = "(string \<times> memory_entry list) list"

record 'l layered_memory =
  lm_ephemeral :: tier_map
  lm_working :: tier_map
  lm_long_term :: tier_map
  lm_procedural :: tier_map
  lm_ledger :: "'l option"
  lm_op_count :: nat

fun tier_of :: "memory_tier \<Rightarrow> 'l layered_memory \<Rightarrow> tier_map" where
  "tier_of Ephemeral m = lm_ephemeral m"
| "tier_of Working m = lm_working m"
| "tier_of LongTerm m = lm_long_term m"
| "tier_of Procedural m = lm_procedural m"

fun tier_update :: "memory_tier \<Rightarrow> (tier_map \<Rightarrow> tier_map) \<Rightarrow> 'l layered_memory \<Rightarrow> 'l layered_memory" where
  "tier_update Ephemeral f m = m\<lparr>lm_ephemeral := f (lm_ephemeral m)\<rparr>"
| "tier_update Working f m = m\<lparr>lm_working := f (lm_working m)\<rparr>"
| "tier_update LongTerm f m = m\<lparr>lm_long_term := f (lm_long_term m)\<rparr>"
| "tier_update Procedural f m = m\<lparr>lm_procedural := f (lm_procedural m)\<rparr>"

definition tier_entries :: "tier_map \<Rightarrow> string \<Rightarrow> memory_entry list" where
  "tier_entries t agent_id = (case map_of t agent_id of None \<Rightarrow> [] | Some es \<Rightarrow> es)"

text \<open>\<open>entry(agent_id).or_default()\<close>, and appending to it.\<close>

definition or_default :: "string \<Rightarrow> tier_map \<Rightarrow> tier_map" where
  "or_default agent_id t = AList.update agent_id (tier_entries t agent_id) t"

definition append_entries :: "string \<Rightarrow> memory_entry list \<Rightarrow> tier_map \<Rightarrow> tier_map" where
  "append_entries agent_id es t = AList.update agent_id (tier_entries t agent_id @ es) t"

definition layered_new :: "'l layered_memory" where
  "layered_new = \<lparr>lm_ephemeral = [], lm_working = [], lm_long_term = [], lm_procedural = [],
     lm_ledger = None, lm_op_count = 0\<rparr>"

definition set_ledger :: "'l \<Rightarrow> 'l layered_memory \<Rightarrow> 'l layered_memory" where
  "set_ledger l m = m\<lparr>lm_ledger := Some l\<rparr>"

definition flush_ledger :: "'l canonical_ledger \<Rightarrow> 'l layered_memory \<Rightarrow> ledger_error + bool" where
  "flush_ledger L m =
     (case lm_ledger m of
        None \<Rightarrow> Inr False
      | Some l \<Rightarrow> res_bind (lgr_flush L l) (\<lambda>_. Inr True))"

section \<open>Reading\<close>

definition get_tier :: "'l layered_memory \<Rightarrow> string \<Rightarrow> memory_tier \<Rightarrow> memory_entry list" where
  "get_tier m agent_id tier = tier_entries (tier_of tier m) agent_id"

definition get_all :: "'l layered_memory \<Rightarrow> string \<Rightarrow> memory_entry list" where
  "get_all m agent_id = concat (map (get_tier m agent_id) [Ephemeral, Working, LongTerm, Procedural])"

definition count_for_agent :: "'l layered_memory \<Rightarrow> string \<Rightarrow> nat" where
  "count_for_agent m agent_id =
     length (tier_entries (lm_ephemeral m) agent_id) + length (tier_entries (lm_working m) agent_id)
     + length (tier_entries (lm_long_term m) agent_id) + length (tier_entries (lm_procedural m) agent_id)"

definition active_revisions :: "memory_entry list \<Rightarrow> memory_entry list" where
  "active_revisions entries =
     (let parent_ids = set (List.map_filter en_parent_revision_id entries)
      in filter (\<lambda>e. en_id e \<notin> parent_ids \<and> en_deleted_at e = None \<and> en_superseded_by e = None) entries)"

definition get_active_tier :: "'l layered_memory \<Rightarrow> string \<Rightarrow> memory_tier \<Rightarrow> memory_entry list" where
  "get_active_tier m agent_id tier = active_revisions (get_tier m agent_id tier)"

definition get_active :: "'l layered_memory \<Rightarrow> string \<Rightarrow> memory_entry list" where
  "get_active m agent_id = active_revisions (get_all m agent_id)"

definition find_active_entry ::
  "'l layered_memory \<Rightarrow> string \<Rightarrow> memory_tier \<Rightarrow> string \<Rightarrow> memory_entry option" where
  "find_active_entry m agent_id tier revision_id =
     find (\<lambda>e. en_id e = revision_id) (get_active_tier m agent_id tier)"

definition find_active_authorized ::
  "'l canonical_ledger \<Rightarrow> 'l layered_memory \<Rightarrow> string \<Rightarrow> memory_tier \<Rightarrow> string \<Rightarrow>
   ledger_error + memory_entry option" where
  "find_active_authorized L m role_id tier revision_id =
     res_bind (ok_or (lm_ledger m) (LedgerInvalid ''canonical_ledger_unavailable'')) (\<lambda>l.
     res_bind (lgr_origin_for_revision L role_id revision_id False l) (\<lambda>origin.
     Inr (case origin of
            None \<Rightarrow> None
          | Some agent_id \<Rightarrow> find_active_entry m agent_id tier revision_id)))"

definition get_by_tags ::
  "'l layered_memory \<Rightarrow> string \<Rightarrow> memory_tier \<Rightarrow> string list \<Rightarrow> memory_entry list" where
  "get_by_tags m agent_id tier tags =
     filter (\<lambda>e. \<exists>t \<in> set tags. t \<in> set (en_tags e)) (get_tier m agent_id tier)"

definition get_by_type ::
  "'l layered_memory \<Rightarrow> string \<Rightarrow> memory_tier \<Rightarrow> memory_type \<Rightarrow> memory_entry list" where
  "get_by_type m agent_id tier ty = filter (\<lambda>e. en_memory_type e = ty) (get_tier m agent_id tier)"

fun references_cid :: "string \<Rightarrow> memory_content \<Rightarrow> bool" where
  "references_cid cid (ObjectRef entry_cid) \<longleftrightarrow> entry_cid = cid"
| "references_cid cid _ \<longleftrightarrow> False"

definition is_cid_referenced :: "'l layered_memory \<Rightarrow> string \<Rightarrow> bool" where
  "is_cid_referenced m cid \<longleftrightarrow>
     list_ex (\<lambda>tier. list_ex (\<lambda>(_, es). list_ex (\<lambda>e. references_cid cid (en_content e)) es) (tier_of tier m))
       [Ephemeral, Working, LongTerm, Procedural]"

definition find_entry :: "'l layered_memory \<Rightarrow> string \<Rightarrow> string \<Rightarrow> memory_entry option" where
  "find_entry m agent_id entry_id =
     (case List.map_filter (\<lambda>tier. find (\<lambda>e. en_id e = entry_id) (get_tier m agent_id tier))
             [Working, LongTerm, Procedural] of
        [] \<Rightarrow> None
      | e # _ \<Rightarrow> Some e)"

section \<open>Runtime-only operations\<close>

definition store_inner :: "memory_entry \<Rightarrow> 'l layered_memory \<Rightarrow> 'l layered_memory" where
  "store_inner e m = tier_update (en_tier e) (append_entries (en_agent_id e) [e]) m"

definition DEFAULT_PERSIST_OP_COUNT :: nat where
  "DEFAULT_PERSIST_OP_COUNT = 50"

text \<open>The flush that a full counter triggers changes no state and its error is only logged.\<close>

definition tick :: "'l layered_memory \<Rightarrow> 'l layered_memory \<times> bool" where
  "tick m =
     (let count = lm_op_count m + 1 in
      if count \<ge> DEFAULT_PERSIST_OP_COUNT then (m\<lparr>lm_op_count := 0\<rparr>, True)
      else (m\<lparr>lm_op_count := count\<rparr>, False))"

definition store ::
  "xenv \<Rightarrow> memory_entry \<Rightarrow> 'l layered_memory \<Rightarrow> 'l layered_memory \<times> (memory_error + unit)" where
  "store x entry m =
     (case seal_root_identity x entry of
        Inl category \<Rightarrow> (m, Inl (InvalidEntryContent category))
      | Inr e \<Rightarrow>
          if en_tier e \<noteq> Ephemeral
          then (m, Inl (MemoryLedger (LedgerInvalid ''durable_entry_requires_create_durable'')))
          else (store_inner e (fst (tick m)), Inr ()))"

definition store_checked ::
  "xenv \<Rightarrow> memory_entry \<Rightarrow> nat \<Rightarrow> 'l layered_memory \<Rightarrow> 'l layered_memory \<times> (memory_error + unit)" where
  "store_checked x entry quota m =
     (let current = count_for_agent m (en_agent_id entry) in
      if quota > 0 \<and> current \<ge> quota
      then (m, Inl (MemoryQuotaExceeded (en_agent_id entry) current quota))
      else store x entry m)"

definition evict_ephemeral ::
  "string \<Rightarrow> 'l layered_memory \<Rightarrow> 'l layered_memory \<times> memory_entry list" where
  "evict_ephemeral agent_id m =
     (m\<lparr>lm_ephemeral := AList.delete agent_id (lm_ephemeral m)\<rparr>, tier_entries (lm_ephemeral m) agent_id)"

definition clear_ephemeral :: "string \<Rightarrow> 'l layered_memory \<Rightarrow> 'l layered_memory \<times> nat" where
  "clear_ephemeral agent_id m =
     (m\<lparr>lm_ephemeral := AList.delete agent_id (lm_ephemeral m)\<rparr>,
      length (tier_entries (lm_ephemeral m) agent_id))"

definition access_tier :: "nat \<Rightarrow> string \<Rightarrow> tier_map \<Rightarrow> tier_map" where
  "access_tier now agent_id t =
     (case map_of t agent_id of
        None \<Rightarrow> t
      | Some es \<Rightarrow> AList.update agent_id (map (on_memory_access now) es) t)"

definition recall_with_tracking ::
  "nat \<Rightarrow> string \<Rightarrow> 'l layered_memory \<Rightarrow> 'l layered_memory \<times> memory_entry list" where
  "recall_with_tracking now agent_id m =
     (let m' = fold (\<lambda>tier. tier_update tier (access_tier now agent_id))
                 [Ephemeral, Working, LongTerm, Procedural] m
      in (m', get_all m' agent_id))"

text \<open>\<open>touch_entry\<close> counts the access on the first entry with the identifier, and stops there.\<close>

definition touched :: "nat \<Rightarrow> memory_entry \<Rightarrow> memory_entry" where
  "touched now e = e\<lparr>en_access_count := (en_access_count e + 1) mod 2 ^ 32, en_last_accessed := now\<rparr>"

fun touch_first :: "nat \<Rightarrow> string \<Rightarrow> memory_entry list \<Rightarrow> memory_entry list option" where
  "touch_first now entry_id [] = None"
| "touch_first now entry_id (e # es) =
     (if en_id e = entry_id then Some (touched now e # es)
      else map_option (Cons e) (touch_first now entry_id es))"

fun touch_tiers ::
  "nat \<Rightarrow> string \<Rightarrow> string \<Rightarrow> memory_tier list \<Rightarrow> 'l layered_memory \<Rightarrow> 'l layered_memory \<times> bool" where
  "touch_tiers now agent_id entry_id [] m = (m, False)"
| "touch_tiers now agent_id entry_id (tier # tiers) m =
     (case Option.bind (map_of (tier_of tier m) agent_id) (touch_first now entry_id) of
        Some es \<Rightarrow> (tier_update tier (AList.update agent_id es) m, True)
      | None \<Rightarrow> touch_tiers now agent_id entry_id tiers m)"

definition touch_entry ::
  "nat \<Rightarrow> string \<Rightarrow> string \<Rightarrow> 'l layered_memory \<Rightarrow> 'l layered_memory \<times> bool" where
  "touch_entry now agent_id entry_id m =
     touch_tiers now agent_id entry_id [Ephemeral, Working, LongTerm, Procedural] m"

section \<open>Durable operations\<close>

text \<open>
  A receipt dates the entry.  \<open>from_entry\<close> and the ledger calls are followed by \<^verbatim>\<open>?\<close>, which wraps
  their error.
\<close>

definition dated :: "memory_entry \<Rightarrow> ledger_commit \<Rightarrow> memory_entry" where
  "dated e receipt =
     e\<lparr>en_created_at := cm_committed_at receipt, en_last_accessed := cm_committed_at receipt\<rparr>"

text \<open>
  The closure of a mutation gets the live entries and returns the candidate, with an existing entry
  when there is nothing to commit.
\<close>

type_synonym mutation = "memory_entry list \<Rightarrow> mutation_error + (memory_entry list \<times> memory_entry option)"

definition commit_working_mutation ::
  "'l canonical_ledger \<Rightarrow> string \<Rightarrow> string \<Rightarrow> mutation \<Rightarrow> 'l layered_memory \<Rightarrow>
   'l layered_memory \<times> (mutation_error + memory_entry)" where
  "commit_working_mutation L caller_role_id entry_id mutate m =
     (case lm_ledger m of
        None \<Rightarrow> (m, Inl PersistenceUnavailable)
      | Some l \<Rightarrow>
          (case lgr_origin_for_revision L caller_role_id entry_id True l of
             Inl e \<Rightarrow> (m, Inl (MutationLedger e))
           | Inr None \<Rightarrow> (m, Inl (MutationNotFound entry_id))
           | Inr (Some origin_role) \<Rightarrow>
               (case map_of (lm_working m) origin_role of
                  None \<Rightarrow> (m, Inl (MutationNotFound entry_id))
                | Some live \<Rightarrow>
                    (case mutate live of
                       Inl e \<Rightarrow> (m, Inl e)
                     | Inr (candidate, Some existing) \<Rightarrow> (m, Inr existing)
                     | Inr (candidate, None) \<Rightarrow>
                         (case Option.bind (last_opt candidate)
                                 (\<lambda>e. if en_id e \<noteq> entry_id then Some e else None) of
                            None \<Rightarrow> (m, Inl (MutationInvalidContent ''mutation_did_not_append_revision''))
                          | Some committed \<Rightarrow>
                              (case entry_to_revision committed of
                                 Inl e \<Rightarrow> (m, Inl (MutationLedger e))
                               | Inr revision \<Rightarrow>
                                   (case lgr_commit_expected L caller_role_id Working
                                           (ExpectRevision entry_id) revision l of
                                      (l', Inl e) \<Rightarrow> (m\<lparr>lm_ledger := Some l'\<rparr>, Inl (MutationLedger e))
                                    | (l', Inr receipt) \<Rightarrow>
                                        (m\<lparr>lm_ledger := Some l',
                                           lm_working := AList.update origin_role
                                             (butlast candidate @ [dated committed receipt]) (lm_working m)\<rparr>,
                                         Inr (dated committed receipt)))))))))"

definition create_working_durable ::
  "xenv \<Rightarrow> 'l canonical_ledger \<Rightarrow> memory_entry \<Rightarrow> nat \<Rightarrow> 'l layered_memory \<Rightarrow>
   'l layered_memory \<times> (mutation_error + memory_entry)" where
  "create_working_durable x L entry quota m =
     (case seal_root_identity x entry of
        Inl category \<Rightarrow> (m, Inl (MutationInvalidContent category))
      | Inr e \<Rightarrow>
     (case lm_ledger m of
        None \<Rightarrow> (m, Inl PersistenceUnavailable)
      | Some l \<Rightarrow>
     (let agent_id = en_agent_id e;
          non_working_count = sum_list (map (\<lambda>tier. length (get_tier m agent_id tier))
                                [Ephemeral, LongTerm, Procedural]);
          m1 = m\<lparr>lm_working := or_default agent_id (lm_working m)\<rparr>;
          current = non_working_count + length (tier_entries (lm_working m1) agent_id)
      in
      if quota > 0 \<and> current \<ge> quota then (m1, Inl (MutationQuotaExceeded current quota))
      else
     (case entry_to_revision e of
        Inl err \<Rightarrow> (m1, Inl (MutationLedger err))
      | Inr revision \<Rightarrow>
     (case lgr_commit_expected L agent_id Working ExpectAbsent revision l of
        (l', Inl err) \<Rightarrow> (m1\<lparr>lm_ledger := Some l'\<rparr>, Inl (MutationLedger err))
      | (l', Inr receipt) \<Rightarrow>
          (m1\<lparr>lm_ledger := Some l',
              lm_working := append_entries agent_id [dated e receipt] (lm_working m1)\<rparr>,
           Inr (dated e receipt)))))))"

definition create_durable ::
  "xenv \<Rightarrow> 'l canonical_ledger \<Rightarrow> memory_entry \<Rightarrow> nat \<Rightarrow> 'l layered_memory \<Rightarrow>
   'l layered_memory \<times> (mutation_error + memory_entry)" where
  "create_durable x L entry quota m =
     (if en_tier entry = Working then create_working_durable x L entry quota m
      else if en_tier entry = Ephemeral
      then (m, Inl (MutationInvalidContent ''ephemeral_revision_not_durable''))
      else
     (case seal_root_identity x entry of
        Inl category \<Rightarrow> (m, Inl (MutationInvalidContent category))
      | Inr e \<Rightarrow>
     (case lm_ledger m of
        None \<Rightarrow> (m, Inl PersistenceUnavailable)
      | Some l \<Rightarrow>
     (let current = count_for_agent m (en_agent_id e) in
      if quota > 0 \<and> current \<ge> quota then (m, Inl (MutationQuotaExceeded current quota))
      else
     (case entry_to_revision e of
        Inl err \<Rightarrow> (m, Inl (MutationLedger err))
      | Inr revision \<Rightarrow>
     (case lgr_commit_expected L (en_agent_id e) (en_tier e) ExpectAbsent revision l of
        (l', Inl err) \<Rightarrow> (m\<lparr>lm_ledger := Some l'\<rparr>, Inl (MutationLedger err))
      | (l', Inr receipt) \<Rightarrow>
          (store_inner (dated e receipt) (m\<lparr>lm_ledger := Some l'\<rparr>), Inr (dated e receipt))))))))"

text \<open>Each entry of a batch is checked against the first one and sealed, in order.\<close>

definition seal_batch ::
  "xenv \<Rightarrow> string \<Rightarrow> memory_tier \<Rightarrow> string \<Rightarrow> memory_entry list \<Rightarrow> mutation_error + memory_entry list" where
  "seal_batch x agent_id tier category =
     res_mapM (\<lambda>e. res_bind (ensure (en_agent_id e = agent_id \<and> en_tier e = tier)
                                 (MutationInvalidContent category)) (\<lambda>_.
                    map_err MutationInvalidContent (seal_root_identity x e)))"

definition create_batch_durable ::
  "xenv \<Rightarrow> 'l canonical_ledger \<Rightarrow> memory_entry list \<Rightarrow> nat \<Rightarrow> 'l layered_memory \<Rightarrow>
   'l layered_memory \<times> (mutation_error + memory_entry list)" where
  "create_batch_durable x L entries quota m =
     (case entries of
        [] \<Rightarrow> (m, Inr [])
      | first # _ \<Rightarrow>
     (let agent_id = en_agent_id first; tier = en_tier first in
      if tier = Ephemeral then (m, Inl (MutationInvalidContent ''ephemeral_revision_not_durable''))
      else
     (case seal_batch x agent_id tier ''invalid_batch_boundary'' entries of
        Inl err \<Rightarrow> (m, Inl err)
      | Inr sealed \<Rightarrow>
     (let current = count_for_agent m agent_id in
      if quota > 0 \<and> saturating_add_u64 current (length sealed) > quota
      then (m, Inl (MutationQuotaExceeded current quota))
      else
     (case lm_ledger m of
        None \<Rightarrow> (m, Inl PersistenceUnavailable)
      | Some l \<Rightarrow>
     (case res_mapM entry_to_revision sealed of
        Inl err \<Rightarrow> (m, Inl (MutationLedger err))
      | Inr revisions \<Rightarrow>
     (case lgr_commit_roots L agent_id tier revisions l of
        (l', Inl err) \<Rightarrow> (m\<lparr>lm_ledger := Some l'\<rparr>, Inl (MutationLedger err))
      | (l', Inr rcs) \<Rightarrow>
          (let published = map2 dated sealed rcs @ drop (length rcs) sealed in
           (tier_update tier (append_entries agent_id published) (m\<lparr>lm_ledger := Some l'\<rparr>),
            Inr published)))))))))"

definition create_working_batch_durable ::
  "xenv \<Rightarrow> 'l canonical_ledger \<Rightarrow> memory_entry list \<Rightarrow> nat \<Rightarrow> 'l layered_memory \<Rightarrow>
   'l layered_memory \<times> (mutation_error + memory_entry list)" where
  "create_working_batch_durable x L entries quota m =
     (case entries of
        [] \<Rightarrow> (m, Inr [])
      | first # _ \<Rightarrow>
     (let agent_id = en_agent_id first in
     (case seal_batch x agent_id Working ''invalid_batch_identity'' entries of
        Inl err \<Rightarrow> (m, Inl err)
      | Inr sealed \<Rightarrow>
     (case lm_ledger m of
        None \<Rightarrow> (m, Inl PersistenceUnavailable)
      | Some l \<Rightarrow>
     (let non_working_count = sum_list (map (\<lambda>tier. length (get_tier m agent_id tier))
                                [Ephemeral, LongTerm, Procedural]);
          m1 = m\<lparr>lm_working := or_default agent_id (lm_working m)\<rparr>;
          current = non_working_count + length (tier_entries (lm_working m1) agent_id)
      in
      if quota > 0 \<and> saturating_add_u64 current (length sealed) > quota
      then (m1, Inl (MutationQuotaExceeded current quota))
      else
     (case res_mapM entry_to_revision sealed of
        Inl err \<Rightarrow> (m1, Inl (MutationLedger err))
      | Inr revisions \<Rightarrow>
     (case lgr_commit_roots L agent_id Working revisions l of
        (l', Inl err) \<Rightarrow> (m1\<lparr>lm_ledger := Some l'\<rparr>, Inl (MutationLedger err))
      | (l', Inr rcs) \<Rightarrow>
          (let published = map2 dated sealed rcs @ drop (length rcs) sealed in
           (m1\<lparr>lm_ledger := Some l',
               lm_working := append_entries agent_id published (lm_working m1)\<rparr>,
            Inr published)))))))))"

definition revise_candidate ::
  "xenv \<Rightarrow> nat \<Rightarrow> string \<Rightarrow> string \<Rightarrow> string \<Rightarrow> string \<Rightarrow> mutation" where
  "revise_candidate x now new_revision_id namespace entry_id new_content = (\<lambda>candidate.
     res_bind (ok_or (find (\<lambda>e. en_id e = entry_id) candidate) (MutationNotFound entry_id)) (\<lambda>previous.
     res_bind (ensure (en_tenant_id previous = namespace) (MutationNamespaceMismatch entry_id)) (\<lambda>_.
     res_bind (ensure (en_deleted_at previous = None \<and> en_superseded_by previous = None)
                 (MutationInactive entry_id)) (\<lambda>_.
     res_bind (map_err MutationInvalidContent (canonical_content_hash x (Text new_content))) (\<lambda>h.
     Inr (candidate @ [\<lparr>en_id = new_revision_id, en_memory_id = en_memory_id previous,
            en_parent_revision_id = Some (en_id previous), en_canonical_content_hash = h,
            en_agent_id = en_agent_id previous, en_tenant_id = en_tenant_id previous,
            en_tier = Working, en_content = Text new_content, en_importance = en_importance previous,
            en_access_count = 0, en_last_accessed = now, en_created_at = now,
            en_tags = en_tags previous, en_ttl_ms = en_ttl_ms previous,
            en_original_ttl_ms = en_original_ttl_ms previous, en_scope = en_scope previous,
            en_memory_type = en_memory_type previous, en_causal_parent = en_causal_parent previous,
            en_supersedes = None, en_superseded_by = None, en_deleted_at = None\<rparr>], None))))))"

definition update_working_durable ::
  "xenv \<Rightarrow> 'l canonical_ledger \<Rightarrow> nat \<Rightarrow> string \<Rightarrow> string \<Rightarrow> string \<Rightarrow> string \<Rightarrow> string \<Rightarrow>
   'l layered_memory \<Rightarrow> 'l layered_memory \<times> (mutation_error + memory_entry)" where
  "update_working_durable x L now uuid agent_id namespace entry_id new_content m =
     (if trim_is_empty new_content then (m, Inl MutationEmptyContent)
      else commit_working_mutation L agent_id entry_id
             (revise_candidate x now uuid namespace entry_id new_content) m)"

definition delete_candidate :: "nat \<Rightarrow> string \<Rightarrow> string \<Rightarrow> string \<Rightarrow> mutation" where
  "delete_candidate now new_revision_id namespace entry_id = (\<lambda>candidate.
     res_bind (ok_or (find (\<lambda>e. en_id e = entry_id) candidate) (MutationNotFound entry_id)) (\<lambda>entry.
     res_bind (ensure (en_tenant_id entry = namespace) (MutationNamespaceMismatch entry_id)) (\<lambda>_.
     res_bind (ensure (en_deleted_at entry = None)
                 (MutationLedger (HeadConflict (en_memory_id entry) (ExpectRevision entry_id)
                    (Some (en_id entry))))) (\<lambda>_.
     case find (\<lambda>e. en_parent_revision_id e = Some entry_id) candidate of
       Some child \<Rightarrow>
         if en_deleted_at child \<noteq> None then Inr (candidate, Some child)
         else Inl (MutationLedger (HeadConflict (en_memory_id entry) (ExpectRevision entry_id)
                (Some (en_id child))))
     | None \<Rightarrow>
         Inr (candidate @ [entry\<lparr>en_id := new_revision_id,
                en_parent_revision_id := Some (en_id entry), en_access_count := 0,
                en_last_accessed := now, en_created_at := now, en_deleted_at := Some now,
                en_superseded_by := None\<rparr>], None)))))"

definition delete_working_durable ::
  "'l canonical_ledger \<Rightarrow> nat \<Rightarrow> string \<Rightarrow> string \<Rightarrow> string \<Rightarrow> string \<Rightarrow>
   'l layered_memory \<Rightarrow> 'l layered_memory \<times> (mutation_error + memory_entry)" where
  "delete_working_durable L now uuid agent_id namespace entry_id m =
     commit_working_mutation L agent_id entry_id (delete_candidate now uuid namespace entry_id) m"

text \<open>Rebuilding one role: each durable tier gets the restored entries or loses the role.\<close>

definition restore_tier ::
  "string \<Rightarrow> (memory_tier \<times> canonical_revision list) list \<Rightarrow> memory_tier \<Rightarrow> tier_map \<Rightarrow> tier_map" where
  "restore_tier agent_id restored tier t =
     (case collect_map restored tier of
        Some records \<Rightarrow> AList.update agent_id (map (\<lambda>r. into_runtime_entry r agent_id) records) t
      | None \<Rightarrow> AList.delete agent_id t)"

definition restore_agent ::
  "'l canonical_ledger \<Rightarrow> string \<Rightarrow> 'l layered_memory \<Rightarrow> 'l layered_memory \<times> (ledger_error + unit)" where
  "restore_agent L agent_id m =
     (case lm_ledger m of
        None \<Rightarrow> (m, Inr ())
      | Some l \<Rightarrow>
          (case lgr_rebuild_origin_role L agent_id l of
             Inl err \<Rightarrow> (m, Inl err)
           | Inr restored \<Rightarrow>
               (fold (\<lambda>tier. tier_update tier (restore_tier agent_id restored tier))
                  [Working, LongTerm, Procedural] m, Inr ())))"

section \<open>Statistics\<close>

text \<open>
  \<open>avg_access_count\<close> is the single-precision quotient of two counters; the model keeps the
  counters.  The procedural tier adds to the accesses but not to the number of entries.
\<close>

record memory_stats =
  ms_total_entries :: nat
  ms_total_bytes :: nat
  ms_oldest_entry_age_ms :: nat
  ms_avg_access_count :: "(nat \<times> nat) option"
  ms_never_accessed_count :: nat
  ms_about_to_expire_count :: nat
  ms_ephemeral_entries :: nat
  ms_working_entries :: nat
  ms_longterm_entries :: nat

definition about_to_expire :: "nat \<Rightarrow> memory_entry \<Rightarrow> bool" where
  "about_to_expire now e =
     (case (en_ttl_ms e, en_original_ttl_ms e) of
        (Some ttl, Some original) \<Rightarrow> ttl - (now - en_created_at e) \<le> original div 10
      | _ \<Rightarrow> False)"

definition all_entries :: "memory_tier \<Rightarrow> 'l layered_memory \<Rightarrow> memory_entry list" where
  "all_entries tier m = concat (map snd (tier_of tier m))"

definition get_stats :: "(json \<Rightarrow> string) \<Rightarrow> nat \<Rightarrow> 'l layered_memory \<Rightarrow> memory_stats" where
  "get_stats json_str now m =
     (let counted = concat (map (\<lambda>tier. all_entries tier m) [Ephemeral, Working, LongTerm]);
          entries = counted @ all_entries Procedural m;
          total = length counted;
          accesses = sum_list (map en_access_count entries)
      in \<lparr>ms_total_entries = total,
          ms_total_bytes = sum_list (map (\<lambda>e. length (content_display json_str (en_content e))) counted),
          ms_oldest_entry_age_ms = fold (\<lambda>e oldest. max oldest (now - en_created_at e)) entries 0,
          ms_avg_access_count = (if total > 0 then Some (accesses, total) else None),
          ms_never_accessed_count = length (filter (\<lambda>e. en_access_count e = 0) entries),
          ms_about_to_expire_count = length (filter (about_to_expire now) entries),
          ms_ephemeral_entries = length (all_entries Ephemeral m),
          ms_working_entries = length (all_entries Working m),
          ms_longterm_entries = length (all_entries LongTerm m)\<rparr>)"

end
