(* ===== verification/Layered_Coherence.thy ===== *)
theory Layered_Coherence
  imports Layered_Memory
begin

text \<open>
  The runtime memory mirrors the ledger.  The contract of the ledger trait is a locale; inside it
  every operation of the runtime memory is shown to keep the mirror.  The usage statistics of an
  entry (importance, access counter, last access) and the instant of a deletion are runtime data
  that the ledger does not restore; \<open>durable_part\<close> forgets them.
\<close>

section \<open>Maps of entries\<close>

lemma tier_entries_update [simp]:
  "tier_entries (AList.update a es t) b = (if a = b then es else tier_entries t b)"
  by (simp add: tier_entries_def update_conv')

lemma tier_entries_delete [simp]:
  "tier_entries (AList.delete a t) b = (if a = b then [] else tier_entries t b)"
  by (simp add: tier_entries_def delete_conv')

lemma tier_entries_or_default [simp]: "tier_entries (or_default a t) b = tier_entries t b"
  by (simp add: or_default_def)

lemma tier_entries_append [simp]:
  "tier_entries (append_entries a es t) b = tier_entries t b @ (if a = b then es else [])"
  by (simp add: append_entries_def)

lemma tier_of_update [simp]:
  "tier_of t (tier_update u f m) = (if t = u then f (tier_of t m) else tier_of t m)"
  by (cases t; cases u) simp_all

lemma lm_ledger_tier_update [simp]: "lm_ledger (tier_update t f m) = lm_ledger m"
  by (cases t) simp_all

lemma tier_of_ledger [simp]: "tier_of t (m\<lparr>lm_ledger := l\<rparr>) = tier_of t m"
  by (cases t) simp_all

lemma tier_of_op_count [simp]: "tier_of t (m\<lparr>lm_op_count := n\<rparr>) = tier_of t m"
  by (cases t) simp_all

lemma tier_of_working [simp]:
  "tier_of t (m\<lparr>lm_working := w\<rparr>) = (if t = Working then w else tier_of t m)"
  by (cases t) simp_all

lemma tier_of_ephemeral [simp]:
  "tier_of t (m\<lparr>lm_ephemeral := w\<rparr>) = (if t = Ephemeral then w else tier_of t m)"
  by (cases t) simp_all

section \<open>What the ledger restores of an entry\<close>

definition durable_part :: "memory_entry \<Rightarrow> memory_entry" where
  "durable_part e = e\<lparr>en_importance := 0, en_access_count := 0, en_last_accessed := 0,
     en_deleted_at := map_option (\<lambda>_. 0) (en_deleted_at e)\<rparr>"

lemma durable_part_fields:
  assumes "durable_part e = durable_part e'"
  shows "en_id e = en_id e'" "en_memory_id e = en_memory_id e'"
    "en_parent_revision_id e = en_parent_revision_id e'" "en_agent_id e = en_agent_id e'"
    "en_original_ttl_ms e = en_original_ttl_ms e'" "en_superseded_by e = en_superseded_by e'"
    "en_content e = en_content e'" "en_tags e = en_tags e'" "en_tenant_id e = en_tenant_id e'"
    "en_deleted_at e = None \<longleftrightarrow> en_deleted_at e' = None"
  using assms by (cases e; cases e'; auto simp: durable_part_def)+

lemma durable_part_dated:
  assumes "entry_to_revision e = Inr r"
  shows "durable_part (dated e rc) =
    durable_part (into_runtime_entry (stamp_revision role (cm_committed_at rc) n r) (en_agent_id e))"
  using assms by (cases e) (auto simp: entry_to_revision_def into_runtime_entry_def res_simps
      durable_part_def dated_def stamp_revision_def)

lemma dated_fields [simp]: "en_tier (dated e rc) = en_tier e" "en_agent_id (dated e rc) = en_agent_id e"
  by (simp_all add: dated_def)

lemma durable_part_touched: "durable_part (touched now e) = durable_part e"
  by (simp add: durable_part_def touched_def)

lemma durable_part_access:
  "en_original_ttl_ms e = None \<Longrightarrow> durable_part (on_memory_access now e) = durable_part e"
  by (simp add: durable_part_def on_memory_access_def)

lemma touch_first_durable:
  "touch_first now i es = Some es' \<Longrightarrow> map durable_part es' = map durable_part es"
  by (induction es arbitrary: es') (auto simp: durable_part_touched split: if_splits)

lemma entry_to_revision_tier [simp]:
  "entry_to_revision e = Inr r \<Longrightarrow> rv_cognitive_tier r = en_tier e"
  by (auto simp: entry_to_revision_def res_simps)

lemma durable_part_batch:
  assumes "res_mapM entry_to_revision es = Inr revs" and "length rcs = length es"
    and "\<forall>rc \<in> set rcs. cm_committed_at rc = now" and "\<forall>e \<in> set es. en_agent_id e = a"
  shows "map durable_part (map2 dated es rcs)
    = map (\<lambda>r. durable_part (into_runtime_entry r a)) (stamp_revisions role now n revs)"
  using assms
proof (induction es arbitrary: revs rcs n)
  case (Cons e es)
  then obtain rc rcs' where rc: "rcs = rc # rcs'" by (cases rcs) auto
  from Cons.prems(1) obtain r rs where r: "entry_to_revision e = Inr r"
    "res_mapM entry_to_revision es = Inr rs" "revs = r # rs" by (auto simp: res_simps)
  show ?case
    using Cons.IH [OF r(2), of rcs' "Suc n"] Cons.prems(2-) rc r(3) durable_part_dated [OF r(1), of rc role n]
    by simp
qed simp

section \<open>The outcomes of a mutation\<close>

lemma commit_working_mutation_cases:
  assumes "commit_working_mutation L caller i mutate m = (m', r)"
  obtains (failed) e where "m' = m" "r = Inl e"
  | (existing) l origin live cand e where "m' = m" "r = Inr e" "lm_ledger m = Some l"
      "lgr_origin_for_revision L caller i True l = Inr (Some origin)" "map_of (lm_working m) origin = Some live"
      "mutate live = Inr (cand, Some e)"
  | (refused) l l' rev e where "lm_ledger m = Some l" "m' = m\<lparr>lm_ledger := Some l'\<rparr>"
      "lgr_commit_expected L caller Working (ExpectRevision i) rev l = (l', Inl e)" "r = Inl (MutationLedger e)"
  | (committed) l origin live cand e rev l' rc where "lm_ledger m = Some l"
      "lgr_origin_for_revision L caller i True l = Inr (Some origin)" "map_of (lm_working m) origin = Some live"
      "mutate live = Inr (cand, None)" "last_opt cand = Some e" "en_id e \<noteq> i" "entry_to_revision e = Inr rev"
      "lgr_commit_expected L caller Working (ExpectRevision i) rev l = (l', Inr rc)"
      "m' = m\<lparr>lm_ledger := Some l', lm_working := AList.update origin (butlast cand @ [dated e rc]) (lm_working m)\<rparr>"
      "r = Inr (dated e rc)"
proof (cases "lm_ledger m")
  case None
  then show thesis using assms failed by (auto simp: commit_working_mutation_def)
next
  case (Some l)
  note l = this
  show thesis
  proof (cases "\<exists>origin live cand. lgr_origin_for_revision L caller i True l = Inr (Some origin)
      \<and> map_of (lm_working m) origin = Some live \<and> mutate live = Inr (cand, None)")
    case False
    then show thesis
      using assms l failed existing unfolding commit_working_mutation_def
      by (auto split: sum.splits option.splits prod.splits)
  next
    case True
    then obtain origin live cand where o: "lgr_origin_for_revision L caller i True l = Inr (Some origin)"
      "map_of (lm_working m) origin = Some live" "mutate live = Inr (cand, None)" by blast
    show thesis
    proof (cases "\<exists>e rev. last_opt cand = Some e \<and> en_id e \<noteq> i \<and> entry_to_revision e = Inr rev")
      case False
      then show thesis
        using assms l o failed unfolding commit_working_mutation_def
        by (auto split: sum.splits option.splits prod.splits if_splits simp: bind_eq_Some_conv)
    next
      case True
      then obtain e rev where e: "last_opt cand = Some e" "en_id e \<noteq> i" "entry_to_revision e = Inr rev" by blast
      obtain l' q where q: "lgr_commit_expected L caller Working (ExpectRevision i) rev l = (l', q)" by force
      show thesis
        using assms l o e q refused [OF l] committed [OF l o e] unfolding commit_working_mutation_def
        by (cases q) auto
    qed
  qed
qed

definition appends_revision :: "mutation \<Rightarrow> bool" where
  "appends_revision mutate \<longleftrightarrow> (\<forall>live cand. mutate live = Inr (cand, None) \<longrightarrow>
     (\<exists>e \<in> set live. \<exists>new. cand = live @ [new] \<and> en_agent_id new = en_agent_id e))"

lemma revise_candidate_appends: "appends_revision (revise_candidate x now uuid ns i content)"
  by (auto simp: appends_revision_def revise_candidate_def res_simps dest: find_Some_in)

lemma delete_candidate_appends: "appends_revision (delete_candidate now uuid ns i)"
  by (auto simp: appends_revision_def delete_candidate_def res_simps dest: find_Some_in
      split: option.splits if_splits)

section \<open>The contract of the ledger\<close>

definition of_tier :: "memory_tier \<Rightarrow> canonical_revision list \<Rightarrow> canonical_revision list" where
  "of_tier t = filter (\<lambda>r. rv_cognitive_tier r = t)"

lemma of_tier_Nil [simp]: "of_tier t [] = []"
  by (simp add: of_tier_def)

lemma of_tier_append [simp]: "of_tier t (rs @ ss) = of_tier t rs @ of_tier t ss"
  by (simp add: of_tier_def)

text \<open>The durable tiers hold, role by role and in order, what the ledger would restore.\<close>

definition mirrors ::
  "('l \<Rightarrow> bool) \<Rightarrow> ('l \<Rightarrow> string \<Rightarrow> canonical_revision list) \<Rightarrow> 'l layered_memory \<Rightarrow> bool" where
  "mirrors ok owned m \<longleftrightarrow> (\<exists>l. lm_ledger m = Some l \<and> ok l \<and> (\<forall>role t. t \<noteq> Ephemeral \<longrightarrow>
     map durable_part (get_tier m role t)
     = map (\<lambda>r. durable_part (into_runtime_entry r role)) (of_tier t (owned l role))))"

section \<open>Runs\<close>

text \<open>
  One operation on the runtime memory; \<open>L\<close> is the family of ledgers that the calls may meet.
\<close>

inductive runtime_step ::
  "xenv \<Rightarrow> ('i \<Rightarrow> 'l canonical_ledger) \<Rightarrow> 'l layered_memory \<Rightarrow> 'l layered_memory \<Rightarrow> bool"
  for x L where
    store_step: "store_checked x e quota m = (m', r) \<Longrightarrow> runtime_step x L m m'"
  | evict_step: "evict_ephemeral a m = (m', es) \<Longrightarrow> runtime_step x L m m'"
  | clear_step: "clear_ephemeral a m = (m', k) \<Longrightarrow> runtime_step x L m m'"
  | recall_step: "recall_with_tracking now a m = (m', es) \<Longrightarrow> runtime_step x L m m'"
  | touch_step: "touch_entry now a e_id m = (m', b) \<Longrightarrow> runtime_step x L m m'"
  | create_step: "create_durable x (L i) e quota m = (m', res) \<Longrightarrow> runtime_step x L m m'"
  | batch_step: "create_batch_durable x (L i) batch quota m = (m', ress) \<Longrightarrow> runtime_step x L m m'"
  | working_batch_step:
      "create_working_batch_durable x (L i) batch quota m = (m', ress) \<Longrightarrow> runtime_step x L m m'"
  | update_step:
      "update_working_durable x (L i) now uuid a ns e_id content m = (m', res) \<Longrightarrow> runtime_step x L m m'"
  | delete_step: "delete_working_durable (L i) now uuid a ns e_id m = (m', res) \<Longrightarrow> runtime_step x L m m'"
  | restore_step: "restore_agent (L i) a m = (m', q) \<Longrightarrow> runtime_step x L m m'"

text \<open>
  The start of the kernel rebuilds every origin role and stops at the first failure; \<open>restore_all\<close> is
  the loop when no call fails.
\<close>

definition restore_memories :: "'l canonical_ledger \<Rightarrow> 'l \<Rightarrow> 'l layered_memory \<Rightarrow> ledger_error + 'l layered_memory" where
  "restore_memories L l m =
     res_bind (lgr_list_origin_roles L l) (\<lambda>roles.
     res_foldM (\<lambda>m role. case restore_agent L role m of (m', r) \<Rightarrow> res_bind r (\<lambda>_. Inr m')) m roles)"

definition restore_all :: "'l canonical_ledger \<Rightarrow> string list \<Rightarrow> 'l layered_memory \<Rightarrow> 'l layered_memory" where
  "restore_all L roles m = fold (\<lambda>role m. fst (restore_agent L role m)) roles m"

text \<open>The index stands for what varies from call to call: the clock, fresh identifiers, I/O faults.\<close>

locale durable_ledger =
  fixes L :: "'i \<Rightarrow> 'l canonical_ledger"
    and ok :: "'l \<Rightarrow> bool"
    and owned :: "'l \<Rightarrow> string \<Rightarrow> canonical_revision list"
  assumes rebuild: "ok l \<Longrightarrow> \<exists>rs. lgr_rebuild_origin_role (L i) role l = Inr rs
      \<and> (\<forall>t. t \<noteq> Ephemeral \<longrightarrow> collect_map rs t =
            (if of_tier t (owned l role) = [] then None else Some (of_tier t (owned l role))))"
    and origin_roles: "ok l \<Longrightarrow> \<exists>roles. lgr_list_origin_roles (L i) l = Inr roles
      \<and> (\<forall>role. owned l role \<noteq> [] \<longrightarrow> role \<in> set roles)"
    and refused: "ok l \<Longrightarrow> lgr_commit_expected (L i) role tier h r l = (l', Inl e) \<Longrightarrow>
      ok l' \<and> owned l' = owned l"
    and roots_refused: "ok l \<Longrightarrow> lgr_commit_roots (L i) role tier rs l = (l', Inl e) \<Longrightarrow>
      ok l' \<and> owned l' = owned l"
    and committed_root: "ok l \<Longrightarrow> lgr_commit_expected (L i) role tier ExpectAbsent r l = (l', Inr rc) \<Longrightarrow>
      ok l' \<and> rv_cognitive_tier r = tier
      \<and> (\<exists>n. \<forall>ro. owned l' ro = owned l ro
            @ (if ro = role then [stamp_revision role (cm_committed_at rc) n r] else []))"
    and committed_roots: "ok l \<Longrightarrow> lgr_commit_roots (L i) role tier rs l = (l', Inr rcs) \<Longrightarrow>
      ok l' \<and> (\<forall>r \<in> set rs. rv_cognitive_tier r = tier) \<and> length rcs = length rs
      \<and> (\<exists>now n. (\<forall>rc \<in> set rcs. cm_committed_at rc = now)
          \<and> (\<forall>ro. owned l' ro = owned l ro @ (if ro = role then stamp_revisions role now n rs else [])))"
    and committed_next: "ok l \<Longrightarrow> lgr_origin_for_revision (L j) role head True l = Inr (Some origin) \<Longrightarrow>
      lgr_commit_expected (L i) role tier (ExpectRevision head) r l = (l', Inr rc) \<Longrightarrow>
      ok l' \<and> rv_cognitive_tier r = tier
      \<and> (\<exists>n. \<forall>ro. owned l' ro = owned l ro
            @ (if ro = origin then [stamp_revision role (cm_committed_at rc) n r] else []))"
begin

abbreviation mirror :: "'l layered_memory \<Rightarrow> bool" where
  "mirror \<equiv> mirrors ok owned"

lemma mirrorI:
  assumes "mirror m" and "lm_ledger m' = lm_ledger m"
    and "\<And>role t. t \<noteq> Ephemeral \<Longrightarrow>
          map durable_part (get_tier m' role t) = map durable_part (get_tier m role t)"
  shows "mirror m'"
  using assms unfolding mirrors_def by auto

lemma mirror_entry:
  assumes "mirror m" and "t \<noteq> Ephemeral" and "e \<in> set (get_tier m role t)"
  shows "en_original_ttl_ms e = None" "en_agent_id e = role"
proof -
  obtain rs where "map durable_part (get_tier m role t) = map (\<lambda>r. durable_part (into_runtime_entry r role)) rs"
    using assms(1,2) unfolding mirrors_def by blast
  then have "durable_part e \<in> (\<lambda>r. durable_part (into_runtime_entry r role)) ` set rs"
    using assms(3) by (metis image_eqI image_set)
  then obtain r where "durable_part e = durable_part (into_runtime_entry r role)" by blast
  from durable_part_fields(4,5) [OF this] show "en_original_ttl_ms e = None" "en_agent_id e = role"
    by (simp_all add: into_runtime_entry_def)
qed

lemma mirror_grow:
  assumes "mirror m" and "lm_ledger m = Some l" and "ok l'"
    and grow: "\<forall>ro. owned l' ro = owned l ro @ (if ro = origin then new else [])"
    and tier: "tier \<noteq> Ephemeral" "\<forall>r \<in> set new. rv_cognitive_tier r = tier"
    and m': "lm_ledger m' = Some l'"
    and es: "map durable_part es = map (\<lambda>r. durable_part (into_runtime_entry r origin)) new"
    and tiers: "\<And>role t. t \<noteq> Ephemeral \<Longrightarrow>
      map durable_part (get_tier m' role t)
      = map durable_part (get_tier m role t @ (if role = origin \<and> t = tier then es else []))"
  shows "mirror m'"
proof -
  have "of_tier t new = (if t = tier then new else [])" for t
    using tier(2) by (auto simp: of_tier_def filter_empty_conv intro: filter_True)
  then show ?thesis
    using assms(1-3) m' grow es tiers unfolding mirrors_def by auto
qed

lemma store_inner_mirror:
  assumes "mirror m" and "en_tier e = Ephemeral"
  shows "mirror (store_inner e m)"
  by (rule mirrorI [OF assms(1)]) (simp_all add: store_inner_def assms(2) get_tier_def)

lemma tick_mirror: "mirror m \<Longrightarrow> mirror (fst (tick m))"
  by (erule mirrorI) (simp_all add: tick_def Let_def get_tier_def)

lemma seal_keeps_tier:
  "seal_root_identity x e = Inr e' \<Longrightarrow> en_tier e' = en_tier e \<and> en_agent_id e' = en_agent_id e"
  by (auto simp: seal_root_identity_def Let_def res_simps split: if_splits)

lemma store_mirror: "mirror m \<Longrightarrow> mirror (fst (store x e m))"
  by (auto simp: store_def split: sum.splits intro: store_inner_mirror tick_mirror)

lemma store_checked_mirror: "mirror m \<Longrightarrow> mirror (fst (store_checked x e quota m))"
  by (simp add: store_checked_def Let_def store_mirror)

lemma evict_ephemeral_mirror: "mirror m \<Longrightarrow> mirror (fst (evict_ephemeral a m))"
  by (erule mirrorI) (simp_all add: evict_ephemeral_def get_tier_def)

lemma clear_ephemeral_mirror: "mirror m \<Longrightarrow> mirror (fst (clear_ephemeral a m))"
  by (erule mirrorI) (simp_all add: clear_ephemeral_def get_tier_def)

lemma recall_mirror:
  assumes "mirror m"
  shows "mirror (fst (recall_with_tracking now a m))"
proof (rule mirrorI [OF assms])
  fix role t
  assume t: "t \<noteq> Ephemeral"
  have step: "tier_entries (access_tier now a u) role
      = (if role = a then map (on_memory_access now) (tier_entries u role) else tier_entries u role)" for u
    by (auto simp: access_tier_def tier_entries_def update_conv' split: option.splits)
  have "get_tier (fst (recall_with_tracking now a m)) role t
      = (if role = a then map (on_memory_access now) (get_tier m role t) else get_tier m role t)"
    by (cases t) (simp_all add: recall_with_tracking_def Let_def get_tier_def step)
  then show "map durable_part (get_tier (fst (recall_with_tracking now a m)) role t)
      = map durable_part (get_tier m role t)"
    using mirror_entry(1) [OF assms t] by (simp add: durable_part_access comp_def)
qed (simp add: recall_with_tracking_def Let_def)

lemma touch_tiers_keeps:
  "touch_tiers now a i ts m = (m', b) \<Longrightarrow> lm_ledger m' = lm_ledger m
   \<and> map durable_part (get_tier m' role t) = map durable_part (get_tier m role t)"
proof (induction ts arbitrary: m)
  case (Cons u ts)
  show ?case
  proof (cases "Option.bind (map_of (tier_of u m) a) (touch_first now i)")
    case None
    then show ?thesis using Cons by simp
  next
    case (Some es)
    then obtain old where old: "map_of (tier_of u m) a = Some old" "touch_first now i old = Some es"
      by (auto simp: bind_eq_Some_conv)
    then have "map durable_part es = map durable_part (tier_entries (tier_of u m) a)"
      using touch_first_durable by (simp add: tier_entries_def)
    moreover have "m' = tier_update u (AList.update a es) m" using Cons.prems Some by simp
    ultimately show ?thesis by (simp add: get_tier_def)
  qed
qed simp

lemma touch_entry_mirror: "mirror m \<Longrightarrow> mirror (fst (touch_entry now a i m))"
  by (erule mirrorI) (metis touch_entry_def touch_tiers_keeps prod.collapse)+

lemma restore_agent_mirror:
  assumes "lm_ledger m = Some l" and "ok l"
  shows "snd (restore_agent (L i) a m) = Inr ()"
    and "lm_ledger (fst (restore_agent (L i) a m)) = Some l"
    and "t \<noteq> Ephemeral \<Longrightarrow> get_tier (fst (restore_agent (L i) a m)) role t =
      (if role = a then map (\<lambda>r. into_runtime_entry r a) (of_tier t (owned l a)) else get_tier m role t)"
proof -
  obtain rs where rs: "lgr_rebuild_origin_role (L i) a l = Inr rs"
    and tiers: "\<forall>t. t \<noteq> Ephemeral \<longrightarrow> collect_map rs t =
            (if of_tier t (owned l a) = [] then None else Some (of_tier t (owned l a)))"
    using rebuild [OF assms(2)] by blast
  have step: "tier_entries (restore_tier a rs t u) role = (if role = a
      then map (\<lambda>r. into_runtime_entry r a) (of_tier t (owned l a)) else tier_entries u role)"
    if "t \<noteq> Ephemeral" for t u
    using that tiers by (simp add: restore_tier_def)
  show "snd (restore_agent (L i) a m) = Inr ()" "lm_ledger (fst (restore_agent (L i) a m)) = Some l"
    using assms(1) rs by (simp_all add: restore_agent_def)
  show "get_tier (fst (restore_agent (L i) a m)) role t =
      (if role = a then map (\<lambda>r. into_runtime_entry r a) (of_tier t (owned l a)) else get_tier m role t)"
    if "t \<noteq> Ephemeral"
    using assms(1) rs step that by (cases t) (simp_all add: restore_agent_def get_tier_def)
qed

lemma restore_keeps_mirror:
  assumes "mirror m"
  shows "mirror (fst (restore_agent (L i) a m))"
proof -
  obtain l where l: "lm_ledger m = Some l" "ok l" using assms unfolding mirrors_def by blast
  show ?thesis
    using assms l restore_agent_mirror(2,3) [OF l] unfolding mirrors_def by auto
qed

lemma mirror_refused:
  assumes "mirror m" and "lm_ledger m = Some l" and "ok l' \<and> owned l' = owned l"
    and "\<And>role t. t \<noteq> Ephemeral \<Longrightarrow> get_tier m' role t = get_tier m role t"
    and "lm_ledger m' = Some l'"
  shows "mirror m'"
  using assms unfolding mirrors_def by auto

lemma mutation_mirror:
  assumes mirror: "mirror m" and app: "appends_revision mutate"
    and run: "commit_working_mutation (L i) caller h mutate m = (m', r)"
  shows "mirror m'"
  using run
proof (cases rule: commit_working_mutation_cases)
  case (refused l l' rev e)
  have "ok l" using mirror refused(1) by (auto simp: mirrors_def)
  then have "ok l' \<and> owned l' = owned l" using durable_ledger.refused [OF durable_ledger_axioms] refused(3) by blast
  then show ?thesis
    using mirror refused(1,2) by (intro mirror_refused [of m l l' m']) (simp_all add: get_tier_def)
next
  case (committed l origin live cand e rev l' rc)
  have ok: "ok l" using mirror committed(1) by (auto simp: mirrors_def)
  obtain n where n: "ok l'" "rv_cognitive_tier rev = Working"
    "\<forall>ro. owned l' ro = owned l ro
       @ (if ro = origin then [stamp_revision caller (cm_committed_at rc) n rev] else [])"
    using committed_next [OF ok committed(2,8)] by blast
  obtain prev new where app': "prev \<in> set live" "cand = live @ [new]" "en_agent_id new = en_agent_id prev"
    using app committed(4) unfolding appends_revision_def by blast
  have live: "get_tier m origin Working = live" using committed(3) by (simp add: get_tier_def tier_entries_def)
  have e: "e = new" "en_agent_id e = origin"
    using app' committed(5) mirror_entry(2) [OF mirror, of Working prev origin] live
    by (simp_all add: last_opt_def)
  show ?thesis
  proof (rule mirror_grow [OF mirror committed(1) n(1,3), where tier = Working])
    show "map durable_part [dated e rc] = map (\<lambda>r. durable_part (into_runtime_entry r origin))
        [stamp_revision caller (cm_committed_at rc) n rev]"
      using durable_part_dated [OF committed(7)] e(2) by simp
    show "map durable_part (get_tier m' role t)
        = map durable_part (get_tier m role t @ (if role = origin \<and> t = Working then [dated e rc] else []))"
      if "t \<noteq> Ephemeral" for role t
      using committed(9) live app'(2) by (auto simp: get_tier_def)
  qed (use committed(9) n(2) in \<open>simp_all add: stamp_revision_def\<close>)
qed (use mirror in simp_all)

lemma root_mirror:
  assumes mirror: "mirror m" and l: "lm_ledger m = Some l"
    and e: "entry_to_revision e = Inr rv" and tier: "t \<noteq> Ephemeral"
    and commit: "lgr_commit_expected (L i) (en_agent_id e) t ExpectAbsent rv l = (l', Inr rc)"
    and m': "lm_ledger m' = Some l'"
    and tiers: "\<And>role u. u \<noteq> Ephemeral \<Longrightarrow> get_tier m' role u
      = get_tier m role u @ (if role = en_agent_id e \<and> u = t then [dated e rc] else [])"
  shows "mirror m'"
proof -
  have ok: "ok l" using mirror l by (auto simp: mirrors_def)
  obtain n where n: "ok l'" "rv_cognitive_tier rv = t"
    "\<forall>ro. owned l' ro = owned l ro
       @ (if ro = en_agent_id e then [stamp_revision (en_agent_id e) (cm_committed_at rc) n rv] else [])"
    using committed_root [OF ok commit] by blast
  show ?thesis
    by (rule mirror_grow [OF mirror l n(1,3) tier, where es = "[dated e rc]"])
       (use m' n(2) tiers durable_part_dated [OF e] in \<open>auto simp: stamp_revision_def\<close>)
qed

lemma create_working_durable_mirror:
  assumes mirror: "mirror m" and run: "create_working_durable x (L i) entry quota m = (m', r)"
  shows "mirror m'"
proof -
  obtain l where l: "lm_ledger m = Some l" "ok l" using mirror by (auto simp: mirrors_def)
  consider (same) "lm_ledger m' = lm_ledger m" "\<And>role t. t \<noteq> Ephemeral \<Longrightarrow> get_tier m' role t = get_tier m role t"
    | (commit) e rv l' q where "entry_to_revision e = Inr rv"
        "lgr_commit_expected (L i) (en_agent_id e) Working ExpectAbsent rv l = (l', q)"
        "lm_ledger m' = Some l'" "\<And>role t. t \<noteq> Ephemeral \<Longrightarrow> get_tier m' role t = get_tier m role t
           @ (if role = en_agent_id e \<and> t = Working then (case q of Inl _ \<Rightarrow> [] | Inr rc \<Rightarrow> [dated e rc]) else [])"
    using run l(1)
    by (auto simp: create_working_durable_def Let_def get_tier_def split: sum.splits if_splits prod.splits)
  then show ?thesis
  proof cases
    case same
    then show ?thesis using mirror by (intro mirrorI [OF mirror]) simp_all
  next
    case (commit e rv l' q)
    show ?thesis
    proof (cases q)
      case (Inl err)
      then have "ok l' \<and> owned l' = owned l" using refused l(2) commit(2) by blast
      then show ?thesis using commit(3,4) Inl by (intro mirror_refused [OF mirror l(1)]) simp_all
    next
      case (Inr rc)
      then show ?thesis
        using commit by (intro root_mirror [OF mirror l(1) commit(1), of Working i l' rc m']) simp_all
    qed
  qed
qed

lemma create_durable_mirror:
  assumes mirror: "mirror m" and run: "create_durable x (L i) entry quota m = (m', r)"
  shows "mirror m'"
proof (cases "en_tier entry = Working")
  case True
  then show ?thesis using run create_working_durable_mirror [OF mirror] by (simp add: create_durable_def)
next
  case False
  obtain l where l: "lm_ledger m = Some l" "ok l" using mirror by (auto simp: mirrors_def)
  show ?thesis
  proof (cases "\<exists>e rv. seal_root_identity x entry = Inr e \<and> entry_to_revision e = Inr rv
      \<and> en_tier entry \<noteq> Ephemeral \<and> \<not> (quota > 0 \<and> count_for_agent m (en_agent_id e) \<ge> quota)")
    case no: False
    then have "m' = m"
      using run l(1) False by (auto simp: create_durable_def Let_def split: sum.splits if_splits)
    then show ?thesis using mirror by simp
  next
    case True
    then obtain e rv where e: "seal_root_identity x entry = Inr e" "entry_to_revision e = Inr rv"
      "en_tier e \<noteq> Ephemeral" and quota: "\<not> (quota > 0 \<and> count_for_agent m (en_agent_id e) \<ge> quota)"
      using seal_keeps_tier by metis
    obtain l' q where commit: "lgr_commit_expected (L i) (en_agent_id e) (en_tier e) ExpectAbsent rv l = (l', q)"
      by force
    have m': "m' = (case q of Inl _ \<Rightarrow> m\<lparr>lm_ledger := Some l'\<rparr>
        | Inr rc \<Rightarrow> store_inner (dated e rc) (m\<lparr>lm_ledger := Some l'\<rparr>))"
      using run l(1) False e quota commit seal_keeps_tier [OF e(1)]
      by (cases q) (auto simp: create_durable_def Let_def split: if_splits)
    show ?thesis
    proof (cases q)
      case (Inl err)
      then have "ok l' \<and> owned l' = owned l" using refused l(2) commit by blast
      then show ?thesis
        using m' Inl by (intro mirror_refused [OF mirror l(1)]) (simp_all add: get_tier_def)
    next
      case (Inr rc)
      then show ?thesis
        using m' commit e(3) by (intro root_mirror [OF mirror l(1) e(2), of "en_tier e" i l' rc m'])
          (simp_all add: get_tier_def store_inner_def)
    qed
  qed
qed

lemma seal_batch_Inr:
  assumes "seal_batch x a t category es = Inr sealed"
  shows "\<forall>e \<in> set sealed. en_agent_id e = a"
  using assms seal_keeps_tier unfolding seal_batch_def res_mapM_Inr_conv
  by (auto simp: res_simps list_all2_conv_all_nth in_set_conv_nth) (metis)

lemma roots_mirror:
  assumes mirror: "mirror m" and l: "lm_ledger m = Some l" and tier: "t \<noteq> Ephemeral"
    and sealed: "seal_batch x a u category es = Inr sealed" and revs: "res_mapM entry_to_revision sealed = Inr revs"
    and commit: "lgr_commit_roots (L i) a t revs l = (l', q)"
    and m': "lm_ledger m' = Some l'"
    and tiers: "\<And>role u. u \<noteq> Ephemeral \<Longrightarrow> get_tier m' role u = get_tier m role u
      @ (if role = a \<and> u = t then (case q of Inl _ \<Rightarrow> [] | Inr rcs \<Rightarrow> map2 dated sealed rcs @ drop (length rcs) sealed) else [])"
  shows "mirror m'"
proof (cases q)
  case (Inl err)
  then have "ok l' \<and> owned l' = owned l" using roots_refused commit mirror l by (auto simp: mirrors_def)
  then show ?thesis using tiers m' Inl by (intro mirror_refused [OF mirror l]) simp_all
next
  case (Inr rcs)
  have ok: "ok l" using mirror l by (auto simp: mirrors_def)
  obtain now n where n: "ok l'" "\<forall>r \<in> set revs. rv_cognitive_tier r = t" "length rcs = length revs"
    "\<forall>rc \<in> set rcs. cm_committed_at rc = now"
    "\<forall>ro. owned l' ro = owned l ro @ (if ro = a then stamp_revisions a now n revs else [])"
    using committed_roots [OF ok commit [unfolded Inr]] by blast
  have len: "length rcs = length sealed" using n(3) res_mapM_length [OF revs] by simp
  have new: "\<forall>r \<in> set (stamp_revisions a now n revs). rv_cognitive_tier r = t"
    using n(2) by (auto simp: stamp_revisions_def stamp_revision_def in_set_enumerate_eq)
  show ?thesis
    using tiers Inr len m' durable_part_batch [OF revs len n(4) seal_batch_Inr [OF sealed]]
    by (intro mirror_grow [OF mirror l n(1,5) tier new, where es = "map2 dated sealed rcs"]) simp_all
qed

lemma create_batch_durable_mirror:
  assumes mirror: "mirror m" and run: "create_batch_durable x (L i) entries quota m = (m', r)"
  shows "mirror m'"
proof (cases entries)
  case Nil
  then show ?thesis using run mirror by (simp add: create_batch_durable_def)
next
  case (Cons first rest)
  obtain l where l: "lm_ledger m = Some l" using mirror by (auto simp: mirrors_def)
  let ?a = "en_agent_id first" and ?t = "en_tier first"
  show ?thesis
  proof (cases "\<exists>sealed revs. seal_batch x ?a ?t ''invalid_batch_boundary'' entries = Inr sealed
      \<and> res_mapM entry_to_revision sealed = Inr revs \<and> ?t \<noteq> Ephemeral
      \<and> \<not> (quota > 0 \<and> saturating_add_u64 (count_for_agent m ?a) (length sealed) > quota)")
    case False
    then have "m' = m"
      using run l Cons by (auto simp: create_batch_durable_def Let_def split: sum.splits if_splits)
    then show ?thesis using mirror by simp
  next
    case True
    then obtain sealed revs where e: "seal_batch x ?a ?t ''invalid_batch_boundary'' entries = Inr sealed"
      "res_mapM entry_to_revision sealed = Inr revs" "?t \<noteq> Ephemeral"
      and quota: "\<not> (quota > 0 \<and> saturating_add_u64 (count_for_agent m ?a) (length sealed) > quota)" by blast
    obtain l' q where commit: "lgr_commit_roots (L i) ?a ?t revs l = (l', q)" by force
    have "m' = (case q of Inl _ \<Rightarrow> m\<lparr>lm_ledger := Some l'\<rparr> | Inr rcs \<Rightarrow>
        tier_update ?t (append_entries ?a (map2 dated sealed rcs @ drop (length rcs) sealed))
          (m\<lparr>lm_ledger := Some l'\<rparr>))"
      using run l Cons e quota commit
      by (cases q) (auto simp: create_batch_durable_def Let_def split: if_splits)
    then show ?thesis
      by (intro roots_mirror [OF mirror l e(3,1,2) commit]) (cases q; simp add: get_tier_def)+
  qed
qed

lemma create_working_batch_durable_mirror:
  assumes mirror: "mirror m" and run: "create_working_batch_durable x (L i) entries quota m = (m', r)"
  shows "mirror m'"
proof (cases entries)
  case Nil
  then show ?thesis using run mirror by (simp add: create_working_batch_durable_def)
next
  case (Cons first rest)
  obtain l where l: "lm_ledger m = Some l" using mirror by (auto simp: mirrors_def)
  let ?a = "en_agent_id first" and ?w = "or_default (en_agent_id first) (lm_working m)"
  show ?thesis
  proof (cases "\<exists>sealed revs l' q. seal_batch x ?a Working ''invalid_batch_identity'' entries = Inr sealed
      \<and> res_mapM entry_to_revision sealed = Inr revs \<and> lgr_commit_roots (L i) ?a Working revs l = (l', q)
      \<and> m' = (case q of Inl _ \<Rightarrow> m\<lparr>lm_working := ?w, lm_ledger := Some l'\<rparr> | Inr rcs \<Rightarrow>
          m\<lparr>lm_ledger := Some l', lm_working := append_entries ?a (map2 dated sealed rcs @ drop (length rcs) sealed) ?w\<rparr>)")
    case False
    then have "lm_ledger m' = lm_ledger m \<and> (\<forall>role t. get_tier m' role t = get_tier m role t)"
      using run l Cons
      by (auto simp: create_working_batch_durable_def Let_def get_tier_def split: sum.splits if_splits prod.splits)
    then show ?thesis by (intro mirrorI [OF mirror]) simp_all
  next
    case True
    then obtain sealed revs l' q where e: "seal_batch x ?a Working ''invalid_batch_identity'' entries = Inr sealed"
      "res_mapM entry_to_revision sealed = Inr revs" "lgr_commit_roots (L i) ?a Working revs l = (l', q)"
      and "m' = (case q of Inl _ \<Rightarrow> m\<lparr>lm_working := ?w, lm_ledger := Some l'\<rparr> | Inr rcs \<Rightarrow>
          m\<lparr>lm_ledger := Some l', lm_working := append_entries ?a (map2 dated sealed rcs @ drop (length rcs) sealed) ?w\<rparr>)"
      by blast
    then show ?thesis
      by (intro roots_mirror [OF mirror l _ e]) (cases q; simp add: get_tier_def)+
  qed
qed

theorem runtime_step_mirror:
  assumes "runtime_step x L m m'" and "mirror m"
  shows "mirror m'"
  using assms(1)
proof (cases rule: runtime_step.cases)
  case (update_step i now uuid a ns e_id content r)
  then show ?thesis
    using assms(2) mutation_mirror [OF _ revise_candidate_appends]
    by (auto simp: update_working_durable_def split: if_splits)
next
  case (delete_step i now uuid a ns e_id r)
  then show ?thesis
    using assms(2) mutation_mirror [OF _ delete_candidate_appends] by (auto simp: delete_working_durable_def)
qed (use assms(2) store_checked_mirror evict_ephemeral_mirror clear_ephemeral_mirror recall_mirror touch_entry_mirror
      create_durable_mirror create_batch_durable_mirror create_working_batch_durable_mirror restore_keeps_mirror
      in \<open>metis fst_conv\<close>)+

lemma runtime_run_mirror:
  assumes "(runtime_step x L)\<^sup>*\<^sup>* m m'" and "mirror m"
  shows "mirror m'"
  using assms by (induction rule: rtranclp_induct) (auto intro: runtime_step_mirror)

lemma restore_all_tiers:
  assumes "lm_ledger m = Some l" and "ok l" and "t \<noteq> Ephemeral"
  shows "lm_ledger (restore_all (L i) roles m) = Some l \<and> get_tier (restore_all (L i) roles m) role t =
    (if role \<in> set roles then map (\<lambda>r. into_runtime_entry r role) (of_tier t (owned l role)) else get_tier m role t)"
  using assms(1)
proof (induction roles arbitrary: m)
  case (Cons a roles)
  note restored = restore_agent_mirror(2,3) [OF Cons.prems assms(2), where i = i and a = a]
  show ?case
    using Cons.IH [OF restored(1)] restored(2) [OF assms(3)] by (auto simp: restore_all_def)
qed (simp add: restore_all_def)

lemma restore_memories_all:
  assumes "lm_ledger m = Some l" and "ok l" and "lgr_list_origin_roles (L i) l = Inr roles"
  shows "restore_memories (L i) l m = Inr (restore_all (L i) roles m)"
proof -
  have "res_foldM (\<lambda>m role. case restore_agent (L i) role m of (m', r) \<Rightarrow> res_bind r (\<lambda>_. Inr m')) m roles
      = Inr (restore_all (L i) roles m)"
    using assms(1)
  proof (induction roles arbitrary: m)
    case (Cons a roles)
    note restored = restore_agent_mirror(1,2) [OF Cons.prems assms(2), where i = i and a = a]
    show ?case
      using Cons.IH [OF restored(2)] restored(1) by (simp add: restore_all_def case_prod_beta res_simps)
  qed (simp add: restore_all_def)
  then show ?thesis using assms(3) by (simp add: restore_memories_def res_simps)
qed

lemma boot_mirror:
  assumes "ok l" and roles: "lgr_list_origin_roles (L i) l = Inr roles"
  shows "mirror (restore_all (L i) roles (set_ledger l layered_new))"
proof -
  have l: "lm_ledger (set_ledger l layered_new) = Some l" by (simp add: set_ledger_def)
  have new: "get_tier (set_ledger l layered_new) role t = []" for role t
    by (cases t) (simp_all add: get_tier_def set_ledger_def layered_new_def tier_entries_def)
  have all: "owned l role = [] \<or> role \<in> set roles" for role using origin_roles [OF assms(1), of i] roles by auto
  show ?thesis
    unfolding mirrors_def
  proof (intro exI [of _ l] conjI allI impI)
    show "lm_ledger (restore_all (L i) roles (set_ledger l layered_new)) = Some l"
      using restore_all_tiers [OF l assms(1), of Working] by simp
    fix role t
    assume "(t :: memory_tier) \<noteq> Ephemeral"
    then show "map durable_part (get_tier (restore_all (L i) roles (set_ledger l layered_new)) role t)
        = map (\<lambda>r. durable_part (into_runtime_entry r role)) (of_tier t (owned l role))"
      using restore_all_tiers [OF l assms(1)] all [of role] new by auto
  qed fact
qed

end

end
