(* ===== verification/Layered_Cas.thy ===== *)
theory Layered_Cas
  imports Layered_Coherence
begin

text \<open>
  The ledger of the kernel, \<open>CASCanonicalLedger\<close>, behind the trait, and the proof that it honours
  the contract on which the runtime memory relies.
\<close>

record call_context =
  cc_now :: nat
  cc_uuids :: "nat \<Rightarrow> string"
  cc_put_fault :: "string \<Rightarrow> put_fault"
  cc_publish_fault :: publish_fault
  cc_flush_fails :: bool

definition regroup :: "ledger_storage \<times> ledger_state \<times> 'r \<Rightarrow> (ledger_storage \<times> ledger_state) \<times> 'r" where
  "regroup = (\<lambda>(st, s, r). ((st, s), r))"

definition cas_canonical_ledger ::
  "xenv \<Rightarrow> ledger_codec \<Rightarrow> call_context \<Rightarrow> (ledger_storage \<times> ledger_state) canonical_ledger" where
  "cas_canonical_ledger x c k =
     \<lparr>lgr_commit_expected = (\<lambda>role tier head r (st, s). regroup (commit_expected x c (cc_now k) (cc_uuids k)
        (cc_put_fault k) (cc_publish_fault k) st s role tier head r)),
      lgr_commit_roots = (\<lambda>role tier rs (st, s). regroup (commit_roots x c (cc_now k) (cc_uuids k)
        (cc_put_fault k) (cc_publish_fault k) st s role tier rs)),
      lgr_rebuild_origin_role = (\<lambda>role (st, s). Inr (rebuild_origin_role s role)),
      lgr_list_origin_roles = (\<lambda>(st, s). Inr (list_origin_roles s)),
      lgr_readable_active_revision_ids = (\<lambda>role (st, s). readable_active_revision_ids s role),
      lgr_origin_for_revision = (\<lambda>role i write (st, s). origin_for_revision s role i write),
      lgr_flush = (\<lambda>_. if cc_flush_fails k then Inl LedgerIo else Inr ())\<rparr>"

section \<open>What a commit adds to each origin role\<close>

lemma owned_append:
  assumes inv: "ledger_inv x s" "ledger_inv x s'"
    and revs: "lg_revisions s' = lg_revisions s @ new"
    and pols: "set (lg_policies s) \<subseteq> set (lg_policies s')"
    and origin: "\<forall>r \<in> set new. \<exists>p \<in> set (lg_policies s'). po_memory_id p = rv_memory_id r \<and> po_origin_role_id p = origin"
  shows "owned_revisions s' role = owned_revisions s role @ (if role = origin then new else [])"
proof -
  have wf: "logs_wf x (lg_revisions s) (lg_policies s)" "policy_log_wf x (lg_revisions s') (lg_policies s')"
    using inv by (simp_all add: ledger_inv_def logs_wf_def)
  define owns where "owns t r \<longleftrightarrow> (\<exists>q \<in> set (lg_policies t). po_origin_role_id q = role \<and> po_memory_id q = rv_memory_id r)"
    for t :: ledger_state and r :: canonical_revision
  have def: "owned_revisions t role = filter (owns t) (lg_revisions t)" for t
    unfolding owned_revisions_def owns_def by (rule filter_cong) (auto simp: image_iff)
  have "owns s' r = owns s r" if "r \<in> set (lg_revisions s)" for r
  proof -
    have "policy_stream (rv_memory_id r) (lg_policies s) \<noteq> []" using logs_wf_policy_stream [OF wf(1)] that by blast
    then obtain p where "p \<in> set (lg_policies s)" "po_memory_id p = rv_memory_id r"
      by (auto simp: policy_stream_def filter_empty_conv)
    then show ?thesis using policy_log_wf_same_origin [OF wf(2)] pols unfolding owns_def by (metis subsetD)
  qed
  moreover have "owns s' r \<longleftrightarrow> role = origin" if "r \<in> set new" for r
    using origin that policy_log_wf_same_origin [OF wf(2)] unfolding owns_def by metis
  then have "filter (owns s') new = (if role = origin then new else [])"
    by (auto simp: filter_empty_conv intro: filter_True)
  ultimately show ?thesis unfolding def revs by (simp cong: filter_cong)
qed

lemma commit_logs:
  assumes "ledger_inv x s" and commit: "commit_records x c now uuids pf qf st s role tier revs heads = (st', s', Inr cs)"
  obtains "ledger_inv x s'" "check_batch s role tier revs heads = Inr ()"
    "lg_revisions s' = lg_revisions s @ stamp_revisions role now (length (lg_revisions s) + 1) revs"
    "lg_policies s' = lg_policies s @ root_policies role now (length (lg_policies s) + 1) uuids
        (zip (stamp_revisions role now (length (lg_revisions s) + 1) revs) heads)"
    "length cs = length revs" "\<forall>rc \<in> set cs. cm_committed_at rc = now"
proof -
  obtain p where p: "prepare_commit x c now uuids s role tier revs heads = Inr p"
    "s' = published_state p s" "cs = receipts now p"
    using commit_records_state(2) [OF commit refl] by blast
  obtain root where root: "lg_root s = Some root" using assms(1) by (auto simp: ledger_inv_def)
  have len: "length cs = length revs"
    using commit_effect(2) [OF assms] by (metis length_map)
  have inv: "ledger_inv x s'" using commit_records_inv [OF assms] .
  have now: "\<forall>rc \<in> set cs. cm_committed_at rc = now" using p(3) by (auto simp: receipts_def)
  show thesis
    by (rule prepare_commit_Inr [OF p(1) root])
       (use p(2) inv len now in \<open>auto simp: published_state_def intro!: that\<close>)
qed

lemma check_batch_tier:
  assumes "check_batch s role tier revs heads = Inr ()" and "r \<in> set revs"
  shows "rv_cognitive_tier r = tier"
proof -
  have "\<exists>t. res_foldM (check_expected_head (current_view_of s) role tier) {} (zip revs heads) = Inr t"
    and len: "length revs = length heads"
    using assms(1) by (auto simp: check_batch_def res_simps)
  moreover have "\<exists>t. res_foldM (check_expected_head v role tier) b xs = Inr t \<Longrightarrow> (r, e) \<in> set xs \<Longrightarrow>
      rv_cognitive_tier r = tier" for v b xs e
    by (induction xs arbitrary: b) (auto simp: check_expected_head_def res_simps)
  moreover obtain e where "(r, e) \<in> set (zip revs heads)"
    using assms(2) len by (metis in_set_impl_in_set_zip1)
  ultimately show ?thesis by blast
qed

lemma root_policies_mem:
  assumes "(r, ExpectAbsent) \<in> set batch"
  shows "\<exists>p \<in> set (root_policies role now k uuids batch). po_memory_id p = rv_memory_id r \<and> po_origin_role_id p = role"
proof -
  let ?f = "filter (\<lambda>(_, expected). expected = ExpectAbsent) batch"
  have "(r, ExpectAbsent) \<in> set ?f" using assms by simp
  then obtain j where j: "j < length ?f" "?f ! j = (r, ExpectAbsent)" by (metis in_set_conv_nth)
  then have "(j, r, ExpectAbsent) \<in> set (enumerate 0 ?f)" by (simp add: in_set_enumerate_eq)
  then have "root_policy role now (k + j) (uuids j) r \<in> set (root_policies role now k uuids batch)"
    unfolding root_policies_def set_map by (rule rev_image_eqI) simp
  then show ?thesis by (rule rev_bexI) (simp add: root_policy_def)
qed

lemma commit_roots_owned:
  assumes "ledger_inv x s"
    and "commit_records x c now uuids pf qf st s role tier revs (replicate (length revs) ExpectAbsent) = (st', s', Inr cs)"
  shows "owned_revisions s' ro = owned_revisions s ro
    @ (if ro = role then stamp_revisions role now (length (lg_revisions s) + 1) revs else [])"
proof (rule commit_logs [OF assms])
  let ?new = "stamp_revisions role now (length (lg_revisions s) + 1) revs"
  assume inv: "ledger_inv x s'" and logs: "lg_revisions s' = lg_revisions s @ ?new"
    "lg_policies s' = lg_policies s @ root_policies role now (length (lg_policies s) + 1) uuids
        (zip ?new (replicate (length revs) ExpectAbsent))"
  have "length ?new = length revs" by (simp add: stamp_revisions_def)
  then have "(r, ExpectAbsent) \<in> set (zip ?new (replicate (length revs) ExpectAbsent))" if "r \<in> set ?new" for r
    using that in_set_impl_in_set_zip1 [of ?new "replicate (length revs) ExpectAbsent" r]
    by (metis in_set_replicate in_set_zipE length_replicate)
  then have "\<forall>r \<in> set ?new. \<exists>p \<in> set (lg_policies s'). po_memory_id p = rv_memory_id r \<and> po_origin_role_id p = role"
    using root_policies_mem logs(2) by fastforce
  then show ?thesis
    using owned_append [OF assms(1) inv logs(1)] logs(2) by simp
qed

lemma commit_next_owned:
  assumes inv: "ledger_inv x s" and origin: "origin_for_revision s role h True = Inr (Some origin)"
    and commit: "commit_records x c now uuids pf qf st s role tier [r] [ExpectRevision h] = (st', s', Inr cs)"
  shows "owned_revisions s' ro = owned_revisions s ro
    @ (if ro = origin then [stamp_revision role now (length (lg_revisions s) + 1) r] else [])"
proof (rule commit_logs [OF inv commit])
  let ?new = "stamp_revisions role now (length (lg_revisions s) + 1) [r]"
  assume inv': "ledger_inv x s'" and batch: "check_batch s role tier [r] [ExpectRevision h] = Inr ()"
    and logs: "lg_revisions s' = lg_revisions s @ ?new"
    "lg_policies s' = lg_policies s @ root_policies role now (length (lg_policies s) + 1) uuids
        (zip ?new [ExpectRevision h])"
  have "head_for (current_view_of s) (rv_memory_id r) = Some h"
    using check_batch_head [OF batch, of r "ExpectRevision h"] by (simp add: head_matches_def)
  then obtain head where "last_opt (stream (rv_memory_id r) (lg_revisions s)) = Some head" "rv_revision_id head = h"
    using inv_stream(3) [OF inv, of "rv_memory_id r"] by auto
  then have head: "head \<in> set (lg_revisions s)" "rv_memory_id head = rv_memory_id r" "rv_revision_id head = h"
    using last_in_set [of "stream (rv_memory_id r) (lg_revisions s)"] by (auto simp: last_opt_def split: if_splits)
  have wf: "revision_log_wf x (lg_revisions s)" "logs_wf x (lg_revisions s) (lg_policies s)"
    using inv by (simp_all add: ledger_inv_def logs_wf_def)
  have found: "find_revision s h = Some head"
    unfolding find_revision_def head(3) [symmetric]
    using wf(1) by (intro find_unique [OF _ head(1)]) (simp add: revision_log_wf_def)
  have "policy_stream (rv_memory_id head) (lg_policies s) \<noteq> []"
    using logs_wf_policy_stream [OF wf(2)] head(1) by blast
  then obtain p where p: "p \<in> set (lg_policies s)" "po_memory_id p = rv_memory_id head"
    by (auto simp: policy_stream_def filter_empty_conv)
  have "po_origin_role_id p = origin"
    using origin origin_for_revision_write [OF inv found p, of role] by (auto split: if_splits)
  then have "\<forall>q \<in> set ?new. \<exists>p \<in> set (lg_policies s'). po_memory_id p = rv_memory_id q \<and> po_origin_role_id p = origin"
    using p head(2) logs(2) by auto
  then show ?thesis
    using owned_append [OF inv inv' logs(1)] logs(2) by simp
qed

lemma collect_tiers:
  assumes "t \<noteq> Ephemeral"
  shows "collect_map (List.map_filter (\<lambda>tier. map_option (Pair tier) (f tier)) [Working, LongTerm, Procedural]) t = f t"
  using assms
  by (cases t; cases "f Working"; cases "f LongTerm"; cases "f Procedural")
     (simp_all add: collect_map_def map_filter_simps)

lemma rebuild_by_tier:
  assumes "t \<noteq> Ephemeral"
  shows "collect_map (rebuild_origin_role s role) t =
    (if of_tier t (owned_revisions s role) = [] then None else Some (of_tier t (owned_revisions s role)))"
proof -
  have "rebuild_origin_role s role = List.map_filter (\<lambda>tier. map_option (Pair tier)
      (revisions_of_tier (owned_revisions s role) tier)) [Working, LongTerm, Procedural]"
    by (simp only: rebuild_origin_role_def owned_revisions_def Let_def)
  then show ?thesis
    by (simp only: collect_tiers [OF assms]) (simp add: revisions_of_tier_def of_tier_def Let_def)
qed

lemma owned_listed:
  assumes "owned_revisions s role \<noteq> []"
  shows "role \<in> set (list_origin_roles s)"
proof -
  obtain r where "r \<in> set (owned_revisions s role)" using assms by (metis last_in_set)
  then show ?thesis unfolding owned_revisions_mem by (auto simp: list_origin_roles_def)
qed

section \<open>The contract holds\<close>

abbreviation cas_ok :: "xenv \<Rightarrow> ledger_storage \<times> ledger_state \<Rightarrow> bool" where
  "cas_ok x \<equiv> \<lambda>(st, s). ledger_inv x s"

abbreviation cas_owned :: "ledger_storage \<times> ledger_state \<Rightarrow> string \<Rightarrow> canonical_revision list" where
  "cas_owned \<equiv> \<lambda>(st, s) role. owned_revisions s role"

lemma commit_expected_Inr:
  assumes "commit_expected x c now uuids pf qf st s role tier h r = (st', s', Inr rc)"
  obtains cs where "commit_records x c now uuids pf qf st s role tier [r] [h] = (st', s', Inr cs)" "last_opt cs = Some rc"
  using assms by (auto simp: commit_expected_def res_simps split: prod.splits sum.splits)

lemma commit_records_failed:
  assumes "ledger_inv x s" and "commit_records x c now uuids pf qf st s role tier revs heads = (st', s', Inl e)"
  shows "ledger_inv x s'" "owned_revisions s' = owned_revisions s"
  using commit_records_inv [OF assms] commit_records_state(1) [OF assms(2)]
  by (auto simp: owned_revisions_def)

lemma commit_expected_Inl:
  assumes "ledger_inv x s" and "commit_expected x c now uuids pf qf st s role tier h r = (st', s', Inl e)"
  shows "ledger_inv x s'" "owned_revisions s' = owned_revisions s"
proof -
  obtain q where q: "commit_records x c now uuids pf qf st s role tier [r] [h] = (st', s', q)"
    and e: "res_bind q (\<lambda>cs. ok_or (last_opt cs) (LedgerInvalid ''missing_commit_receipt'')) = Inl e"
    using assms(2) by (auto simp: commit_expected_def split: prod.splits)
  have "\<exists>e. q = Inl e"
  proof (cases q)
    case (Inr cs)
    then have "length cs = 1" using commit_effect(2) [OF assms(1) q [unfolded Inr]] by (auto dest: map_eq_imp_length_eq)
    then show ?thesis using e Inr by (cases cs) (auto simp: last_opt_def ok_or_def)
  qed simp
  then show "ledger_inv x s'" "owned_revisions s' = owned_revisions s"
    using commit_records_failed [OF assms(1)] q by auto
qed

lemma commit_root_contract:
  assumes inv: "ledger_inv x s"
    and "commit_expected x c now uuids pf qf st s role tier ExpectAbsent r = (st', s', Inr rc)"
  shows "ledger_inv x s' \<and> rv_cognitive_tier r = tier \<and> (\<exists>n. \<forall>ro. owned_revisions s' ro = owned_revisions s ro
    @ (if ro = role then [stamp_revision role (cm_committed_at rc) n r] else []))"
proof -
  obtain cs where cs: "commit_records x c now uuids pf qf st s role tier [r] [ExpectAbsent] = (st', s', Inr cs)"
    "last_opt cs = Some rc" using assms(2) by (rule commit_expected_Inr)
  show ?thesis
  proof (rule commit_logs [OF inv cs(1)])
    assume "ledger_inv x s'" and batch: "check_batch s role tier [r] [ExpectAbsent] = Inr ()"
      and "length cs = length [r]" and "\<forall>rc \<in> set cs. cm_committed_at rc = now"
    then have "cm_committed_at rc = now" using cs(2) by (cases cs) (auto simp: last_opt_def)
    then show ?thesis
      using commit_roots_owned [OF inv, where revs = "[r]"] cs(1) check_batch_tier [OF batch] \<open>ledger_inv x s'\<close>
      by auto
  qed
qed

lemma commit_next_contract:
  assumes inv: "ledger_inv x s" and origin: "origin_for_revision s role h True = Inr (Some origin)"
    and "commit_expected x c now uuids pf qf st s role tier (ExpectRevision h) r = (st', s', Inr rc)"
  shows "ledger_inv x s' \<and> rv_cognitive_tier r = tier \<and> (\<exists>n. \<forall>ro. owned_revisions s' ro = owned_revisions s ro
    @ (if ro = origin then [stamp_revision role (cm_committed_at rc) n r] else []))"
proof -
  obtain cs where cs: "commit_records x c now uuids pf qf st s role tier [r] [ExpectRevision h] = (st', s', Inr cs)"
    "last_opt cs = Some rc" using assms(3) by (rule commit_expected_Inr)
  show ?thesis
  proof (rule commit_logs [OF inv cs(1)])
    assume "ledger_inv x s'" and batch: "check_batch s role tier [r] [ExpectRevision h] = Inr ()"
      and "length cs = length [r]" and "\<forall>rc \<in> set cs. cm_committed_at rc = now"
    then have "cm_committed_at rc = now" using cs(2) by (cases cs) (auto simp: last_opt_def)
    then show ?thesis
      using commit_next_owned [OF inv origin cs(1)] check_batch_tier [OF batch] \<open>ledger_inv x s'\<close> by auto
  qed
qed

lemma commit_roots_contract:
  assumes inv: "ledger_inv x s"
    and commit: "commit_roots x c now uuids pf qf st s role tier rs = (st', s', Inr rcs)"
  shows "ledger_inv x s' \<and> (\<forall>r \<in> set rs. rv_cognitive_tier r = tier) \<and> length rcs = length rs
    \<and> (\<exists>now n. (\<forall>rc \<in> set rcs. cm_committed_at rc = now)
        \<and> (\<forall>ro. owned_revisions s' ro = owned_revisions s ro @ (if ro = role then stamp_revisions role now n rs else [])))"
proof (rule commit_logs [OF inv commit [unfolded commit_roots_def]])
  assume "ledger_inv x s'" and batch: "check_batch s role tier rs (replicate (length rs) ExpectAbsent) = Inr ()"
    and "length rcs = length rs" and "\<forall>rc \<in> set rcs. cm_committed_at rc = now"
  then show ?thesis
    using commit_roots_owned [OF inv commit [unfolded commit_roots_def]] check_batch_tier [OF batch] by blast
qed

lemma cas_ledger_calls:
  "lgr_commit_expected (cas_canonical_ledger x c k) role tier h r (st, s) = ((st', s'), q) \<longleftrightarrow>
     commit_expected x c (cc_now k) (cc_uuids k) (cc_put_fault k) (cc_publish_fault k) st s role tier h r = (st', s', q)"
  "lgr_commit_roots (cas_canonical_ledger x c k) role tier rs (st, s) = ((st', s'), qs) \<longleftrightarrow>
     commit_roots x c (cc_now k) (cc_uuids k) (cc_put_fault k) (cc_publish_fault k) st s role tier rs = (st', s', qs)"
  "lgr_rebuild_origin_role (cas_canonical_ledger x c k) role (st, s) = Inr (rebuild_origin_role s role)"
  "lgr_list_origin_roles (cas_canonical_ledger x c k) (st, s) = Inr (list_origin_roles s)"
  "lgr_readable_active_revision_ids (cas_canonical_ledger x c k) role (st, s) = readable_active_revision_ids s role"
  "lgr_origin_for_revision (cas_canonical_ledger x c k) role i write (st, s) = origin_for_revision s role i write"
  by (auto simp: cas_canonical_ledger_def regroup_def split: prod.splits)

interpretation cas: durable_ledger "cas_canonical_ledger x c" "cas_ok x" cas_owned for x c
proof (unfold_locales, unfold split_paired_all cas_ledger_calls case_prod_conv, goal_cases)
  case 1
  then show ?case using rebuild_by_tier by blast
next
  case 2
  then show ?case using owned_listed by blast
next
  case 3
  then show ?case using commit_expected_Inl [OF 3] by simp
next
  case 4
  then show ?case using commit_records_failed [OF 4 [unfolded commit_roots_def]] by simp
next
  case 5
  then show ?case by (rule commit_root_contract)
next
  case 6
  then show ?case by (rule commit_roots_contract)
next
  case 7
  then show ?case by (rule commit_next_contract)
qed

end
