(* ===== verification/Layered_Access.thy ===== *)
theory Layered_Access
  imports Layered_Cas
begin

text \<open>
  What the runtime memory answers about the ledger: the active entries of a mirrored tier are the
  live heads of the ledger, and a read on behalf of a role returns exactly what its policies allow.
\<close>

section \<open>Heads have no children\<close>

lemma last_stream_mem: "last_opt (stream m rs) = Some p \<Longrightarrow> p \<in> set rs \<and> rv_memory_id p = m"
  using last_in_set [of "stream m rs"] by (auto simp: last_opt_def split: if_splits)

lemma revision_log_parent:
  assumes "revision_log_wf x rs" and "r \<in> set rs" and "rv_parent_revision_id r = Some i"
  shows "\<exists>p \<in> set rs. rv_revision_id p = i \<and> rv_memory_id p = rv_memory_id r \<and> rv_cognitive_tier p = rv_cognitive_tier r"
  using assms
proof (induction rs rule: rev_induct)
  case (snoc n rs)
  show ?case
  proof (cases "r = n")
    case False
    then show ?thesis using snoc by (auto simp: revision_log_wf_snoc)
  next
    case True
    then obtain p where p: "last_opt (stream (rv_memory_id n) rs) = Some p" "revises x p n"
      using snoc.prems unfolding revision_log_wf_snoc admissible_def
      by (auto simp: is_root_def split: option.splits)
    then show ?thesis using last_stream_mem [OF p(1)] True snoc.prems(3) by (auto simp: revises_def)
  qed
qed simp

lemma revision_id_inj:
  "revision_log_wf x rs \<Longrightarrow> r \<in> set rs \<Longrightarrow> q \<in> set rs \<Longrightarrow> rv_revision_id r = rv_revision_id q \<Longrightarrow> r = q"
  unfolding revision_log_wf_def by (metis distinct_map inj_on_def)

lemma head_iff_childless:
  assumes "revision_log_wf x rs" and "r \<in> set rs"
  shows "last_opt (stream (rv_memory_id r) rs) = Some r \<longleftrightarrow>
    (\<forall>q \<in> set rs. rv_parent_revision_id q \<noteq> Some (rv_revision_id r))"
  using assms
proof (induction rs rule: rev_induct)
  case (snoc n rs)
  have wf: "revision_log_wf x rs" and adm: "admissible x rs n" using snoc.prems(1) by (simp_all add: revision_log_wf_snoc)
  have fresh: "q \<in> set rs \<Longrightarrow> rv_revision_id q \<noteq> rv_revision_id n" for q
    using snoc.prems(1) unfolding revision_log_wf_def by (auto simp: image_iff)
  have pred: "rv_parent_revision_id n = map_option rv_revision_id (last_opt (stream (rv_memory_id n) rs))"
    using adm by (auto simp: admissible_def is_root_def revises_def split: option.splits)
  show ?case
  proof (cases "r = n")
    case True
    moreover have "rv_parent_revision_id q \<noteq> Some (rv_revision_id n)" if "q \<in> set (rs @ [n])" for q
    proof (cases "q = n")
      case True
      then show ?thesis using pred last_stream_mem fresh by (cases "last_opt (stream (rv_memory_id n) rs)") auto
    next
      case False
      then show ?thesis using that revision_log_parent [OF wf] fresh by fastforce
    qed
    ultimately show ?thesis by (auto simp: last_opt_def)
  next
    case False
    then have r: "r \<in> set rs" using snoc.prems(2) by simp
    show ?thesis
    proof (cases "rv_memory_id n = rv_memory_id r")
      case True
      then show ?thesis using snoc.IH [OF wf r] False pred by (auto simp: last_opt_def)
    next
      case other: False
      have "rv_parent_revision_id n \<noteq> Some (rv_revision_id r)"
      proof
        assume "rv_parent_revision_id n = Some (rv_revision_id r)"
        then obtain p where p: "last_opt (stream (rv_memory_id n) rs) = Some p" "rv_revision_id p = rv_revision_id r"
          using pred by auto
        then have "p = r" using revision_id_inj [OF wf _ r] last_stream_mem [OF p(1)] by simp
        then show False using last_stream_mem [OF p(1)] other by simp
      qed
      then show ?thesis using snoc.IH [OF wf r] other by auto
    qed
  qed
qed simp

section \<open>Active entries of a mirrored tier\<close>

lemma durable_part_sels [simp]:
  "en_id (durable_part e) = en_id e" "en_parent_revision_id (durable_part e) = en_parent_revision_id e"
  "en_superseded_by (durable_part e) = en_superseded_by e" "en_deleted_at (durable_part e) = None \<longleftrightarrow> en_deleted_at e = None"
  by (simp_all add: durable_part_def)

lemma into_runtime_entry_sels [simp]:
  "en_id (into_runtime_entry r a) = rv_revision_id r" "en_parent_revision_id (into_runtime_entry r a) = rv_parent_revision_id r"
  "en_superseded_by (into_runtime_entry r a) = None" "en_deleted_at (into_runtime_entry r a) = rv_deleted_at r"
  "en_agent_id (into_runtime_entry r a) = a" "en_original_ttl_ms (into_runtime_entry r a) = None"
  by (simp_all add: into_runtime_entry_def)

lemma set_map_filter_iff: "y \<in> set (List.map_filter f xs) \<longleftrightarrow> Some y \<in> f ` set xs"
  by (induction xs) (auto simp: map_filter_simps split: option.splits)

lemma find_active_iff:
  "find (\<lambda>e. en_id e = i) (active_revisions es) \<noteq> None \<longleftrightarrow>
     (\<exists>e \<in> set es. en_id e = i \<and> en_deleted_at e = None \<and> en_superseded_by e = None)
     \<and> Some i \<notin> en_parent_revision_id ` set es"
  unfolding find_None_iff active_revisions_def Let_def set_map_filter_iff by auto

lemma find_active_mirror:
  assumes "map durable_part es = map (\<lambda>r. durable_part (into_runtime_entry r a)) rs"
  shows "find (\<lambda>e. en_id e = i) (active_revisions es) \<noteq> None \<longleftrightarrow>
    (\<exists>r \<in> set rs. rv_revision_id r = i \<and> rv_deleted_at r = None) \<and> (\<forall>q \<in> set rs. rv_parent_revision_id q \<noteq> Some i)"
proof -
  have image: "(\<lambda>e. g (durable_part e)) ` set es = (\<lambda>r. g (durable_part (into_runtime_entry r a))) ` set rs"
    for g :: "memory_entry \<Rightarrow> 'b"
    using arg_cong [OF assms, of "\<lambda>ds. g ` set ds"] by (simp add: image_image)
  have ids: "(\<lambda>e. (en_id e, en_deleted_at e = None)) ` set es
      = (\<lambda>r. (rv_revision_id r, rv_deleted_at r = None)) ` set rs"
    using image [of "\<lambda>e. (en_id e, en_deleted_at e = None)"] by simp
  have parents: "en_parent_revision_id ` set es = rv_parent_revision_id ` set rs"
    using image [of en_parent_revision_id] by simp
  have "\<forall>e \<in> set es. en_superseded_by e = None" using image [of en_superseded_by] by auto
  then have "find (\<lambda>e. en_id e = i) (active_revisions es) \<noteq> None \<longleftrightarrow>
      (i, True) \<in> (\<lambda>e. (en_id e, en_deleted_at e = None)) ` set es \<and> Some i \<notin> en_parent_revision_id ` set es"
    unfolding find_active_iff by (auto simp: image_iff)
  also have "\<dots> \<longleftrightarrow> (\<exists>r \<in> set rs. rv_revision_id r = i \<and> rv_deleted_at r = None)
      \<and> (\<forall>q \<in> set rs. rv_parent_revision_id q \<noteq> Some i)"
    unfolding ids parents by (auto simp: image_iff)
  finally show ?thesis .
qed

section \<open>Authorised reads\<close>

lemma origin_for_revision_read:
  assumes inv: "ledger_inv x s" and found: "find_revision s i = Some r"
  obtains p where "last_opt (policy_stream (rv_memory_id r) (lg_policies s)) = Some p"
    "p \<in> set (lg_policies s)" "po_memory_id p = rv_memory_id r"
    "origin_for_revision s role i False
      = Inr (if role \<in> set (po_reader_roles p) then Some (po_origin_role_id p) else None)"
proof -
  have "r \<in> set (lg_revisions s)" using found by (auto simp: find_revision_def dest: find_Some_in)
  then have mem: "rv_memory_id r \<in> rv_memory_id ` set (lg_revisions s)" by simp
  obtain p where p: "last_opt (policy_stream (rv_memory_id r) (lg_policies s)) = Some p"
    "p \<in> set (lg_policies s)" "po_memory_id p = rv_memory_id r"
    "find_policy s (cs_policy_id (stream_entry (lg_revisions s) (lg_policies s) (rv_memory_id r))) = Some p"
    using inv_policy [OF inv mem] by metis
  have "origin_for_revision s role i False
      = Inr (if role \<in> set (po_reader_roles p) then Some (po_origin_role_id p) else None)"
    using found mem p(4) inv_stream(1) [OF inv, of "rv_memory_id r"] by (simp add: origin_for_revision_def)
  then show thesis by (rule that [OF p(1-3)])
qed

lemma owned_childless:
  assumes inv: "ledger_inv x s" and r: "r \<in> set (lg_revisions s)"
    and p: "p \<in> set (lg_policies s)" "po_memory_id p = rv_memory_id r"
  shows "(\<forall>q \<in> set (of_tier (rv_cognitive_tier r) (owned_revisions s (po_origin_role_id p))).
            rv_parent_revision_id q \<noteq> Some (rv_revision_id r))
    \<longleftrightarrow> last_opt (stream (rv_memory_id r) (lg_revisions s)) = Some r"
proof -
  have wf: "revision_log_wf x (lg_revisions s)" using inv by (simp add: ledger_inv_def logs_wf_def)
  have "q \<in> set (of_tier (rv_cognitive_tier r) (owned_revisions s (po_origin_role_id p)))"
    if q: "q \<in> set (lg_revisions s)" "rv_parent_revision_id q = Some (rv_revision_id r)" for q
  proof -
    obtain r' where r': "r' \<in> set (lg_revisions s)" "rv_revision_id r' = rv_revision_id r"
      "rv_memory_id r' = rv_memory_id q" "rv_cognitive_tier r' = rv_cognitive_tier q"
      using revision_log_parent [OF wf q] by blast
    then have "r' = r" using revision_id_inj [OF wf _ r] by simp
    with r' have "rv_memory_id q = rv_memory_id r" "rv_cognitive_tier q = rv_cognitive_tier r" by simp_all
    then show ?thesis using q(1) p by (auto simp: of_tier_def owned_revisions_mem)
  qed
  then show ?thesis
    unfolding head_iff_childless [OF wf r] by (auto simp: of_tier_def owned_revisions_mem)
qed

lemma find_active_authorized_exact:
  assumes mirror: "mirrors (cas_ok x) cas_owned m" and l: "lm_ledger m = Some (st, s)" and t: "t \<noteq> Ephemeral"
  shows "\<exists>q. find_active_authorized (cas_canonical_ledger x c k) m role t i = Inr q
    \<and> (q \<noteq> None \<longleftrightarrow> visible s role i \<and> (\<exists>r \<in> set (lg_revisions s). rv_revision_id r = i \<and> rv_cognitive_tier r = t))"
proof -
  have inv: "ledger_inv x s" and tiers: "\<And>role. map durable_part (get_tier m role t)
      = map (\<lambda>r. durable_part (into_runtime_entry r role)) (of_tier t (owned_revisions s role))"
    using mirror l t by (auto simp: mirrors_def)
  have wf: "revision_log_wf x (lg_revisions s)" using inv by (simp add: ledger_inv_def logs_wf_def)
  show ?thesis
  proof (cases "find_revision s i")
    case None
    then have "\<forall>r \<in> set (lg_revisions s). rv_revision_id r \<noteq> i" by (auto simp: find_revision_def find_None_iff)
    then show ?thesis
      using l None by (auto simp: find_active_authorized_def cas_ledger_calls origin_for_revision_def)
  next
    case (Some r)
    then have r: "r \<in> set (lg_revisions s)" "rv_revision_id r = i" by (auto simp: find_revision_def dest: find_Some_in)
    obtain p where p: "last_opt (policy_stream (rv_memory_id r) (lg_policies s)) = Some p"
      "p \<in> set (lg_policies s)" "po_memory_id p = rv_memory_id r"
      "origin_for_revision s role i False = Inr (if role \<in> set (po_reader_roles p) then Some (po_origin_role_id p) else None)"
      using origin_for_revision_read [OF inv Some] by blast
    have vis: "visible s role i \<longleftrightarrow> last_opt (stream (rv_memory_id r) (lg_revisions s)) = Some r
        \<and> rv_deleted_at r = None \<and> role \<in> set (po_reader_roles p)"
    proof
      assume "visible s role i"
      then obtain r' p' where v: "last_opt (stream (rv_memory_id r') (lg_revisions s)) = Some r'"
        "last_opt (policy_stream (rv_memory_id r') (lg_policies s)) = Some p'" "rv_deleted_at r' = None"
        "role \<in> set (po_reader_roles p')" "i = rv_revision_id r'" unfolding visible_def by blast
      have "r' = r" using revision_id_inj [OF wf _ r(1)] last_stream_mem [OF v(1)] v(5) r(2) by simp
      then show "last_opt (stream (rv_memory_id r) (lg_revisions s)) = Some r
          \<and> rv_deleted_at r = None \<and> role \<in> set (po_reader_roles p)" using v p(1) by simp
    qed (use p(1) r(2) in \<open>auto simp: visible_def\<close>)
    have same: "q = r" if "q \<in> set (lg_revisions s)" "rv_revision_id q = i" for q
      using revision_id_inj [OF wf that(1) r(1)] that(2) r(2) by simp
    have own: "r \<in> set (owned_revisions s (po_origin_role_id p))" using r p unfolding owned_revisions_mem by blast
    have mine: "(\<exists>q \<in> set (of_tier t (owned_revisions s (po_origin_role_id p))). rv_revision_id q = i \<and> rv_deleted_at q = None)
        \<longleftrightarrow> rv_cognitive_tier r = t \<and> rv_deleted_at r = None"
    proof
      assume "\<exists>q \<in> set (of_tier t (owned_revisions s (po_origin_role_id p))). rv_revision_id q = i \<and> rv_deleted_at q = None"
      then obtain q where q: "q \<in> set (lg_revisions s)" "rv_cognitive_tier q = t" "rv_revision_id q = i" "rv_deleted_at q = None"
        by (auto simp: of_tier_def owned_revisions_mem)
      then show "rv_cognitive_tier r = t \<and> rv_deleted_at r = None" using same [OF q(1,3)] by simp
    qed (use own r(2) in \<open>auto simp: of_tier_def\<close>)
    have "find_active_entry m (po_origin_role_id p) t i \<noteq> None \<longleftrightarrow>
        rv_cognitive_tier r = t \<and> rv_deleted_at r = None \<and> last_opt (stream (rv_memory_id r) (lg_revisions s)) = Some r"
      unfolding find_active_entry_def get_active_tier_def find_active_mirror [OF tiers] mine
      using owned_childless [OF inv r(1) p(2,3)] r(2) by auto
    moreover have "(\<exists>q \<in> set (lg_revisions s). rv_revision_id q = i \<and> rv_cognitive_tier q = t) \<longleftrightarrow> rv_cognitive_tier r = t"
    proof
      assume "\<exists>q \<in> set (lg_revisions s). rv_revision_id q = i \<and> rv_cognitive_tier q = t"
      then obtain q where q: "q \<in> set (lg_revisions s)" "rv_revision_id q = i" "rv_cognitive_tier q = t" by blast
      then show "rv_cognitive_tier r = t" using same [OF q(1,2)] by simp
    qed (use r in blast)
    ultimately show ?thesis
      using l p(4) vis by (auto simp: find_active_authorized_def cas_ledger_calls)
  qed
qed

end
