(* ===== verification/Layered_Restart.thy ===== *)
theory Layered_Restart
  imports Layered_Cas
begin

text \<open>
  Starting the kernel on its storage, and what the storage tells after any run: the ledger on disk
  loads to the state of the writer, or, once a publication was left unsynced, to that state with the
  one commit that the writer no longer counts.
\<close>

section \<open>The start\<close>

text \<open>Open the ledger, attach it to an empty memory, rebuild every origin role.\<close>

definition kernel_start ::
  "xenv \<Rightarrow> ledger_codec \<Rightarrow> call_context \<Rightarrow> ledger_storage
   \<Rightarrow> ledger_storage \<times> (ledger_error + (ledger_storage \<times> ledger_state) layered_memory)" where
  "kernel_start x c k st =
     (case open_ledger x c (cc_put_fault k) (cc_publish_fault k) st of
        (st', Inl e) \<Rightarrow> (st', Inl e)
      | (st', Inr s) \<Rightarrow>
          (st', restore_memories (cas_canonical_ledger x c k) (st', s) (set_ledger (st', s) layered_new)))"

text \<open>The memory that a start makes of an opened ledger.\<close>

definition booted :: "xenv \<Rightarrow> ledger_codec \<Rightarrow> call_context \<Rightarrow> ledger_storage \<times> ledger_state \<Rightarrow>
    (ledger_storage \<times> ledger_state) layered_memory" where
  "booted x c k l = restore_all (cas_canonical_ledger x c k) (list_origin_roles (snd l)) (set_ledger l layered_new)"

lemma booted_mirrors:
  assumes "ledger_inv x s"
  shows "mirrors (cas_ok x) cas_owned (booted x c k (st, s))"
  unfolding booted_def snd_conv using assms
  by (intro cas.boot_mirror) (simp_all add: cas_ledger_calls)

lemma booted_ledger:
  assumes "ledger_inv x s"
  shows "lm_ledger (booted x c k (st, s)) = Some (st, s)"
  unfolding booted_def
  using cas.restore_all_tiers [of "set_ledger (st, s) layered_new" "(st, s)" x Working] assms
  by (simp add: set_ledger_def)

lemma kernel_start_booted:
  assumes "open_ledger x c (cc_put_fault k) (cc_publish_fault k) st = (st', Inr s)" and "ledger_inv x s"
  shows "kernel_start x c k st = (st', Inr (booted x c k (st', s)))"
proof -
  have "restore_memories (cas_canonical_ledger x c k) (st', s) (set_ledger (st', s) layered_new)
      = Inr (booted x c k (st', s))"
    unfolding booted_def using assms(2)
    by (intro cas.restore_memories_all) (simp_all add: set_ledger_def cas_ledger_calls)
  then show ?thesis using assms(1) by (simp add: kernel_start_def)
qed

section \<open>What the storage tells\<close>

definition cas_stored :: "xenv \<Rightarrow> ledger_codec \<Rightarrow> ledger_storage \<times> ledger_state \<Rightarrow> bool" where
  "cas_stored x c = (\<lambda>(st, s). codec_laws c \<and> (\<forall>p. segment_readable c p) \<and> ledger_inv x s
     \<and> (\<exists>s1. load_state x c st = Inr s1 \<and> (\<not> lg_poisoned s \<longrightarrow> s1 = s)
           \<and> (\<forall>role. prefix (owned_revisions s role) (owned_revisions s1 role))))"

lemma owned_prefix:
  assumes inv: "ledger_inv x s" "ledger_inv x s'"
    and revs: "lg_revisions s' = lg_revisions s @ new" and pols: "set (lg_policies s) \<subseteq> set (lg_policies s')"
  shows "prefix (owned_revisions s role) (owned_revisions s' role)"
proof -
  have wf: "logs_wf x (lg_revisions s) (lg_policies s)" "policy_log_wf x (lg_revisions s') (lg_policies s')"
    using inv by (simp_all add: ledger_inv_def logs_wf_def)
  define owns where "owns t r \<longleftrightarrow> (\<exists>q \<in> set (lg_policies t). po_origin_role_id q = role \<and> po_memory_id q = rv_memory_id r)"
    for t :: ledger_state and r :: canonical_revision
  have def: "owned_revisions t role = filter (owns t) (lg_revisions t)" for t
    unfolding owned_revisions_def owns_def by (rule filter_cong) (auto simp: image_iff)
  have "owns s' r = owns s r" if "r \<in> set (lg_revisions s)" for r
  proof -
    have "policy_stream (rv_memory_id r) (lg_policies s) \<noteq> []" using logs_wf_policy_stream [OF wf(1)] that by blast
    then obtain p where "p \<in> set (lg_policies s)" "po_memory_id p = rv_memory_id r"
      by (auto simp: policy_stream_def filter_empty_conv)
    then show ?thesis using policy_log_wf_same_origin [OF wf(2)] pols unfolding owns_def by (metis subsetD)
  qed
  then show ?thesis unfolding def revs by (simp cong: filter_cong)
qed

lemma published_prefix:
  assumes inv: "ledger_inv x s" "ledger_inv x (published_state p s)"
    and p: "prepare_commit x c now uuids s role tier revs heads = Inr p"
  shows "prefix (owned_revisions s ro) (owned_revisions (published_state p s) ro)"
proof -
  obtain root where root: "lg_root s = Some root" using inv(1) by (auto simp: ledger_inv_def)
  show ?thesis
    by (rule prepare_commit_Inr [OF p root]) (rule owned_prefix [OF inv], auto simp: published_state_def)
qed

lemma stored_commit:
  assumes ok: "cas_stored x c (st, s)"
    and commit: "commit_records x c now uuids pf qf st s role tier revs heads = (st', s', r)"
  shows "cas_stored x c (st', s')"
proof (cases "lg_poisoned s")
  case True
  then show ?thesis using poisoned_commit_refused [OF True] commit ok by (metis prod.inject)
next
  case False
  have laws: "codec_laws c" "\<And>p. segment_readable c p" and inv: "ledger_inv x s" and load: "load_state x c st = Inr s"
    using ok False by (auto simp: cas_stored_def)
  have view: "faithful (view_codec c)" using laws(1) by (simp add: codec_laws_def)
  have inv': "ledger_inv x s'" using commit_records_inv [OF inv commit] .
  show ?thesis
  proof (cases r)
    case (Inr cs)
    obtain p where p: "prepare_commit x c now uuids s role tier revs heads = Inr p"
      using commit_records_state(2) [OF commit Inr] by blast
    have "load_state x c st' = Inr s'" by (rule commit_reloads [OF load p laws commit [unfolded Inr]])
    then show ?thesis using laws inv' by (simp add: cas_stored_def)
  next
    case (Inl e)
    show ?thesis
    proof (cases "e = CommitIndeterminate")
      case False
      then show ?thesis
        using commit_failure_atomic [OF load commit [unfolded Inl]] laws inv by (simp add: cas_stored_def)
    next
      case True
      then obtain p where p: "s' = s\<lparr>lg_poisoned := True\<rparr>"
        "prepare_commit x c now uuids s role tier revs heads = Inr p" "load_state x c st' = Inr (published_state p s)"
        using commit_indeterminate [OF load commit [unfolded Inl True] laws(1)] laws(2) by blast
      have "owned_revisions s' = owned_revisions s" by (rule ext) (simp add: p(1) owned_revisions_def)
      then show ?thesis
        using laws inv' p published_prefix [OF inv load_state_inv [OF p(3) view] p(2)] by (simp add: cas_stored_def)
    qed
  qed
qed

lemma stored_expected:
  assumes "cas_stored x c (st, s)"
    and "commit_expected x c now uuids pf qf st s role tier h r = (st', s', q)"
  shows "cas_stored x c (st', s')"
  using assms stored_commit by (auto simp: commit_expected_def split: prod.splits)

lemma stored_ok: "cas_stored x c l \<Longrightarrow> cas_ok x l"
  by (auto simp: cas_stored_def)

text \<open>The laws of the ledger hold with the storage in the invariant.\<close>

interpretation stored: durable_ledger "cas_canonical_ledger x c" "cas_stored x c" cas_owned for x c
proof (unfold_locales, goal_cases)
  case (1 l i role)
  then show ?case using cas.rebuild [OF stored_ok] by blast
next
  case (2 l i)
  then show ?case using cas.origin_roles [OF stored_ok] by blast
next
  case (3 l i role tier h r l' e)
  then have "cas_stored x c l'" using stored_expected by (cases l; cases l') (simp add: cas_ledger_calls)
  then show ?case using cas.refused [OF stored_ok [OF 3(1)] 3(2)] by simp
next
  case (4 l i role tier rs l' e)
  then have "cas_stored x c l'" using stored_commit by (cases l; cases l') (simp add: cas_ledger_calls commit_roots_def)
  then show ?case using cas.roots_refused [OF stored_ok [OF 4(1)] 4(2)] by simp
next
  case (5 l i role tier r l' rc)
  then have "cas_stored x c l'" using stored_expected by (cases l; cases l') (simp add: cas_ledger_calls)
  then show ?case using cas.committed_root [OF stored_ok [OF 5(1)] 5(2)] by simp
next
  case (6 l i role tier rs l' rcs)
  then have "cas_stored x c l'" using stored_commit by (cases l; cases l') (simp add: cas_ledger_calls commit_roots_def)
  then show ?case using cas.committed_roots [OF stored_ok [OF 6(1)] 6(2)] by simp
next
  case (7 l j role head origin i tier r l' rc)
  then have "cas_stored x c l'" using stored_expected by (cases l; cases l') (simp add: cas_ledger_calls)
  then show ?case using cas.committed_next [OF stored_ok [OF 7(1)] 7(2,3)] by simp
qed

section \<open>Starting and starting again\<close>

lemma loaded_is_active:
  assumes "codec_laws c" and "load_state x c st = Inr s"
  shows "read_active st \<noteq> None"
  using assms by (auto simp: load_state_Inr loaded_def read_pointer_def read_active_def codec_laws_def res_simps
      split: if_splits option.splits)

lemma open_loads:
  assumes "codec_laws c" and "load_state x c st = Inr s"
  shows "open_ledger x c pf qf st = (st, Inr s)"
  using loaded_is_active [OF assms] assms(2) by (simp add: open_ledger_def ensure_genesis_def)

lemma kernel_start_stored:
  assumes "codec_laws c" and "\<And>p. segment_readable c p" and start: "kernel_start x c k st = (st', Inr m)"
  shows "mirrors (cas_stored x c) cas_owned m"
proof -
  obtain s where s: "open_ledger x c (cc_put_fault k) (cc_publish_fault k) st = (st', Inr s)"
    using start by (auto simp: kernel_start_def split: prod.splits sum.splits)
  then have load: "load_state x c st' = Inr s" by (auto simp: open_ledger_def split: prod.splits sum.splits)
  then have inv: "ledger_inv x s" using load_state_inv assms(1) by (simp add: codec_laws_def)
  then have "m = booted x c k (st', s)" using kernel_start_booted [OF s inv] start by simp
  moreover have "cas_stored x c (st', s)" using assms(1,2) inv load by (simp add: cas_stored_def)
  ultimately show ?thesis
    unfolding booted_def by (auto intro: stored.boot_mirror simp: cas_ledger_calls)
qed

lemma restarted:
  assumes m: "mirrors (cas_stored x c) cas_owned m" and l: "lm_ledger m = Some (st, s)" and "t \<noteq> Ephemeral"
  shows "\<exists>m'. kernel_start x c k st = (st, Inr m')
    \<and> (\<exists>rest. map durable_part (get_tier m' role t) = map durable_part (get_tier m role t) @ rest
         \<and> (rest \<noteq> [] \<longrightarrow> lg_poisoned s))"
proof -
  have ok: "codec_laws c" and tier: "map durable_part (get_tier m role t)
      = map (\<lambda>r. durable_part (into_runtime_entry r role)) (of_tier t (owned_revisions s role))"
    using m l assms(3) by (auto simp: mirrors_def cas_stored_def)
  obtain s1 where s1: "load_state x c st = Inr s1" "\<not> lg_poisoned s \<Longrightarrow> s1 = s"
    "prefix (owned_revisions s role) (owned_revisions s1 role)"
    using m l by (auto simp: mirrors_def cas_stored_def)
  have inv: "ledger_inv x s1" using load_state_inv [OF s1(1)] ok by (simp add: codec_laws_def)
  obtain new where new: "owned_revisions s1 role = owned_revisions s role @ new" using s1(3) by (auto simp: prefix_def)
  have "map durable_part (get_tier (booted x c k (st, s1)) role t)
      = map (\<lambda>r. durable_part (into_runtime_entry r role)) (of_tier t (owned_revisions s1 role))"
    using booted_mirrors [OF inv] booted_ledger [OF inv] assms(3) by (fastforce simp: mirrors_def)
  moreover have "kernel_start x c k st = (st, Inr (booted x c k (st, s1)))"
    by (rule kernel_start_booted [OF open_loads [OF ok s1(1)] inv])
  moreover have "of_tier t new \<noteq> [] \<longrightarrow> lg_poisoned s" using s1(2) new by (cases "lg_poisoned s") auto
  ultimately show ?thesis
    using tier new
    by (intro exI [of _ "booted x c k (st, s1)"] conjI
        exI [of _ "map (\<lambda>r. durable_part (into_runtime_entry r role)) (of_tier t new)"]) auto
qed

end
