(* ===== verification/Layered_Properties.thy ===== *)
theory Layered_Properties
  imports Layered_Access Layered_Restart Ledger_Properties
begin

text \<open>
  The guarantees of the runtime memory over the kernel's ledger, with instances on the concrete
  ledger of \<open>Ledger_Scenario\<close>.
\<close>

lemma seal_keeps_agent:
  "seal_root_identity x e = Inr e' \<Longrightarrow> en_tier e' = en_tier e \<and> en_agent_id e' = en_agent_id e"
  by (auto simp: seal_root_identity_def Let_def res_simps split: if_splits)

section \<open>Restarts\<close>


definition demo_context :: call_context where
  "demo_context = \<lparr>cc_now = 8, cc_uuids = (\<lambda>_. ''b''), cc_put_fault = (\<lambda>_. NoPutFault),
     cc_publish_fault = NoPublishFault, cc_flush_fails = False\<rparr>"

abbreviation demo_ledger :: "(ledger_storage \<times> ledger_state) canonical_ledger" where
  "demo_ledger \<equiv> cas_canonical_ledger demo_env demo_codec demo_context"

definition demo_memory :: "(ledger_storage \<times> ledger_state) layered_memory" where
  "demo_memory = booted demo_env demo_codec demo_context (demo_storage2, demo_state2)"






section \<open>Failures\<close>

text \<open>
  C21.  A durable operation that fails is invisible: creating, updating, deleting and the two batch
  operations, when they return an error, leave every tier of every role as it was, with any ledger.
\<close>

theorem failed_mutation_is_invisible:
  assumes "create_durable x L e quota m = (m', Inl err)
    \<or> create_batch_durable x L es quota m = (m', Inl err)
    \<or> create_working_batch_durable x L es quota m = (m', Inl err)
    \<or> update_working_durable x L now uuid caller ns i content m = (m', Inl err)
    \<or> delete_working_durable L now uuid caller ns i m = (m', Inl err)"
  shows "get_tier m' role t = get_tier m role t"
  using assms
proof (elim disjE)
  assume "create_durable x L e quota m = (m', Inl err)"
  then show ?thesis
    by (auto simp: create_durable_def create_working_durable_def Let_def get_tier_def split: if_splits sum.splits option.splits prod.splits)
next
  assume "create_batch_durable x L es quota m = (m', Inl err)"
  then show ?thesis
    by (auto simp: create_batch_durable_def Let_def get_tier_def split: list.splits if_splits sum.splits option.splits prod.splits)
next
  assume "create_working_batch_durable x L es quota m = (m', Inl err)"
  then show ?thesis
    by (auto simp: create_working_batch_durable_def Let_def get_tier_def split: list.splits if_splits sum.splits option.splits prod.splits)
next
  assume "update_working_durable x L now uuid caller ns i content m = (m', Inl err)"
  then show ?thesis
    by (auto simp: update_working_durable_def get_tier_def split: if_splits elim!: commit_working_mutation_cases)
next
  assume "delete_working_durable L now uuid caller ns i m = (m', Inl err)"
  then show ?thesis
    by (auto simp: delete_working_durable_def get_tier_def elim!: commit_working_mutation_cases)
qed

definition demo_misdirected ::
  "(ledger_storage \<times> ledger_state) layered_memory \<times> (mutation_error + memory_entry)" where
  "demo_misdirected = delete_working_durable demo_ledger 9 ''e'' ''agent'' ''elsewhere'' ''a'' demo_memory"

lemma demo_misdirected_error: "snd demo_misdirected = Inl (MutationNamespaceMismatch ''a'')"
  by code_simp

theorem failed_mutation_is_invisible_witness:
  "get_tier (fst demo_misdirected) ''agent'' Working = get_tier demo_memory ''agent'' Working"
  by (rule failed_mutation_is_invisible [where L = demo_ledger and now = 9 and uuid = "''e''" and caller = "''agent''"
        and ns = "''elsewhere''" and i = "''a''" and err = "MutationNamespaceMismatch ''a''"])
     (use demo_misdirected_error in \<open>simp add: demo_misdirected_def prod_eq_iff\<close>)

section \<open>Quotas\<close>

lemma create_working_durable_count:
  assumes "create_working_durable x L e quota m = (m', Inr e')" and "0 < quota"
  shows "count_for_agent m' (en_agent_id e) \<le> quota"
  using assms seal_keeps_agent [of x e]
  by (auto simp: create_working_durable_def Let_def count_for_agent_def get_tier_def split: if_splits sum.splits option.splits prod.splits)

lemma create_durable_count:
  assumes "create_durable x L e quota m = (m', Inr e')" and "0 < quota"
  shows "count_for_agent m' (en_agent_id e) \<le> quota"
proof (cases "en_tier e = Working")
  case True
  then show ?thesis using assms create_working_durable_count by (simp add: create_durable_def)
next
  case False
  then show ?thesis
    using assms seal_keeps_agent [of x e]
    by (cases "en_tier e") (auto simp: create_durable_def Let_def count_for_agent_def store_inner_def split: if_splits sum.splits option.splits prod.splits)
qed

lemma create_batch_durable_count:
  assumes "create_batch_durable x L (e # es) quota m = (m', Inr es')" and "0 < quota" and "quota < u64_max"
  shows "count_for_agent m' (en_agent_id e) \<le> quota"
proof -
  have count: "count_for_agent (tier_update t (append_entries a xs) m0) a = count_for_agent m0 a + length xs" for t a xs and m0 :: "'a layered_memory"
    by (cases t) (simp_all add: count_for_agent_def)
  have keep: "count_for_agent (m\<lparr>lm_ledger := l\<rparr>) a = count_for_agent m a" for l a
    by (simp add: count_for_agent_def)
  have len: "length (map2 dated xs rcs @ drop (length rcs) xs) = length xs" for xs rcs by simp
  have "saturating_add_u64 n k \<le> quota \<Longrightarrow> n + k \<le> quota" for n k
    using assms(3) by (simp add: saturating_add_u64_def min_le_iff_disj)
  then show ?thesis
    using assms(1,2)
    by (auto simp: create_batch_durable_def Let_def count keep len not_less simp del: length_append split: if_splits sum.splits option.splits prod.splits)
qed

lemma create_working_batch_durable_count:
  assumes "create_working_batch_durable x L (e # es) quota m = (m', Inr es')" and "0 < quota" and "quota < u64_max"
  shows "count_for_agent m' (en_agent_id e) \<le> quota"
proof -
  have len: "length (ys @ map2 dated xs rcs @ drop (length rcs) xs) = length ys + length xs" for ys xs rcs by simp
  have "saturating_add_u64 n k \<le> quota \<Longrightarrow> k + n \<le> quota" for n k
    using assms(3) by (simp add: saturating_add_u64_def min_le_iff_disj)
  then show ?thesis
    using assms(1,2)
    by (fastforce simp: create_working_batch_durable_def Let_def count_for_agent_def get_tier_def len not_less
        simp del: length_append split: if_splits sum.splits option.splits prod.splits)
qed

text \<open>
  C23.  Quotas hold: after a successful creation, single or batch, under a positive quota the role
  has at most that many entries over all tiers.
\<close>

theorem quota_is_respected:
  assumes "0 < quota" and "quota < u64_max"
    and "create_durable x L e quota m = (m', Inr e') \<or> create_batch_durable x L (e # es) quota m = (m', Inr es')
      \<or> create_working_batch_durable x L (e # es) quota m = (m', Inr es')"
  shows "count_for_agent m' (en_agent_id e) \<le> quota"
  using assms(3)
proof (elim disjE)
qed (use assms(1,2) create_durable_count create_batch_durable_count create_working_batch_durable_count in metis)+

definition demo_created ::
  "(ledger_storage \<times> ledger_state) layered_memory \<times> (mutation_error + memory_entry)" where
  "demo_created = create_durable demo_env (cas_canonical_ledger demo_env demo_codec (demo_context\<lparr>cc_now := 7\<rparr>))
     (into_runtime_entry demo_request ''agent'') 1 (set_ledger (demo_storage1, demo_state1) layered_new)"

lemma demo_created_ok: "\<not> isl (snd demo_created) \<and> en_agent_id (into_runtime_entry demo_request ''agent'') = ''agent''"
  by code_simp

theorem quota_is_respected_witness: "count_for_agent (fst demo_created) ''agent'' \<le> 1"
proof -
  have "create_durable demo_env (cas_canonical_ledger demo_env demo_codec (demo_context\<lparr>cc_now := 7\<rparr>))
      (into_runtime_entry demo_request ''agent'') 1 (set_ledger (demo_storage1, demo_state1) layered_new)
      = (fst demo_created, Inr (projr (snd demo_created)))"
    using demo_created_ok by (simp add: demo_created_def prod_eq_iff)
  from quota_is_respected [OF _ _ disjI1 [OF this]] show ?thesis
    using demo_created_ok by (simp add: u64_max_def)
qed

section \<open>Deleting twice\<close>

lemma origin_survives_commit:
  assumes inv: "ledger_inv x s" and origin: "origin_for_revision s role h True = Inr (Some origin)"
    and commit: "commit_expected x c now uuids pf qf st s role tier (ExpectRevision h) r = (st', s', Inr rc)"
  shows "origin_for_revision s' role h True = Inr (Some origin)"
proof -
  obtain cs where cs: "commit_records x c now uuids pf qf st s role tier [r] [ExpectRevision h] = (st', s', Inr cs)"
    using commit by (rule commit_expected_Inr)
  obtain rv where rv: "find_revision s h = Some rv"
    using origin by (cases "find_revision s h") (auto simp: origin_for_revision_def)
  then have mem: "rv \<in> set (lg_revisions s)" by (auto simp: find_revision_def dest: find_Some_in)
  have "policy_stream (rv_memory_id rv) (lg_policies s) \<noteq> []"
    using logs_wf_policy_stream mem inv unfolding ledger_inv_def by blast
  then obtain p where p: "p \<in> set (lg_policies s)" "po_memory_id p = rv_memory_id rv"
    by (auto simp: policy_stream_def filter_empty_conv)
  show ?thesis
  proof (rule commit_logs [OF inv cs])
    assume inv': "ledger_inv x s'"
      and logs: "lg_revisions s' = lg_revisions s @ stamp_revisions role now (length (lg_revisions s) + 1) [r]"
      "lg_policies s' = lg_policies s @ root_policies role now (length (lg_policies s) + 1) uuids
        (zip (stamp_revisions role now (length (lg_revisions s) + 1) [r]) [ExpectRevision h])"
    have "find_revision s' h = Some rv" using rv logs(1) by (simp add: find_revision_def find_append)
    then show ?thesis
      using origin origin_for_revision_write [OF inv rv p, of role] origin_for_revision_write [OF inv', of h rv p role] p logs(2)
      by simp
  qed
qed

lemma delete_candidate_None:
  assumes "delete_candidate now uuid ns h live = Inr (cand, None)"
  obtains entry where "find (\<lambda>e. en_id e = h) live = Some entry" "en_tenant_id entry = ns"
    "en_deleted_at entry = None" "find (\<lambda>e. en_parent_revision_id e = Some h) live = None"
    "cand = live @ [entry\<lparr>en_id := uuid, en_parent_revision_id := Some (en_id entry), en_access_count := 0,
                en_last_accessed := now, en_created_at := now, en_deleted_at := Some now, en_superseded_by := None\<rparr>]"
proof (cases "find (\<lambda>e. en_parent_revision_id e = Some h) live")
  case None
  then show thesis using assms that by (auto simp: delete_candidate_def res_simps)
next
  case (Some child)
  then show thesis using assms by (auto simp: delete_candidate_def res_simps split: if_splits)
qed

lemma delete_candidate_again:
  assumes "delete_candidate now uuid ns h live = Inr (cand, None)" and "last_opt cand = Some e"
  shows "delete_candidate now' uuid' ns h (butlast cand @ [dated e rc]) = Inr (butlast cand @ [dated e rc], Some (dated e rc))"
proof (rule delete_candidate_None [OF assms(1)])
  fix entry
  assume entry: "find (\<lambda>e. en_id e = h) live = Some entry" "en_tenant_id entry = ns"
    "en_deleted_at entry = None" "find (\<lambda>e. en_parent_revision_id e = Some h) live = None"
    and cand: "cand = live @ [entry\<lparr>en_id := uuid, en_parent_revision_id := Some (en_id entry), en_access_count := 0,
                en_last_accessed := now, en_created_at := now, en_deleted_at := Some now, en_superseded_by := None\<rparr>]"
  have "en_id entry = h" using find_Some_in [OF entry(1)] by simp
  moreover have "e = last cand" using assms(2) cand by (simp add: last_opt_def)
  ultimately show ?thesis
    using entry cand by (simp add: delete_candidate_def find_append res_simps dated_def)
qed

lemma delete_candidate_existing:
  assumes "delete_candidate now uuid ns h live = Inr (cand, Some e)"
  shows "delete_candidate now' uuid' ns h live = Inr (cand, Some e)"
  using assms
  by (cases "find (\<lambda>e. en_parent_revision_id e = Some h) live") (auto simp: delete_candidate_def res_simps split: if_splits)

text \<open>
  C22.  Deleting is idempotent: repeating a successful delete, at any later time and under any fault
  plan, commits nothing, changes nothing and returns the same tombstone.
\<close>

theorem delete_is_idempotent:
  assumes inv: "lm_ledger m = Some (st, s)" "ledger_inv x s"
    and del: "delete_working_durable (cas_canonical_ledger x c k) now uuid role ns h m = (m', Inr e)"
  shows "delete_working_durable (cas_canonical_ledger x c k') now' uuid' role ns h m' = (m', Inr e)"
  using del [unfolded delete_working_durable_def]
proof (cases rule: commit_working_mutation_cases)
  case (existing l origin live cand e')
  then show ?thesis
    using delete_candidate_existing [OF existing(6)] inv(1)
    by (auto simp: delete_working_durable_def commit_working_mutation_def cas_ledger_calls)
next
  case (committed l origin live cand e' rv l' rc)
  obtain st' s' where l': "l' = (st', s')" by force
  have l: "l = (st, s)" using committed(1) inv(1) by simp
  have "origin_for_revision s role h True = Inr (Some origin)"
    using committed(2) by (simp add: l cas_ledger_calls)
  moreover have "commit_expected x c (cc_now k) (cc_uuids k) (cc_put_fault k) (cc_publish_fault k) st s role
      Working (ExpectRevision h) rv = (st', s', Inr rc)"
    using committed(8) by (simp add: l l' cas_ledger_calls)
  ultimately have "origin_for_revision s' role h True = Inr (Some origin)"
    by (rule origin_survives_commit [OF inv(2)])
  moreover have "map_of (lm_working m') origin = Some (butlast cand @ [dated e' rc])"
    using committed(9) by (simp add: update_conv')
  ultimately show ?thesis
    using committed(9,10) l' delete_candidate_again [OF committed(4,5)]
    by (simp add: delete_working_durable_def commit_working_mutation_def cas_ledger_calls)
qed simp_all


definition demo_deleted ::
  "(ledger_storage \<times> ledger_state) layered_memory \<times> (mutation_error + memory_entry)" where
  "demo_deleted = delete_working_durable (cas_canonical_ledger demo_env blind_codec demo_context) 9 ''d'' ''agent''
     DEFAULT_TENANT ''a'' (booted demo_env blind_codec demo_context (demo_storage0, demo_state2))"

lemma demo_deleted_ok: "\<not> isl (snd demo_deleted) \<and> map en_id (get_tier (fst demo_deleted) ''agent'' Working) = [''a'', ''d'']"
  by code_simp

theorem delete_is_idempotent_witness:
  "delete_working_durable (cas_canonical_ledger demo_env blind_codec demo_context) 99 ''z'' ''agent''
     DEFAULT_TENANT ''a'' (fst demo_deleted) = (fst demo_deleted, Inr (projr (snd demo_deleted)))"
proof (rule delete_is_idempotent [OF booted_ledger [OF demo_inv2] demo_inv2])
  show "delete_working_durable (cas_canonical_ledger demo_env blind_codec demo_context) 9 ''d'' ''agent''
     DEFAULT_TENANT ''a'' (booted demo_env blind_codec demo_context (demo_storage0, demo_state2))
     = (fst demo_deleted, Inr (projr (snd demo_deleted)))"
    using demo_deleted_ok by (simp add: demo_deleted_def prod_eq_iff)
qed

section \<open>Reading\<close>

text \<open>
  C20.  Reads on behalf of a role are exact: on a mirrored memory, looking up a revision in a durable
  tier succeeds, and finds an entry precisely when the revision is the live head of a memory of that
  tier whose current policy lets the role read.
\<close>

theorem authorised_read_is_exact:
  assumes "mirrors (cas_ok x) cas_owned m" and "lm_ledger m = Some (st, s)" and "t \<noteq> Ephemeral"
  shows "\<exists>q. find_active_authorized (cas_canonical_ledger x c k) m role t i = Inr q
    \<and> (q \<noteq> None \<longleftrightarrow> visible s role i \<and> (\<exists>r \<in> set (lg_revisions s). rv_revision_id r = i \<and> rv_cognitive_tier r = t))"
  using assms by (rule find_active_authorized_exact)

theorem authorised_read_is_exact_witness:
  "\<exists>q. find_active_authorized demo_ledger demo_memory ''agent'' Working ''a'' = Inr q
    \<and> (q \<noteq> None \<longleftrightarrow> visible demo_state2 ''agent'' ''a''
         \<and> (\<exists>r \<in> set (lg_revisions demo_state2). rv_revision_id r = ''a'' \<and> rv_cognitive_tier r = Working))"
  unfolding demo_memory_def
  by (rule authorised_read_is_exact [OF booted_mirrors [OF demo_inv2] booted_ledger [OF demo_inv2]]) simp

end
