(* ===== verification/Binary_Heap.thy ===== *)
theory Binary_Heap
  imports Main "HOL-Library.Multiset"
begin

text \<open>
  The binary heap of the Rust standard library, as the scheduler queue uses it: a vector in heap
  order, \<open>push\<close> by sifting the new element up, \<open>pop\<close> by moving the last element into the root,
  sifting the hole down to the bottom and the element up again.  The order in which elements of
  equal rank leave the heap depends on these details, so they are modelled as they are.  The
  contract of a priority queue is the locale \<open>priority_queue\<close>; the heap meets it for every total
  preorder.
\<close>

section \<open>The operations\<close>

text \<open>The element \<open>elt\<close> has been taken out of the vector, which has a hole at \<open>pos\<close>.\<close>

definition heap_parent :: "nat \<Rightarrow> nat" where
  "heap_parent i = (i - 1) div 2"

lemma heap_parent_less [simp]: "0 < i \<Longrightarrow> heap_parent i < i"
  by (auto simp: heap_parent_def)

lemma heap_parent_bound: "0 < i \<Longrightarrow> i < n \<Longrightarrow> heap_parent i < n"
  using heap_parent_less [of i] by linarith

lemma heap_parent_neq: "0 < i \<Longrightarrow> heap_parent i \<noteq> i"
  using heap_parent_less [of i] by linarith

lemma heap_parent_iff: "0 < i \<Longrightarrow> heap_parent i = p \<longleftrightarrow> i = 2 * p + 1 \<or> i = 2 * p + 2"
  by (auto simp: heap_parent_def)

function sift_up_hole :: "('a \<Rightarrow> 'a \<Rightarrow> bool) \<Rightarrow> nat \<Rightarrow> 'a \<Rightarrow> 'a list \<Rightarrow> 'a list" where
  "sift_up_hole le pos elt data =
     (if pos = 0 then data[pos := elt]
      else if le elt (data ! heap_parent pos) then data[pos := elt]
      else sift_up_hole le (heap_parent pos) elt (data[pos := data ! heap_parent pos]))"
  by pat_completeness auto
termination
  by (relation "measure (\<lambda>(le, pos, elt, data). pos)") auto

declare sift_up_hole.simps [simp del]

definition sift_up :: "('a \<Rightarrow> 'a \<Rightarrow> bool) \<Rightarrow> nat \<Rightarrow> 'a list \<Rightarrow> 'a list" where
  "sift_up le pos data = sift_up_hole le pos (data ! pos) data"

definition greater_child :: "('a \<Rightarrow> 'a \<Rightarrow> bool) \<Rightarrow> 'a list \<Rightarrow> nat \<Rightarrow> nat" where
  "greater_child le data child = (if le (data ! child) (data ! (child + 1)) then child + 1 else child)"

function sift_down_hole :: "('a \<Rightarrow> 'a \<Rightarrow> bool) \<Rightarrow> nat \<Rightarrow> 'a list \<Rightarrow> nat \<times> 'a list" where
  "sift_down_hole le pos data =
     (let child = 2 * pos + 1 in
      if child \<le> length data - 2 then
        (let c = greater_child le data child in sift_down_hole le c (data[pos := data ! c]))
      else if child = length data - 1 then (child, data[pos := data ! child])
      else (pos, data))"
  by pat_completeness auto
termination
  by (relation "measure (\<lambda>(le, pos, data). length data - pos)") (auto simp: greater_child_def)

declare sift_down_hole.simps [simp del]

definition sift_down_to_bottom :: "('a \<Rightarrow> 'a \<Rightarrow> bool) \<Rightarrow> 'a list \<Rightarrow> 'a list" where
  "sift_down_to_bottom le data =
     (let elt = data ! 0; (pos, data1) = sift_down_hole le 0 data
      in sift_up le pos (data1[pos := elt]))"

definition heap_push :: "('a \<Rightarrow> 'a \<Rightarrow> bool) \<Rightarrow> 'a \<Rightarrow> 'a list \<Rightarrow> 'a list" where
  "heap_push le x data = sift_up le (length data) (data @ [x])"

definition heap_pop :: "('a \<Rightarrow> 'a \<Rightarrow> bool) \<Rightarrow> 'a list \<Rightarrow> ('a \<times> 'a list) option" where
  "heap_pop le data =
     (if data = [] then None
      else let item = last data; rest = butlast data
           in if rest = [] then Some (item, [])
              else Some (rest ! 0, sift_down_to_bottom le (rest[0 := item])))"

definition is_heap :: "('a \<Rightarrow> 'a \<Rightarrow> bool) \<Rightarrow> 'a list \<Rightarrow> bool" where
  "is_heap le data = (\<forall>i < length data. 0 < i \<longrightarrow> le (data ! i) (data ! heap_parent i))"

section \<open>The elements are kept\<close>

lemma mset_move_hole:
  assumes "p < length data" "q < length data"
  shows "mset (data[p := data ! q, q := e]) = mset (data[p := e])"
proof (cases "p = q")
  case False
  have "mset (data[p := e, q := data[p := e] ! p, p := data[p := e] ! q]) = mset (data[p := e])"
    by (rule mset_swap) (use assms in simp_all)
  moreover have "data[p := e, q := data[p := e] ! p, p := data[p := e] ! q] = data[p := data ! q, q := e]"
    using False assms by (intro nth_equalityI) (simp_all add: nth_list_update)
  ultimately show ?thesis by (simp only:)
qed (use assms in simp)

lemma sift_down_hole_cases [consumes 1, case_names both one leaf]:
  assumes "sift_down_hole le pos data = (q, data')"
  obtains c where "c = greater_child le data (2 * pos + 1)" "2 * pos + 1 \<le> length data - 2"
      "c < length data" "sift_down_hole le c (data[pos := data ! c]) = (q, data')"
    | "2 * pos + 1 = length data - 1" "q = 2 * pos + 1" "data' = data[pos := data ! q]"
    | "length data \<le> 2 * pos + 1" "q = pos" "data' = data"
proof (cases "2 * pos + 1 \<le> length data - 2")
  case True
  then have "greater_child le data (2 * pos + 1) < length data"
    by (auto simp: greater_child_def)
  moreover have "sift_down_hole le (greater_child le data (2 * pos + 1))
      (data[pos := data ! greater_child le data (2 * pos + 1)]) = (q, data')"
    using assms True unfolding sift_down_hole.simps [of le pos data] Let_def by simp
  ultimately show thesis using True that(1) by blast
next
  case False
  then have eq: "(if 2 * pos + 1 = length data - 1 then (2 * pos + 1, data[pos := data ! (2 * pos + 1)])
      else (pos, data)) = (q, data')"
    using assms unfolding sift_down_hole.simps [of le pos data] Let_def by simp
  show thesis
  proof (cases "2 * pos + 1 = length data - 1")
    case True
    have "(2 * pos + 1, data[pos := data ! (2 * pos + 1)]) = (q, data')"
      using eq unfolding if_P [OF True] .
    from this [symmetric] have "q = 2 * pos + 1 \<and> data' = data[pos := data ! (2 * pos + 1)]"
      unfolding prod.inject .
    then show thesis using that(2) [OF True] by blast
  next
    case neq: False
    then have "length data \<le> 2 * pos + 1" using False by linarith
    moreover have "(pos, data) = (q, data')"
      using eq unfolding if_not_P [OF neq] .
    ultimately show thesis by (intro that(3)) (simp_all only: prod.inject)
  qed
qed

lemma length_sift_up_hole [simp]: "length (sift_up_hole le pos elt data) = length data"
  by (induction le pos elt data rule: sift_up_hole.induct)
    (subst sift_up_hole.simps, simp)

lemma mset_sift_up_hole:
  "pos < length data \<Longrightarrow> mset (sift_up_hole le pos elt data) = mset (data[pos := elt])"
proof (induction le pos elt data rule: sift_up_hole.induct)
  case (1 le pos elt data)
  show ?case
  proof (cases "pos = 0")
    case False
    then have "heap_parent pos < length data" using 1(2) by (simp add: heap_parent_bound)
    then show ?thesis
      using 1 False by (subst sift_up_hole.simps) (simp add: mset_move_hole)
  qed (subst sift_up_hole.simps, simp)
qed

lemma sift_down_hole_range:
  assumes "pos < length data" "sift_down_hole le pos data = (q, data')"
  shows "length data' = length data \<and> q < length data"
  using assms
proof (induction le pos data arbitrary: q data' rule: sift_down_hole.induct)
  case (1 le pos data)
  show ?case
    using 1(3)
  proof (cases rule: sift_down_hole_cases)
    case (both c)
    then show ?thesis using 1(1) [OF refl both(2) both(1) _ both(4)] by simp
  qed (use 1(2) in auto)
qed

lemma mset_sift_down_hole:
  assumes "pos < length data" "sift_down_hole le pos data = (q, data')"
  shows "mset (data'[q := elt]) = mset (data[pos := elt])"
  using assms
proof (induction le pos data arbitrary: q data' rule: sift_down_hole.induct)
  case (1 le pos data)
  show ?case
    using 1(3)
  proof (cases rule: sift_down_hole_cases)
    case (both c)
    then show ?thesis
      using 1(1) [OF refl both(2) both(1) _ both(4)] mset_move_hole [OF 1(2) both(3)] by simp
  qed (use 1(2) in \<open>simp_all add: mset_move_hole\<close>)
qed

lemma mset_sift_up: "pos < length data \<Longrightarrow> mset (sift_up le pos data) = mset data"
  by (simp add: sift_up_def mset_sift_up_hole)

lemma mset_sift_down_to_bottom: "data \<noteq> [] \<Longrightarrow> mset (sift_down_to_bottom le data) = mset data"
proof -
  assume ne: "data \<noteq> []"
  obtain q data' where q: "sift_down_hole le 0 data = (q, data')" by fastforce
  have "length data' = length data \<and> q < length data"
    using sift_down_hole_range [OF _ q] ne by simp
  then show ?thesis
    using mset_sift_down_hole [OF _ q, of "data ! 0"] ne
    by (simp add: sift_down_to_bottom_def q mset_sift_up)
qed

lemma mset_heap_push: "mset (heap_push le x data) = add_mset x (mset data)"
  by (simp add: heap_push_def mset_sift_up)

lemma heap_pop_None_iff: "heap_pop le data = None \<longleftrightarrow> data = []"
  by (simp add: heap_pop_def Let_def)

lemma mset_heap_pop:
  assumes "heap_pop le data = Some (x, data')"
  shows "mset data = add_mset x (mset data')"
proof -
  have ne: "data \<noteq> []" using assms by (auto simp: heap_pop_def)
  define rest where "rest = butlast data"
  have data: "data = rest @ [last data]" using ne by (simp add: rest_def)
  show ?thesis
  proof (cases "rest = []")
    case True
    then show ?thesis using assms ne data by (auto simp: heap_pop_def rest_def [symmetric])
  next
    case False
    then have "x = rest ! 0" "data' = sift_down_to_bottom le (rest[0 := last data])"
      using assms ne by (auto simp: heap_pop_def rest_def [symmetric] Let_def)
    moreover have "mset data = add_mset (last data) (mset rest)"
      by (subst data) simp
    moreover have "rest ! 0 \<in># mset rest" using False by simp
    ultimately show ?thesis
      using False by (simp add: mset_sift_down_to_bottom mset_update)
  qed
qed

section \<open>The heap order is kept\<close>

text \<open>
  A heap with a hole at \<open>pos\<close>: every edge of the tree that does not touch the hole is ordered, and
  the children of the hole are below its parent.
\<close>

definition holed_heap :: "('a \<Rightarrow> 'a \<Rightarrow> bool) \<Rightarrow> nat \<Rightarrow> 'a list \<Rightarrow> bool" where
  "holed_heap le pos data =
     ((\<forall>i < length data. 0 < i \<and> i \<noteq> pos \<and> heap_parent i \<noteq> pos \<longrightarrow> le (data ! i) (data ! heap_parent i))
      \<and> (\<forall>i < length data. 0 < i \<and> heap_parent i = pos \<and> 0 < pos \<longrightarrow> le (data ! i) (data ! heap_parent pos)))"

lemma holed_heapD:
  assumes "holed_heap le pos data"
  shows "\<And>i. i < length data \<Longrightarrow> 0 < i \<Longrightarrow> i \<noteq> pos \<Longrightarrow> heap_parent i \<noteq> pos \<Longrightarrow> le (data ! i) (data ! heap_parent i)"
    and "\<And>i. i < length data \<Longrightarrow> 0 < i \<Longrightarrow> heap_parent i = pos \<Longrightarrow> 0 < pos \<Longrightarrow> le (data ! i) (data ! heap_parent pos)"
  using assms by (simp_all add: holed_heap_def)

text \<open>The total preorders by which the elements are compared.\<close>

locale total_preorder =
  fixes le :: "'a \<Rightarrow> 'a \<Rightarrow> bool"
  assumes le_total: "le x y \<or> le y x"
    and le_trans: "le x y \<Longrightarrow> le y z \<Longrightarrow> le x z"
begin

lemma le_refl: "le x x"
  using le_total [of x x] by simp

lemma fill_hole:
  assumes "holed_heap le pos data" "pos < length data"
    and "\<And>i. i < length data \<Longrightarrow> 0 < i \<Longrightarrow> heap_parent i = pos \<Longrightarrow> le (data ! i) elt"
    and "0 < pos \<Longrightarrow> le elt (data ! heap_parent pos)"
  shows "is_heap le (data[pos := elt])"
  unfolding is_heap_def
proof (intro allI impI)
  fix i assume i: "i < length (data[pos := elt])" "0 < i"
  then have ne: "heap_parent i \<noteq> i" by (simp add: heap_parent_neq)
  show "le (data[pos := elt] ! i) (data[pos := elt] ! heap_parent i)"
  proof (cases "i = pos")
    case True
    then show ?thesis using assms(2,4) i ne by simp
  next
    case False
    then show ?thesis
      using i holed_heapD(1) [OF assms(1), of i] assms(2) assms(3) [of i]
      by (cases "heap_parent i = pos") simp_all
  qed
qed

lemma sift_up_hole_heap:
  assumes "holed_heap le pos data" "pos < length data"
    and "\<And>i. i < length data \<Longrightarrow> 0 < i \<Longrightarrow> heap_parent i = pos \<Longrightarrow> le (data ! i) elt"
  shows "is_heap le (sift_up_hole le pos elt data)"
  using assms
proof (induction pos arbitrary: data rule: less_induct)
  case (less pos)
  show ?case
  proof (cases "pos = 0 \<or> le elt (data ! heap_parent pos)")
    case True
    then have "sift_up_hole le pos elt data = data[pos := elt]"
      by (subst sift_up_hole.simps) auto
    moreover have "is_heap le (data[pos := elt])"
      by (rule fill_hole [OF less.prems]) (use True in auto)
    ultimately show ?thesis by (simp only:)
  next
    case False
    define p where "p = heap_parent pos"
    have p: "p < pos" "p < length data" "p \<noteq> pos"
      using False less.prems(2) by (simp_all add: p_def heap_parent_bound heap_parent_neq)
    have elt: "le (data ! p) elt" using le_total [of elt "data ! p"] False by (simp add: p_def)
    have step: "sift_up_hole le pos elt data = sift_up_hole le p elt (data[pos := data ! p])"
      using False by (subst sift_up_hole.simps) (simp add: p_def)
    have above: "le (data ! p) (data ! heap_parent p)" if "0 < p"
      using holed_heapD(1) [OF less.prems(1) p(2) that p(3)] heap_parent_less [OF that] p(1) by simp
    have sibling: "le (data ! i) (data ! p)"
      if "i < length data" "0 < i" "heap_parent i = p" "i \<noteq> pos" for i
      using holed_heapD(1) [OF less.prems(1) that(1,2,4)] that(3) p(3) by simp
    have "holed_heap le p (data[pos := data ! p])"
      unfolding holed_heap_def
    proof (intro conjI allI impI; elim conjE)
      fix i assume i: "i < length (data[pos := data ! p])" "0 < i" "i \<noteq> p" "heap_parent i \<noteq> p"
      then have "i \<noteq> pos" by (auto simp: p_def)
      then show "le (data[pos := data ! p] ! i) (data[pos := data ! p] ! heap_parent i)"
        using i holed_heapD [OF less.prems(1), of i] less.prems(2) False
        by (cases "heap_parent i = pos") (simp_all add: p_def)
    next
      fix i assume i: "i < length (data[pos := data ! p])" "0 < i" "heap_parent i = p" "0 < p"
      have "heap_parent p \<noteq> pos" using heap_parent_less [OF i(4)] p(1) by simp
      then show "le (data[pos := data ! p] ! i) (data[pos := data ! p] ! heap_parent p)"
        using i sibling [of i] above [OF i(4)] le_trans [of "data ! i" "data ! p"] less.prems(2)
        by (cases "i = pos") simp_all
    qed
    moreover have "le (data[pos := data ! p] ! i) elt"
      if "i < length (data[pos := data ! p])" "0 < i" "heap_parent i = p" for i
      using that sibling [of i] elt le_trans [of "data ! i" "data ! p" elt] less.prems(2)
      by (cases "i = pos") simp_all
    ultimately have "is_heap le (sift_up_hole le p elt (data[pos := data ! p]))"
      by (intro less.IH [OF p(1)]) (simp_all add: p(2))
    then show ?thesis by (simp only: step)
  qed
qed

lemma greater_child_dominates:
  assumes "i = child \<or> i = child + 1"
  shows "le (data ! i) (data ! greater_child le data child)"
  using assms le_total le_refl by (auto simp: greater_child_def)

lemma descend:
  assumes heap: "holed_heap le pos data" and pos: "pos < length data"
    and c: "c < length data" "heap_parent c = pos" "0 < c"
    and max: "\<And>i. i < length data \<Longrightarrow> 0 < i \<Longrightarrow> heap_parent i = pos \<Longrightarrow> le (data ! i) (data ! c)"
  shows "holed_heap le c (data[pos := data ! c])"
  unfolding holed_heap_def
proof (intro conjI allI impI; elim conjE)
  have "pos < c" using c by auto
  fix i assume i: "i < length (data[pos := data ! c])" "0 < i" "i \<noteq> c" "heap_parent i \<noteq> c"
  show "le (data[pos := data ! c] ! i) (data[pos := data ! c] ! heap_parent i)"
  proof (cases "i = pos")
    case True
    then have "heap_parent i \<noteq> pos" using i(2) by (simp add: heap_parent_neq)
    then show ?thesis using True i holed_heapD(2) [OF heap c(1,3,2)] pos by simp
  next
    case False
    then show ?thesis
      using i holed_heapD(1) [OF heap, of i] max [of i] pos
      by (cases "heap_parent i = pos") simp_all
  qed
next
  fix i assume i: "i < length (data[pos := data ! c])" "0 < i" "heap_parent i = c" "0 < c"
  have "pos < c" using heap_parent_less [OF c(3)] c(2) by simp
  then have "i \<noteq> pos" "heap_parent i \<noteq> pos" using i(3) heap_parent_less [OF i(2)] by auto
  then show "le (data[pos := data ! c] ! i) (data[pos := data ! c] ! heap_parent c)"
    using i c(2) holed_heapD(1) [OF heap, of i] pos by simp
qed

lemma sift_down_hole_heap:
  assumes "holed_heap le pos data" "pos < length data" "sift_down_hole le pos data = (q, data')"
  shows "holed_heap le q data' \<and> length data' \<le> 2 * q + 1"
  using assms
proof (induction "length data - pos" arbitrary: pos data rule: less_induct)
  case less
  show ?case
    using less.prems(3)
  proof (cases rule: sift_down_hole_cases)
    case (both c)
    have children: "i = 2 * pos + 1 \<or> i = 2 * pos + 1 + 1" if "0 < i" "heap_parent i = pos" for i
      using that heap_parent_iff [of i pos] by simp
    have "c = 2 * pos + 1 \<or> c = 2 * pos + 2"
      by (simp add: both(1) greater_child_def)
    then have c: "0 < c" "heap_parent c = pos" "pos < c"
      by (auto simp: heap_parent_def)
    have hole: "holed_heap le c (data[pos := data ! c])"
    proof (rule descend [OF less.prems(1,2) both(3) c(2,1)])
      show "le (data ! i) (data ! c)" if "0 < i" "heap_parent i = pos" for i
        unfolding both(1) by (rule greater_child_dominates [OF children [OF that]])
    qed
    have "length (data[pos := data ! c]) - c < length data - pos"
      using both(3) c(3) by simp
    from less.hyps [OF this hole _ both(4)] both(3) show ?thesis
      by (simp only: length_list_update)
  next
    case one
    have single: "data ! i = data ! q" if "i < length data" "0 < i" "heap_parent i = pos" for i
      using that one(1,2) heap_parent_iff [of i pos] by auto
    have q: "q < length data" "heap_parent q = pos" "0 < q"
      using one(1,2) less.prems(2) by (simp_all add: heap_parent_def)
    have "holed_heap le q (data[pos := data ! q])"
      by (rule descend [OF less.prems(1,2) q]) (simp add: single le_refl)
    moreover have "length data \<le> 2 * q + 1" using one(1,2) by linarith
    ultimately show ?thesis by (simp add: one(3))
  qed (use less.prems(1) in simp)
qed

lemma sift_down_to_bottom_heap:
  assumes "data \<noteq> []" "holed_heap le 0 data"
  shows "is_heap le (sift_down_to_bottom le data)"
proof -
  obtain q data' where q: "sift_down_hole le 0 data = (q, data')" by fastforce
  have range: "length data' = length data" "q < length data"
    using sift_down_hole_range [OF _ q] assms(1) by simp_all
  have hole: "holed_heap le q data'" "length data' \<le> 2 * q + 1"
    using sift_down_hole_heap [OF assms(2) _ q] assms(1) by simp_all
  have leaf: "\<not> (0 < i \<and> i < length data' \<and> heap_parent i = q)" for i
    using hole(2) heap_parent_iff [of i q] by auto
  then have "holed_heap le q (data'[q := data ! 0])"
    using hole(1) unfolding holed_heap_def by (auto simp: nth_list_update)
  then have "is_heap le (sift_up_hole le q (data ! 0) (data'[q := data ! 0]))"
    using leaf range by (intro sift_up_hole_heap) auto
  then show ?thesis
    using range by (simp add: sift_down_to_bottom_def q sift_up_def Let_def)
qed

lemma heap_push_heap:
  assumes "is_heap le data"
  shows "is_heap le (heap_push le x data)"
proof -
  have leaf: "heap_parent i \<noteq> length data" if "i < length (data @ [x])" "0 < i" for i
    using heap_parent_less [OF that(2)] that(1) by simp
  then have "holed_heap le (length data) (data @ [x])"
    using assms unfolding is_heap_def holed_heap_def
    by (auto simp: nth_append heap_parent_bound)
  then show ?thesis
    unfolding heap_push_def sift_up_def using leaf by (intro sift_up_hole_heap) auto
qed

lemma heap_root_max:
  assumes "is_heap le data" "i < length data"
  shows "le (data ! i) (data ! 0)"
  using assms(2)
proof (induction i rule: less_induct)
  case (less i)
  show ?case
  proof (cases "i = 0")
    case False
    then have "le (data ! i) (data ! heap_parent i)"
      using assms(1) less.prems by (simp add: is_heap_def)
    then show ?thesis
      using less.IH [of "heap_parent i"] False less.prems
      by (meson gr_zeroI heap_parent_bound heap_parent_less le_trans)
  qed (simp add: le_refl)
qed

lemma heap_pop_heap:
  assumes "is_heap le data" "heap_pop le data = Some (x, data')"
  shows "is_heap le data'" "\<And>y. y \<in># mset data \<Longrightarrow> le y x"
proof -
  have ne: "data \<noteq> []" using assms(2) by (auto simp: heap_pop_def)
  define rest where "rest = butlast data"
  have data: "data = rest @ [last data]" using ne by (simp add: rest_def)
  have x: "x = data ! 0"
    using assms(2) ne by (subst data) (auto simp: heap_pop_def rest_def [symmetric] nth_append Let_def split: if_splits)
  then show "\<And>y. y \<in># mset data \<Longrightarrow> le y x"
    using heap_root_max [OF assms(1)] by (auto simp: in_set_conv_nth)
  show "is_heap le data'"
  proof (cases "rest = []")
    case True
    then show ?thesis using assms(2) ne by (auto simp: heap_pop_def rest_def [symmetric] is_heap_def)
  next
    case False
    then have "data' = sift_down_to_bottom le (rest[0 := last data])"
      using assms(2) ne by (auto simp: heap_pop_def rest_def [symmetric] Let_def)
    moreover have "is_heap le rest"
      using assms(1) unfolding is_heap_def rest_def by (simp add: nth_butlast heap_parent_bound)
    then have "holed_heap le 0 (rest[0 := last data])"
      by (auto simp: is_heap_def holed_heap_def nth_list_update)
    ultimately show ?thesis using False sift_down_to_bottom_heap by simp
  qed
qed

end

section \<open>The contract of a priority queue\<close>

text \<open>
  What the clients of a queue rely on: its elements are a multiset, \<open>push\<close> adds one, and \<open>pop\<close>
  takes out one that no other element exceeds.
\<close>

locale priority_queue = total_preorder le for le :: "'a \<Rightarrow> 'a \<Rightarrow> bool" +
  fixes push :: "'a \<Rightarrow> 'q \<Rightarrow> 'q"
    and pop :: "'q \<Rightarrow> ('a \<times> 'q) option"
    and ok :: "'q \<Rightarrow> bool"
    and bag :: "'q \<Rightarrow> 'a multiset"
  assumes push_ok: "ok q \<Longrightarrow> ok (push x q)"
    and push_bag: "ok q \<Longrightarrow> bag (push x q) = add_mset x (bag q)"
    and pop_None: "ok q \<Longrightarrow> pop q = None \<longleftrightarrow> bag q = {#}"
    and pop_ok: "ok q \<Longrightarrow> pop q = Some (x, q') \<Longrightarrow> ok q'"
    and pop_bag: "ok q \<Longrightarrow> pop q = Some (x, q') \<Longrightarrow> bag q = add_mset x (bag q')"
    and pop_max: "ok q \<Longrightarrow> pop q = Some (x, q') \<Longrightarrow> y \<in># bag q \<Longrightarrow> le y x"
begin

text \<open>A loop that pops until the queue is empty, as a relation between queue and output.\<close>

inductive drains :: "'q \<Rightarrow> 'a list \<Rightarrow> 'q \<Rightarrow> bool" where
  drained: "pop q = None \<Longrightarrow> drains q [] q"
| popped: "pop q = Some (x, q') \<Longrightarrow> drains q' xs q'' \<Longrightarrow> drains q (x # xs) q''"

lemma drains_spec:
  assumes "drains q xs q'" "ok q"
  shows "mset xs = bag q" "sorted_wrt (\<lambda>x y. le y x) xs" "ok q'" "bag q' = {#}"
proof -
  have "mset xs = bag q \<and> sorted_wrt (\<lambda>x y. le y x) xs \<and> ok q' \<and> bag q' = {#}"
    using assms
  proof (induction rule: drains.induct)
    case (drained q)
    then show ?case using pop_None by auto
  next
    case (popped q x q' xs q'')
    have IH: "mset xs = bag q' \<and> sorted_wrt (\<lambda>x y. le y x) xs \<and> ok q'' \<and> bag q'' = {#}"
      using popped pop_ok by blast
    have bag: "bag q = add_mset x (bag q')" using popped.hyps(1) popped.prems by (rule pop_bag [rotated])
    have "le y x" if "y \<in> set xs" for y
    proof (rule pop_max [OF popped.prems popped.hyps(1)])
      have "y \<in># mset xs" using that by simp
      then show "y \<in># bag q" using IH bag by simp
    qed
    then show ?case using IH bag by simp
  qed
  then show "mset xs = bag q" "sorted_wrt (\<lambda>x y. le y x) xs" "ok q'" "bag q' = {#}" by auto
qed

lemma drains_total:
  assumes "ok q" shows "\<exists>xs q'. drains q xs q'"
  using assms
proof (induction "size (bag q)" arbitrary: q rule: less_induct)
  case less
  show ?case
  proof (cases "pop q")
    case None
    then show ?thesis using drained by blast
  next
    case (Some p)
    then obtain x q' where p: "pop q = Some (x, q')" by (cases p) auto
    then have "size (bag q') < size (bag q)" using pop_bag [OF less.prems] by simp
    then show ?thesis using less.hyps [of q'] pop_ok [OF less.prems p] popped [OF p] by blast
  qed
qed

lemma push_all:
  assumes "ok q"
  shows "ok (fold push xs q)" "bag (fold push xs q) = bag q + mset xs"
  using assms by (induction xs arbitrary: q) (auto simp: push_ok push_bag)

end

text \<open>The heap meets the contract for every total preorder.\<close>

sublocale total_preorder \<subseteq> heap: priority_queue le "heap_push le" "heap_pop le" "is_heap le" mset
proof unfold_locales
  fix q x q' y
  show "is_heap le q \<Longrightarrow> is_heap le (heap_push le x q)" by (rule heap_push_heap)
  show "mset (heap_push le x q) = add_mset x (mset q)" by (rule mset_heap_push)
  show "heap_pop le q = None \<longleftrightarrow> mset q = {#}" by (simp add: heap_pop_None_iff)
  assume pop: "heap_pop le q = Some (x, q')"
  then show "mset q = add_mset x (mset q')" by (rule mset_heap_pop)
  assume ok: "is_heap le q"
  then show "is_heap le q'" using pop by (rule heap_pop_heap(1))
  show "y \<in># mset q \<Longrightarrow> le y x" by (rule heap_pop_heap(2) [OF ok pop])
qed

end
