(* ===== verification/Agent_Scheduler.thy ===== *)
theory Agent_Scheduler
  imports Plico_Prelude Binary_Heap "HOL-Library.AList" "HOL-Library.Word"
begin

text \<open>
  Agents, intents, the priority queue of intents and the registry of agents
  (\<open>src/src/scheduler/agent.rs\<close>, \<open>queue.rs\<close> and \<open>mod.rs\<close>).  Identifiers drawn from the UUID
  generator and clock readings are arguments of the constructors.  The hash maps of the scheduler
  are association lists with distinct keys, whose order stands for the iteration order; each method
  holds its locks while it works and is one step on the state.
\<close>

section \<open>Agents\<close>

datatype agent_id = AgentId string
datatype intent_id = IntentId string

fun agent_id_str :: "agent_id \<Rightarrow> string" where
  "agent_id_str (AgentId s) = s"

fun intent_id_str :: "intent_id \<Rightarrow> string" where
  "intent_id_str (IntentId s) = s"

datatype agent_state = Created | Waiting | Running | Suspended | Completed | Failed | Terminated

definition is_terminal :: "agent_state \<Rightarrow> bool" where
  "is_terminal s = (s \<in> {Completed, Failed, Terminated})"

definition is_active :: "agent_state \<Rightarrow> bool" where
  "is_active s = (s \<in> {Running, Waiting})"

fun can_transition :: "agent_state \<Rightarrow> agent_state \<Rightarrow> bool" where
  "can_transition Created to = (to \<in> {Waiting, Running, Suspended, Terminated})"
| "can_transition Waiting to = (to \<in> {Running, Suspended, Completed, Failed, Terminated})"
| "can_transition Running to = (to \<in> {Waiting, Suspended, Completed, Failed, Terminated})"
| "can_transition Suspended to = (to \<in> {Waiting, Running, Terminated})"
| "can_transition _ to = False"

record transition_error =
  te_from :: agent_state
  te_to :: agent_state

text \<open>The derived \<open>Debug\<close> and the \<open>Display\<close> of the error; the arrow is U+2192 in UTF-8.\<close>

fun debug_state :: "agent_state \<Rightarrow> string" where
  "debug_state Created = ''Created''"
| "debug_state Waiting = ''Waiting''"
| "debug_state Running = ''Running''"
| "debug_state Suspended = ''Suspended''"
| "debug_state Completed = ''Completed''"
| "debug_state Failed = ''Failed''"
| "debug_state Terminated = ''Terminated''"

definition display_transition_error :: "transition_error \<Rightarrow> string" where
  "display_transition_error e =
     ''illegal state transition: '' @ debug_state (te_from e)
     @ '' '' @ [char_of (0xE2 :: nat), char_of (0x86 :: nat), char_of (0x92 :: nat)] @ '' ''
     @ debug_state (te_to e)"

section \<open>Intents\<close>

datatype intent_priority = Critical | High | Medium | Low

fun priority_level :: "intent_priority \<Rightarrow> nat" where
  "priority_level Critical = 4"
| "priority_level High = 3"
| "priority_level Medium = 2"
| "priority_level Low = 1"

instantiation intent_priority :: linorder
begin

definition less_eq_intent_priority :: "intent_priority \<Rightarrow> intent_priority \<Rightarrow> bool" where
  "less_eq_intent_priority a b = (priority_level a \<le> priority_level b)"

definition less_intent_priority :: "intent_priority \<Rightarrow> intent_priority \<Rightarrow> bool" where
  "less_intent_priority a b = (priority_level a < priority_level b)"

instance
proof
  fix a b c :: intent_priority
  show "a \<le> b \<Longrightarrow> b \<le> a \<Longrightarrow> a = b"
    by (cases a; cases b) (simp_all add: less_eq_intent_priority_def)
qed (auto simp: less_eq_intent_priority_def less_intent_priority_def)

end

record intent =
  in_id :: intent_id
  in_priority :: intent_priority
  in_description :: string
  in_action :: "string option"
  in_agent_id :: "agent_id option"
  in_submitted_at :: nat

definition intent_new :: "string \<Rightarrow> nat \<Rightarrow> intent_priority \<Rightarrow> string \<Rightarrow> intent" where
  "intent_new uuid now priority description =
     \<lparr>in_id = IntentId uuid, in_priority = priority, in_description = description,
      in_action = None, in_agent_id = None, in_submitted_at = now\<rparr>"

definition with_action :: "string \<Rightarrow> intent \<Rightarrow> intent" where
  "with_action action i = i\<lparr>in_action := Some action\<rparr>"

definition with_agent :: "agent_id \<Rightarrow> intent \<Rightarrow> intent" where
  "with_agent aid i = i\<lparr>in_agent_id := Some aid\<rparr>"

record agent_resources =
  ar_memory_quota :: nat
  ar_cpu_time_quota :: nat
  ar_allowed_tools :: "string list"

definition default_resources :: agent_resources where
  "default_resources = \<lparr>ar_memory_quota = 0, ar_cpu_time_quota = 0, ar_allowed_tools = []\<rparr>"

text \<open>The counters are \<open>u64\<close> and are incremented with the plain addition, which wraps.\<close>

record agent_usage =
  au_tool_call_count :: "64 word"
  au_total_tokens_consumed :: "64 word"
  au_last_active_ms :: nat

definition default_usage :: agent_usage where
  "default_usage = \<lparr>au_tool_call_count = 0, au_total_tokens_consumed = 0, au_last_active_ms = 0\<rparr>"

record agent =
  ag_id :: agent_id
  ag_name :: string
  ag_description :: string
  ag_created_at_ms :: nat
  ag_state :: agent_state
  ag_current_intent :: "intent option"
  ag_resources :: agent_resources

definition with_description :: "string \<Rightarrow> nat \<Rightarrow> string \<Rightarrow> string \<Rightarrow> agent" where
  "with_description uuid now name description =
     \<lparr>ag_id = AgentId uuid, ag_name = name, ag_description = description, ag_created_at_ms = now,
      ag_state = Created, ag_current_intent = None, ag_resources = default_resources\<rparr>"

definition agent_new :: "string \<Rightarrow> nat \<Rightarrow> string \<Rightarrow> agent" where
  "agent_new uuid now name =
     \<lparr>ag_id = AgentId uuid, ag_name = name, ag_description = [], ag_created_at_ms = now,
      ag_state = Created, ag_current_intent = None, ag_resources = default_resources\<rparr>"

text \<open>A method on \<open>&mut self\<close> returns the agent as it leaves it, whatever its result.\<close>

definition set_state :: "agent_state \<Rightarrow> agent \<Rightarrow> agent \<times> (transition_error + unit)" where
  "set_state to a =
     (if \<not> can_transition (ag_state a) to then (a, Inl \<lparr>te_from = ag_state a, te_to = to\<rparr>)
      else (a\<lparr>ag_state := to\<rparr>, Inr ()))"

definition assign_intent :: "intent \<Rightarrow> agent \<Rightarrow> agent" where
  "assign_intent i a =
     (let a1 = a\<lparr>ag_current_intent := Some i\<rparr>
      in if ag_state a1 = Created \<or> ag_state a1 = Waiting then fst (set_state Waiting a1) else a1)"

section \<open>The queue of intents\<close>

datatype ordering = Less | Equal | Greater

definition cmp :: "'a :: linorder \<Rightarrow> 'a \<Rightarrow> ordering" where
  "cmp a b = (if a < b then Less else if a = b then Equal else Greater)"

fun then_with :: "ordering \<Rightarrow> ordering \<Rightarrow> ordering" where
  "then_with Equal o2 = o2"
| "then_with o1 o2 = o1"

record intent_entry =
  ie_intent :: intent
  ie_timestamp :: nat

definition entry_cmp :: "intent_entry \<Rightarrow> intent_entry \<Rightarrow> ordering" where
  "entry_cmp a b =
     then_with (cmp (in_priority (ie_intent a)) (in_priority (ie_intent b)))
       (cmp (ie_timestamp b) (ie_timestamp a))"

definition entry_le :: "intent_entry \<Rightarrow> intent_entry \<Rightarrow> bool" where
  "entry_le a b = (entry_cmp a b \<in> {Less, Equal})"

type_synonym scheduler_queue = "intent_entry list"

definition queue_push :: "intent \<Rightarrow> scheduler_queue \<Rightarrow> scheduler_queue" where
  "queue_push i q = heap_push entry_le \<lparr>ie_intent = i, ie_timestamp = in_submitted_at i\<rparr> q"

definition queue_pop :: "scheduler_queue \<Rightarrow> (intent \<times> scheduler_queue) option" where
  "queue_pop q = map_option (apfst ie_intent) (heap_pop entry_le q)"

definition queue_peek :: "scheduler_queue \<Rightarrow> intent option" where
  "queue_peek q = (case q of [] \<Rightarrow> None | e # _ \<Rightarrow> Some (ie_intent e))"

text \<open>
  The queue stores each intent under its own submission time, so its content is a multiset of
  intents and its order is an order of intents.
\<close>

definition queue_ok :: "scheduler_queue \<Rightarrow> bool" where
  "queue_ok q = (is_heap entry_le q \<and> (\<forall>e \<in> set q. ie_timestamp e = in_submitted_at (ie_intent e)))"

definition queue_bag :: "scheduler_queue \<Rightarrow> intent multiset" where
  "queue_bag q = image_mset ie_intent (mset q)"

definition intent_le :: "intent \<Rightarrow> intent \<Rightarrow> bool" where
  "intent_le i j = (in_priority i < in_priority j
     \<or> in_priority i = in_priority j \<and> in_submitted_at j \<le> in_submitted_at i)"

lemma entry_le_iff:
  "entry_le a b \<longleftrightarrow> in_priority (ie_intent a) < in_priority (ie_intent b)
     \<or> in_priority (ie_intent a) = in_priority (ie_intent b) \<and> ie_timestamp b \<le> ie_timestamp a"
  by (auto simp: entry_le_def entry_cmp_def cmp_def)

interpretation entries: total_preorder entry_le
  by unfold_locales (auto simp: entry_le_iff)

interpretation intents: priority_queue intent_le queue_push queue_pop queue_ok queue_bag
proof unfold_locales
  fix i j k :: intent and q q' :: scheduler_queue
  show "intent_le i j \<or> intent_le j i" by (auto simp: intent_le_def)
  show "intent_le i j \<Longrightarrow> intent_le j k \<Longrightarrow> intent_le i k" by (auto simp: intent_le_def)
  show "queue_bag (queue_push i q) = add_mset i (queue_bag q)"
    by (simp add: queue_bag_def queue_push_def mset_heap_push)
  show "queue_pop q = None \<longleftrightarrow> queue_bag q = {#}"
    by (simp add: queue_pop_def queue_bag_def heap_pop_None_iff)
  have set_push: "set (heap_push entry_le e q) = insert e (set q)" for e
    using mset_heap_push [of entry_le e q] by (metis set_mset_add_mset_insert set_mset_mset)
  assume ok: "queue_ok q"
  then show "queue_ok (queue_push i q)"
    by (auto simp: queue_ok_def queue_push_def entries.heap_push_heap set_push)
  assume "queue_pop q = Some (i, q')"
  then obtain e where e: "heap_pop entry_le q = Some (e, q')" "i = ie_intent e"
    by (auto simp: queue_pop_def)
  have bag: "mset q = add_mset e (mset q')" by (rule mset_heap_pop [OF e(1)])
  then have set: "set q = insert e (set q')" by (metis set_mset_add_mset_insert set_mset_mset)
  then show "queue_ok q'"
    using ok entries.heap_pop_heap(1) [OF _ e(1)] by (auto simp: queue_ok_def)
  show "queue_bag q = add_mset i (queue_bag q')" using bag e(2) by (simp add: queue_bag_def)
  assume "j \<in># queue_bag q"
  then obtain f where f: "f \<in> set q" "j = ie_intent f" by (auto simp: queue_bag_def)
  then have "entry_le f e" using entries.heap_pop_heap(2) [OF _ e(1)] ok by (simp add: queue_ok_def)
  moreover have "ie_timestamp f = in_submitted_at j" "ie_timestamp e = in_submitted_at i"
    using ok f e(2) set by (auto simp: queue_ok_def)
  ultimately show "intent_le j i" using f(2) e(2) by (simp add: entry_le_iff intent_le_def)
qed

text \<open>The loop \<open>while let Some(intent) = queue.pop()\<close>, collecting what it pops.\<close>

lemma queue_pop_length: "queue_pop q = Some (i, q') \<Longrightarrow> length q = Suc (length q')"
  by (auto simp: queue_pop_def dest!: mset_heap_pop arg_cong [of "mset q" _ size])

function pop_all :: "scheduler_queue \<Rightarrow> intent list \<times> scheduler_queue" where
  "pop_all q =
     (case queue_pop q of
        None \<Rightarrow> ([], q)
      | Some (i, q1) \<Rightarrow> (let (is, q2) = pop_all q1 in (i # is, q2)))"
  by pat_completeness auto
termination
  by (relation "measure length") (auto dest: queue_pop_length)

declare pop_all.simps [simp del]

lemma pop_all_drains: "intents.drains q (fst (pop_all q)) (snd (pop_all q))"
proof (induction q rule: pop_all.induct)
  case (1 q)
  show ?case
  proof (cases "queue_pop q")
    case None
    then show ?thesis by (subst (1 2) pop_all.simps) (simp add: intents.drained)
  next
    case (Some p)
    obtain i q1 where p: "p = (i, q1)" by (cases p)
    then have "fst (pop_all q) = i # fst (pop_all q1)" "snd (pop_all q) = snd (pop_all q1)"
      using Some by (subst pop_all.simps, simp add: case_prod_beta)+
    moreover have "intents.drains q1 (fst (pop_all q1)) (snd (pop_all q1))"
      by (rule "1.IH" [OF Some p [symmetric]])
    ultimately show ?thesis using Some p intents.popped by simp
  qed
qed

lemmas pop_all_spec = intents.drains_spec [OF pop_all_drains]

section \<open>The scheduler\<close>

record agent_scheduler =
  sc_agents :: "(agent_id \<times> agent) list"
  sc_queue :: scheduler_queue
  sc_usage :: "(agent_id \<times> agent_usage) list"
  sc_name_index :: "(string \<times> agent_id) list"

definition scheduler_new :: agent_scheduler where
  "scheduler_new = \<lparr>sc_agents = [], sc_queue = [], sc_usage = [], sc_name_index = []\<rparr>"

record agent_handle =
  ah_id :: string
  ah_name :: string
  ah_description :: string
  ah_created_at_ms :: nat
  ah_state :: agent_state

definition from_agent :: "agent \<Rightarrow> agent_handle" where
  "from_agent a = \<lparr>ah_id = agent_id_str (ag_id a), ah_name = ag_name a, ah_description = ag_description a,
     ah_created_at_ms = ag_created_at_ms a, ah_state = ag_state a\<rparr>"

definition index_name :: "agent \<Rightarrow> (string \<times> agent_id) list \<Rightarrow> (string \<times> agent_id) list" where
  "index_name a index = (if ag_name a = [] then index else AList.update (ag_name a) (ag_id a) index)"

definition register_existing :: "agent \<Rightarrow> agent_scheduler \<Rightarrow> agent_scheduler" where
  "register_existing a s =
     s\<lparr>sc_agents := AList.update (ag_id a) a (sc_agents s), sc_name_index := index_name a (sc_name_index s)\<rparr>"

definition register :: "agent \<Rightarrow> agent_scheduler \<Rightarrow> agent_scheduler \<times> agent_id" where
  "register a s =
     (s\<lparr>sc_agents := AList.update (ag_id a) a (sc_agents s), sc_name_index := index_name a (sc_name_index s)\<rparr>,
      ag_id a)"

definition get_agent :: "agent_scheduler \<Rightarrow> agent_id \<Rightarrow> agent option" where
  "get_agent s aid = map_of (sc_agents s) aid"

definition has_agent :: "agent_scheduler \<Rightarrow> agent_id \<Rightarrow> bool" where
  "has_agent s aid = (map_of (sc_agents s) aid \<noteq> None)"

definition resolve :: "agent_scheduler \<Rightarrow> string \<Rightarrow> agent_id option" where
  "resolve s name_or_id =
     (if has_agent s (AgentId name_or_id) then Some (AgentId name_or_id)
      else map_of (sc_name_index s) name_or_id)"

definition submit :: "intent \<Rightarrow> agent_scheduler \<Rightarrow> agent_scheduler" where
  "submit i s = s\<lparr>sc_queue := queue_push i (sc_queue s)\<rparr>"

definition dequeue :: "agent_scheduler \<Rightarrow> agent_scheduler \<times> intent option" where
  "dequeue s =
     (case queue_pop (sc_queue s) of
        None \<Rightarrow> (s, None)
      | Some (i, q) \<Rightarrow> (s\<lparr>sc_queue := q\<rparr>, Some i))"

definition update_state :: "agent_id \<Rightarrow> agent_state \<Rightarrow> agent_scheduler \<Rightarrow> agent_scheduler \<times> (transition_error + unit)" where
  "update_state aid to s =
     (case get_agent s aid of
        Some a \<Rightarrow> (let (a1, r) = set_state to a in (s\<lparr>sc_agents := AList.update aid a1 (sc_agents s)\<rparr>, r))
      | None \<Rightarrow> (s, Inr ()))"

definition list_agents :: "agent_scheduler \<Rightarrow> agent_handle list" where
  "list_agents s = map (from_agent \<circ> snd) (sc_agents s)"

definition remove_agent :: "agent_id \<Rightarrow> agent_scheduler \<Rightarrow> agent_scheduler" where
  "remove_agent aid s = s\<lparr>sc_agents := AList.delete aid (sc_agents s)\<rparr>"

definition snapshot_agents :: "agent_scheduler \<Rightarrow> agent list" where
  "snapshot_agents s = map snd (sc_agents s)"

fun insert_agent ::
  "agent \<Rightarrow> (agent_id \<times> agent) list \<times> (string \<times> agent_id) list \<Rightarrow> (agent_id \<times> agent) list \<times> (string \<times> agent_id) list" where
  "insert_agent a (m, index) = (AList.update (ag_id a) a m, index_name a index)"

definition restore_agents :: "agent list \<Rightarrow> agent_scheduler \<Rightarrow> agent_scheduler" where
  "restore_agents as s =
     (let (m, index) = fold insert_agent as (sc_agents s, [])
      in s\<lparr>sc_agents := m, sc_name_index := index\<rparr>)"

definition get_resources :: "agent_scheduler \<Rightarrow> agent_id \<Rightarrow> agent_resources option" where
  "get_resources s aid = map_option ag_resources (get_agent s aid)"

definition set_resources :: "agent_id \<Rightarrow> agent_resources \<Rightarrow> agent_scheduler \<Rightarrow> agent_scheduler \<times> bool" where
  "set_resources aid r s =
     (case get_agent s aid of
        Some a \<Rightarrow> (s\<lparr>sc_agents := AList.update aid (a\<lparr>ag_resources := r\<rparr>) (sc_agents s)\<rparr>, True)
      | None \<Rightarrow> (s, False))"

definition get_usage :: "agent_scheduler \<Rightarrow> agent_id \<Rightarrow> agent_usage" where
  "get_usage s aid = (case map_of (sc_usage s) aid of None \<Rightarrow> default_usage | Some u \<Rightarrow> u)"

definition snapshot_usage :: "agent_scheduler \<Rightarrow> (string \<times> agent_usage) list" where
  "snapshot_usage s = map (apfst agent_id_str) (sc_usage s)"

definition restore_usage :: "(string \<times> agent_usage) list \<Rightarrow> agent_scheduler \<Rightarrow> agent_scheduler" where
  "restore_usage data s = s\<lparr>sc_usage := fold (\<lambda>(i, u). AList.update (AgentId i) u) data (sc_usage s)\<rparr>"

definition record_tool_call :: "nat \<Rightarrow> agent_id \<Rightarrow> agent_scheduler \<Rightarrow> agent_scheduler" where
  "record_tool_call now aid s =
     (let u = get_usage s aid
      in s\<lparr>sc_usage := AList.update aid
             (u\<lparr>au_tool_call_count := au_tool_call_count u + 1, au_last_active_ms := now\<rparr>) (sc_usage s)\<rparr>)"

definition record_token_usage :: "nat \<Rightarrow> agent_id \<Rightarrow> 64 word \<Rightarrow> agent_scheduler \<Rightarrow> agent_scheduler" where
  "record_token_usage now aid tokens s =
     (if tokens = 0 then s
      else let u = get_usage s aid
           in s\<lparr>sc_usage := AList.update aid
                  (u\<lparr>au_total_tokens_consumed := au_total_tokens_consumed u + tokens, au_last_active_ms := now\<rparr>)
                  (sc_usage s)\<rparr>)"

definition snapshot_intents :: "agent_scheduler \<Rightarrow> agent_scheduler \<times> intent list" where
  "snapshot_intents s =
     (let (is, q) = pop_all (sc_queue s)
      in (s\<lparr>sc_queue := fold queue_push is q\<rparr>, is))"

definition restore_intents :: "intent list \<Rightarrow> agent_scheduler \<Rightarrow> agent_scheduler" where
  "restore_intents is s = s\<lparr>sc_queue := fold queue_push is (sc_queue s)\<rparr>"

definition pending_intent_count :: "agent_scheduler \<Rightarrow> nat" where
  "pending_intent_count s = length (sc_queue s)"

section \<open>Invariant and lifecycle\<close>

text \<open>
  The registry stores every agent under its own identifier, its maps have distinct keys and the
  queue is a heap.
\<close>

definition agents_ok :: "(agent_id \<times> agent) list \<Rightarrow> bool" where
  "agents_ok m = (distinct (map fst m) \<and> (\<forall>(aid, a) \<in> set m. ag_id a = aid))"

definition scheduler_ok :: "agent_scheduler \<Rightarrow> bool" where
  "scheduler_ok s =
     (agents_ok (sc_agents s)
      \<and> distinct (map fst (sc_usage s)) \<and> distinct (map fst (sc_name_index s))
      \<and> queue_ok (sc_queue s))"

text \<open>The operations the scheduler offers, as steps.\<close>

inductive scheduler_step :: "agent_scheduler \<Rightarrow> agent_scheduler \<Rightarrow> bool" where
  step_register: "scheduler_step s (fst (register a s))"
| step_register_existing: "scheduler_step s (register_existing a s)"
| step_submit: "scheduler_step s (submit i s)"
| step_dequeue: "scheduler_step s (fst (dequeue s))"
| step_update_state: "scheduler_step s (fst (update_state aid to s))"
| step_remove: "scheduler_step s (remove_agent aid s)"
| step_restore_agents: "scheduler_step s (restore_agents as s)"
| step_set_resources: "scheduler_step s (fst (set_resources aid r s))"
| step_restore_usage: "scheduler_step s (restore_usage data s)"
| step_tool_call: "scheduler_step s (record_tool_call now aid s)"
| step_token_usage: "scheduler_step s (record_token_usage now aid tokens s)"
| step_snapshot_intents: "scheduler_step s (fst (snapshot_intents s))"
| step_restore_intents: "scheduler_step s (restore_intents is s)"


lemma alist_update_subset: "set (AList.update k v m) \<subseteq> insert (k, v) (set m)"
  by (induction m) auto

lemma agents_ok_update [simp]: "agents_ok m \<Longrightarrow> ag_id a = aid \<Longrightarrow> agents_ok (AList.update aid a m)"
  using alist_update_subset [of aid a m] by (auto simp: agents_ok_def distinct_update)

lemma agents_ok_delete [simp]: "agents_ok m \<Longrightarrow> agents_ok (AList.delete aid m)"
  by (auto simp: agents_ok_def AList.delete_eq distinct_map_filter)

lemma distinct_index_name [simp]: "distinct (map fst index) \<Longrightarrow> distinct (map fst (index_name a index))"
  by (simp add: index_name_def distinct_update)

lemma restore_agents_fold:
  "agents_ok (fst p) \<Longrightarrow> distinct (map fst (snd p)) \<Longrightarrow>
   agents_ok (fst (fold insert_agent as p)) \<and> distinct (map fst (snd (fold insert_agent as p)))"
  by (induction as arbitrary: p) auto

lemma restore_usage_fold:
  "distinct (map fst m) \<Longrightarrow> distinct (map fst (fold (\<lambda>(i, u). AList.update (AgentId i) u) data m))"
  by (induction data arbitrary: m) (auto simp: distinct_update)

lemma scheduler_ok_new: "scheduler_ok scheduler_new"
  by (simp add: scheduler_ok_def scheduler_new_def queue_ok_def is_heap_def agents_ok_def)

lemma set_state_id [simp]: "ag_id (fst (set_state to a)) = ag_id a"
  by (simp add: set_state_def)

lemma get_agent_id: "scheduler_ok s \<Longrightarrow> get_agent s aid = Some a \<Longrightarrow> ag_id a = aid"
  by (auto simp: scheduler_ok_def agents_ok_def get_agent_def dest!: map_of_SomeD)

lemma scheduler_step_ok:
  assumes "scheduler_step s s'" "scheduler_ok s"
  shows "scheduler_ok s'"
  using assms(1)
proof cases
  case (step_register a)
  then show ?thesis
    using assms(2) by (auto simp: scheduler_ok_def register_def )
next
  case (step_register_existing a)
  then show ?thesis
    using assms(2)
    by (auto simp: scheduler_ok_def register_existing_def )
next
  case (step_submit i)
  then show ?thesis using assms(2) by (simp add: scheduler_ok_def submit_def intents.push_ok)
next
  case step_dequeue
  then show ?thesis
    using assms(2) intents.pop_ok
    by (auto simp: scheduler_ok_def dequeue_def split: option.splits)
next
  case (step_update_state aid to)
  then show ?thesis
    using assms(2) get_agent_id [OF assms(2), of aid]
    by (auto simp: scheduler_ok_def update_state_def  case_prod_beta
        split: option.splits)
next
  case (step_remove aid)
  then show ?thesis
    using assms(2) by (simp add: scheduler_ok_def remove_agent_def )
next
  case (step_restore_agents as)
  then show ?thesis
    using assms(2) restore_agents_fold [of "(sc_agents s, [])" as]
    by (simp add: scheduler_ok_def restore_agents_def case_prod_beta)
next
  case (step_set_resources aid r)
  then show ?thesis
    using assms(2) get_agent_id [OF assms(2), of aid]
    by (auto simp: scheduler_ok_def set_resources_def  split: option.splits)
next
  case (step_restore_usage data)
  then show ?thesis using assms(2) by (simp add: scheduler_ok_def restore_usage_def restore_usage_fold)
next
  case (step_tool_call now aid)
  then show ?thesis using assms(2) by (simp add: scheduler_ok_def record_tool_call_def Let_def distinct_update)
next
  case (step_token_usage now aid tokens)
  then show ?thesis using assms(2) by (simp add: scheduler_ok_def record_token_usage_def Let_def distinct_update)
next
  case step_snapshot_intents
  then show ?thesis
    using assms(2) pop_all_spec(3) [of "sc_queue s"]
    by (simp add: scheduler_ok_def snapshot_intents_def case_prod_beta intents.push_all)
next
  case (step_restore_intents intents)
  then show ?thesis using assms(2) by (simp add: scheduler_ok_def restore_intents_def intents.push_all)
qed

section \<open>Properties\<close>

lemma dequeue_Some:
  assumes "scheduler_ok s" "dequeue s = (s', Some i)"
  shows "queue_bag (sc_queue s) = add_mset i (queue_bag (sc_queue s'))"
    and "j \<in># queue_bag (sc_queue s) \<Longrightarrow> intent_le j i"
    and "scheduler_ok s'"
  using assms intents.pop_bag intents.pop_max intents.pop_ok
  by (auto simp: dequeue_def scheduler_ok_def split: option.splits)

lemma reachable_ok: "scheduler_step\<^sup>*\<^sup>* scheduler_new s \<Longrightarrow> scheduler_ok s"
  by (induction rule: rtranclp_induct) (auto simp: scheduler_ok_new scheduler_step_ok)

text \<open>
  C29: in every state the scheduler can be in, \<open>dequeue\<close> returns nothing exactly when no intent is
  pending; otherwise it takes out exactly one pending intent, and every other pending intent has a
  lower priority, or the same priority and was not submitted before it.
\<close>

theorem dequeue_highest_oldest:
  assumes "scheduler_step\<^sup>*\<^sup>* scheduler_new s"
  shows "case dequeue s of
      (s', None) \<Rightarrow> queue_bag (sc_queue s) = {#} \<and> s' = s
    | (s', Some i) \<Rightarrow> queue_bag (sc_queue s) = add_mset i (queue_bag (sc_queue s'))
        \<and> (\<forall>j \<in># queue_bag (sc_queue s'). in_priority j < in_priority i
             \<or> in_priority j = in_priority i \<and> in_submitted_at i \<le> in_submitted_at j)"
proof (cases "dequeue s")
  case (Pair s' r)
  have ok: "scheduler_ok s" by (rule reachable_ok [OF assms])
  show ?thesis
  proof (cases r)
    case None
    then show ?thesis
      using Pair ok intents.pop_None [of "sc_queue s"]
      by (auto simp: dequeue_def scheduler_ok_def split: option.splits)
  next
    case (Some i)
    then show ?thesis using Pair dequeue_Some [OF ok, of s' i] by (auto simp: intent_le_def)
  qed
qed

text \<open>A scheduler with two agents and three intents of different rank.\<close>

definition demo_agents :: agent_scheduler where
  "demo_agents = fst (register (agent_new ''a2'' 2 ''bob'') (fst (register (agent_new ''a1'' 1 ''ann'') scheduler_new)))"

definition demo_pending :: agent_scheduler where
  "demo_pending =
     submit (intent_new ''i3'' 30 High ''c'') (submit (intent_new ''i2'' 20 High ''b'')
       (submit (intent_new ''i1'' 10 Low ''a'') demo_agents))"

lemma demo_agents_reachable: "scheduler_step\<^sup>*\<^sup>* scheduler_new demo_agents"
  unfolding demo_agents_def by (meson rtranclp.intros step_register)

lemma demo_pending_reachable: "scheduler_step\<^sup>*\<^sup>* scheduler_new demo_pending"
  unfolding demo_pending_def by (meson demo_agents_reachable rtranclp.rtrancl_into_rtrancl step_submit)

theorem dequeue_highest_oldest_witness:
  "snd (dequeue demo_pending) = Some (intent_new ''i2'' 20 High ''b'')
   \<and> queue_bag (sc_queue demo_pending)
      = add_mset (intent_new ''i2'' 20 High ''b'') (queue_bag (sc_queue (fst (dequeue demo_pending))))"
proof -
  have "snd (dequeue demo_pending) = Some (intent_new ''i2'' 20 High ''b'')" by code_simp
  then show ?thesis
    using dequeue_highest_oldest [OF demo_pending_reachable]
    by (auto simp: case_prod_beta split: option.splits)
qed

section \<open>The lifecycle of an agent\<close>

text \<open>Sequences of operations, and those that put an agent into the registry or take it out.\<close>

datatype scheduler_op =
    Register agent | RegisterExisting agent | RestoreAgents "agent list" | Remove agent_id
  | UpdateState agent_id agent_state | SetResources agent_id agent_resources
  | Submit intent | Dequeue | SnapshotIntents | RestoreIntents "intent list"
  | RestoreUsage "(string \<times> agent_usage) list" | ToolCall nat agent_id | TokenUsage nat agent_id "64 word"

fun scheduler_do :: "scheduler_op \<Rightarrow> agent_scheduler \<Rightarrow> agent_scheduler" where
  "scheduler_do (Register a) s = fst (register a s)"
| "scheduler_do (RegisterExisting a) s = register_existing a s"
| "scheduler_do (RestoreAgents as) s = restore_agents as s"
| "scheduler_do (Remove aid) s = remove_agent aid s"
| "scheduler_do (UpdateState aid to) s = fst (update_state aid to s)"
| "scheduler_do (SetResources aid r) s = fst (set_resources aid r s)"
| "scheduler_do (Submit i) s = submit i s"
| "scheduler_do Dequeue s = fst (dequeue s)"
| "scheduler_do SnapshotIntents s = fst (snapshot_intents s)"
| "scheduler_do (RestoreIntents is) s = restore_intents is s"
| "scheduler_do (RestoreUsage data) s = restore_usage data s"
| "scheduler_do (ToolCall now aid) s = record_tool_call now aid s"
| "scheduler_do (TokenUsage now aid tokens) s = record_token_usage now aid tokens s"

fun enters_or_leaves :: "agent_id \<Rightarrow> scheduler_op \<Rightarrow> bool" where
  "enters_or_leaves aid (Register a) = (ag_id a = aid)"
| "enters_or_leaves aid (RegisterExisting a) = (ag_id a = aid)"
| "enters_or_leaves aid (RestoreAgents as) = (\<exists>a \<in> set as. ag_id a = aid)"
| "enters_or_leaves aid (Remove b) = (b = aid)"
| "enters_or_leaves aid _ = False"

text \<open>What no operation on a registered agent changes.\<close>

definition identity :: "agent \<Rightarrow> agent_id \<times> string \<times> string \<times> nat \<times> intent option" where
  "identity a = (ag_id a, ag_name a, ag_description a, ag_created_at_ms a, ag_current_intent a)"

lemma insert_agents_other:
  "\<forall>a \<in> set as. ag_id a \<noteq> aid \<Longrightarrow> map_of (fst (fold insert_agent as p)) aid = map_of (fst p) aid"
  by (induction as arbitrary: p) (auto simp: update_conv')

text \<open>One operation changes nothing of a registered agent but its resources and, along the table, its state.\<close>

lemma scheduler_do_agent:
  assumes "get_agent s aid = Some a" "\<not> enters_or_leaves aid x"
  obtains a' where "get_agent (scheduler_do x s) aid = Some a'"
    "identity a' = identity a"
    "ag_state a' = ag_state a \<or> can_transition (ag_state a) (ag_state a')"
proof (cases x)
  case (UpdateState b to)
  show thesis
  proof (cases "b = aid")
    case True
    then have "get_agent (scheduler_do x s) aid = Some (fst (set_state to a))"
      using UpdateState assms(1) by (simp add: update_state_def get_agent_def case_prod_beta update_conv')
    then show thesis by (rule that) (auto simp: set_state_def identity_def)
  next
    case False
    then have "get_agent (scheduler_do x s) aid = Some a"
      using UpdateState assms(1)
      by (auto simp: update_state_def get_agent_def case_prod_beta update_conv' split: option.splits)
    then show thesis by (rule that) simp_all
  qed
next
  case (SetResources b r)
  then have "get_agent (scheduler_do x s) aid = Some (if b = aid then a\<lparr>ag_resources := r\<rparr> else a)"
    using assms(1) by (auto simp: set_resources_def get_agent_def update_conv' split: option.splits)
  then show thesis by (rule that) (simp_all add: identity_def)
next
  case (RestoreAgents as)
  then have "get_agent (scheduler_do x s) aid = Some a"
    using assms insert_agents_other [of as aid "(sc_agents s, [])"]
    by (auto simp: restore_agents_def get_agent_def case_prod_beta)
  then show thesis by (rule that) simp_all
qed (use assms in \<open>auto intro!: that simp: get_agent_def register_def register_existing_def remove_agent_def submit_def
      dequeue_def snapshot_intents_def restore_intents_def restore_usage_def record_tool_call_def record_token_usage_def
      Let_def case_prod_beta update_conv' delete_conv' split: option.splits\<close>)

lemma terminal_absorbing: "s \<in> {Completed, Failed, Terminated} \<Longrightarrow> \<not> can_transition s to"
  by auto

lemma scheduler_dos_agent:
  assumes "get_agent s aid = Some a" "\<forall>x \<in> set ops. \<not> enters_or_leaves aid x"
  shows "\<exists>a'. get_agent (fold scheduler_do ops s) aid = Some a'
    \<and> identity a' = identity a
    \<and> (ag_state a \<in> {Completed, Failed, Terminated} \<longrightarrow> ag_state a' = ag_state a)
    \<and> (ag_state a' = Created \<longrightarrow> ag_state a = Created)
    \<and> (ag_state a' \<in> {Completed, Failed} \<and> ag_state a' \<noteq> ag_state a \<longrightarrow>
        (\<exists>n b. get_agent (fold scheduler_do (take n ops) s) aid = Some b \<and> ag_state b \<in> {Waiting, Running}))"
  using assms
proof (induction ops arbitrary: s a)
  case (Cons x ops)
  obtain b where b: "get_agent (scheduler_do x s) aid = Some b"
    "identity b = identity a"
    "ag_state b = ag_state a \<or> can_transition (ag_state a) (ag_state b)"
    using scheduler_do_agent [OF Cons.prems(1), of x] Cons.prems(2) by auto
  have rest: "\<forall>x \<in> set ops. \<not> enters_or_leaves aid x" using Cons.prems(2) by simp
  obtain c where c: "get_agent (fold scheduler_do ops (scheduler_do x s)) aid = Some c"
    "identity c = identity b"
    "ag_state b \<in> {Completed, Failed, Terminated} \<longrightarrow> ag_state c = ag_state b"
    "ag_state c = Created \<longrightarrow> ag_state b = Created"
    "ag_state c \<in> {Completed, Failed} \<and> ag_state c \<noteq> ag_state b \<longrightarrow>
        (\<exists>n b'. get_agent (fold scheduler_do (take n ops) (scheduler_do x s)) aid = Some b' \<and> ag_state b' \<in> {Waiting, Running})"
    using Cons.IH [OF b(1) rest] by (elim exE conjE) (rule that)
  have same: "identity c = identity a"
    using b(2) c(2) by simp
  have created: "ag_state b = Created \<Longrightarrow> ag_state a = Created" using b(3) by (cases "ag_state a") auto
  have early: "\<exists>n b'. get_agent (fold scheduler_do (take n (x # ops)) s) aid = Some b' \<and> ag_state b' \<in> {Waiting, Running}"
    if fin: "ag_state c \<in> {Completed, Failed}" "ag_state c \<noteq> ag_state a"
  proof (cases "ag_state c = ag_state b")
    case True
    then have "can_transition (ag_state a) (ag_state c)" using b(3) fin(2) by auto
    then have "ag_state a \<in> {Waiting, Running}" using fin(1) by (cases "ag_state a") auto
    then show ?thesis using Cons.prems(1) by (intro exI [of _ 0] exI [of _ a]) simp
  next
    case False
    then obtain n b' where "get_agent (fold scheduler_do (take n ops) (scheduler_do x s)) aid = Some b'"
      "ag_state b' \<in> {Waiting, Running}" using c(5) fin(1) by blast
    then show ?thesis by (intro exI [of _ "Suc n"] exI [of _ b']) simp
  qed
  have final: "ag_state c = ag_state a" if "ag_state a \<in> {Completed, Failed, Terminated}"
    using that b(3) c(3) terminal_absorbing by metis
  show ?case
  proof (intro exI [of _ c] conjI impI)
    show "get_agent (fold scheduler_do (x # ops) s) aid = Some c" using c(1) by simp
    show "ag_state a = Created" if "ag_state c = Created" using that c(4) created by blast
  qed (use same final early in \<open>blast+\<close>)
qed auto

text \<open>
  C30: the lifecycle of an agent.  Through every sequence of operations of the scheduler that neither
  registers, restores nor removes it, a registered agent stays registered with its identity, name,
  description and intent.  Once completed, failed or terminated it keeps that state, and every further
  change of its state is refused with an error naming both states; it never returns to its created
  state; and it is completed or failed only after it was waiting or running.
\<close>

theorem agent_lifecycle_is_respected:
  assumes "get_agent s aid = Some a" "\<forall>x \<in> set ops. \<not> enters_or_leaves aid x"
  shows "\<exists>a'. get_agent (fold scheduler_do ops s) aid = Some a'
    \<and> identity a' = identity a
    \<and> (ag_state a \<in> {Completed, Failed, Terminated} \<longrightarrow> ag_state a' = ag_state a
        \<and> (\<forall>to. update_state aid to (fold scheduler_do ops s)
              = (fold scheduler_do ops s, Inl \<lparr>te_from = ag_state a, te_to = to\<rparr>)))
    \<and> (ag_state a' = Created \<longrightarrow> ag_state a = Created)
    \<and> (ag_state a' \<in> {Completed, Failed} \<and> ag_state a' \<noteq> ag_state a \<longrightarrow>
        (\<exists>n b. get_agent (fold scheduler_do (take n ops) s) aid = Some b \<and> ag_state b \<in> {Waiting, Running}))"
proof -
  obtain c where c: "get_agent (fold scheduler_do ops s) aid = Some c"
    "identity c = identity a"
    "ag_state a \<in> {Completed, Failed, Terminated} \<longrightarrow> ag_state c = ag_state a"
    "ag_state c = Created \<longrightarrow> ag_state a = Created"
    "ag_state c \<in> {Completed, Failed} \<and> ag_state c \<noteq> ag_state a \<longrightarrow>
        (\<exists>n b. get_agent (fold scheduler_do (take n ops) s) aid = Some b \<and> ag_state b \<in> {Waiting, Running})"
    using scheduler_dos_agent [OF assms] by (elim exE conjE) (rule that)
  have "update_state aid to t = (t, Inl \<lparr>te_from = ag_state c, te_to = to\<rparr>)"
    if "get_agent t aid = Some c" "ag_state c \<in> {Completed, Failed, Terminated}" for to t
  proof -
    have "AList.update aid c (sc_agents t) = sc_agents t"
      using that(1) by (intro update_triv) (simp add: get_agent_def)
    then show ?thesis using that terminal_absorbing [of "ag_state c" to] by (simp add: update_state_def set_state_def)
  qed
  then have "update_state aid to (fold scheduler_do ops s) = (fold scheduler_do ops s, Inl \<lparr>te_from = ag_state a, te_to = to\<rparr>)"
    if "ag_state a \<in> {Completed, Failed, Terminated}" for to
    using that c(1,3) by metis
  then show ?thesis using c by (intro exI [of _ c] conjI impI allI) (assumption | blast)+
qed

definition demo_failed :: agent_scheduler where
  "demo_failed = fold scheduler_do [UpdateState (AgentId ''a1'') Running, UpdateState (AgentId ''a1'') Failed] demo_agents"

theorem agent_lifecycle_is_respected_witness:
  "map_option ag_state (get_agent (fold scheduler_do [UpdateState (AgentId ''a1'') Waiting, Remove (AgentId ''a2'')] demo_failed)
      (AgentId ''a1'')) = Some Failed
   \<and> snd (update_state (AgentId ''a1'') Running
        (fold scheduler_do [UpdateState (AgentId ''a1'') Waiting, Remove (AgentId ''a2'')] demo_failed))
      = Inl \<lparr>te_from = Failed, te_to = Running\<rparr>"
proof -
  have "map_option ag_state (get_agent demo_failed (AgentId ''a1'')) = Some Failed" by code_simp
  then obtain a where a: "get_agent demo_failed (AgentId ''a1'') = Some a" "ag_state a = Failed" by auto
  have "\<forall>x \<in> set [UpdateState (AgentId ''a1'') Waiting, Remove (AgentId ''a2'')]. \<not> enters_or_leaves (AgentId ''a1'') x"
    by simp
  from agent_lifecycle_is_respected [OF a(1) this] a(2) show ?thesis by auto
qed

section \<open>Persistence\<close>

text \<open>The serialised form of an agent leaves out the intent it is working on.\<close>

definition persisted :: "agent \<Rightarrow> agent" where
  "persisted a = a\<lparr>ag_current_intent := None\<rparr>"

lemma insert_agents_lookup:
  "map_of (fst (fold insert_agent as p)) aid =
     (case find (\<lambda>a. ag_id a = aid) (rev as) of Some a \<Rightarrow> Some a | None \<Rightarrow> map_of (fst p) aid)"
  by (induction as arbitrary: p) (auto simp: find_append update_conv' split: option.splits)

lemma insert_agents_name:
  assumes "n \<noteq> []"
  shows "map_of (snd (fold insert_agent as p)) n =
     (case find (\<lambda>a. ag_name a = n) (rev as) of Some a \<Rightarrow> Some (ag_id a) | None \<Rightarrow> map_of (snd p) n)"
  using assms
  by (induction as arbitrary: p) (auto simp: find_append update_conv' index_name_def split: option.splits)

lemma find_rev_unique:
  assumes "x \<in> set xs" "P x" "\<And>y. y \<in> set xs \<Longrightarrow> P y \<Longrightarrow> y = x"
  shows "find P (rev xs) = Some x"
proof (cases "find P (rev xs)")
  case None
  then show ?thesis using assms(1,2) by (auto simp: find_None_iff)
next
  case (Some y)
  then have "y \<in> set xs" "P y" using find_Some_in [of P "rev xs" y] by auto
  then show ?thesis using Some assms(3) by simp
qed

text \<open>
  C34: agents survive a restart.  The agents of a reachable scheduler, written out, read back and
  restored into a new scheduler, are found again under their identifiers with everything but the
  current intent, and no other agent is; an agent that is the only one of its name is found under it.
\<close>

theorem agents_survive_restart:
  assumes "scheduler_step\<^sup>*\<^sup>* scheduler_new s"
  shows "let t = restore_agents (map persisted (snapshot_agents s)) scheduler_new in
    get_agent t aid = map_option persisted (get_agent s aid)
    \<and> (\<forall>a. get_agent s aid = Some a \<and> ag_name a \<noteq> []
          \<and> (\<forall>b \<in> set (snapshot_agents s). ag_name b = ag_name a \<longrightarrow> ag_id b = aid)
        \<longrightarrow> map_of (sc_name_index t) (ag_name a) = Some aid)"
proof -
  have ok: "distinct (map fst (sc_agents s))" "\<And>k a. (k, a) \<in> set (sc_agents s) \<Longrightarrow> ag_id a = k"
    using reachable_ok [OF assms(1)] by (auto simp: scheduler_ok_def agents_ok_def)
  let ?as = "map persisted (snapshot_agents s)"
  define t where "t = restore_agents ?as scheduler_new"
  have mem: "x \<in> set ?as \<longleftrightarrow> (\<exists>k a. (k, a) \<in> set (sc_agents s) \<and> x = persisted a)" for x
    by (force simp: snapshot_agents_def)
  have same: "x = persisted a" if h: "x \<in> set ?as" "ag_id x = k" "(k, a) \<in> set (sc_agents s)" for x k a
  proof -
    obtain k' b where b: "(k', b) \<in> set (sc_agents s)" "x = persisted b"
      using h(1) unfolding mem by blast
    have "k' = k" using b(2) ok(2) [OF b(1)] h(2) by (simp add: persisted_def)
    then have "b = a" using eq_key_imp_eq_value [OF ok(1) b(1)] h(3) by simp
    then show ?thesis using b(2) by simp
  qed
  have t: "sc_agents t = fst (fold insert_agent ?as ([], []))" "sc_name_index t = snd (fold insert_agent ?as ([], []))"
    by (simp_all add: t_def restore_agents_def scheduler_new_def case_prod_beta)
  have "get_agent t aid = map_option persisted (get_agent s aid)"
  proof (cases "get_agent s aid")
    case None
    have "ag_id x \<noteq> aid" if h: "x \<in> set ?as" for x
    proof -
      obtain k a where a: "(k, a) \<in> set (sc_agents s)" "x = persisted a"
        using h unfolding mem by blast
      then have "k \<noteq> aid" using None by (auto simp: get_agent_def map_of_eq_None_iff image_iff)
      then show ?thesis using ok(2) [OF a(1)] a(2) by (simp add: persisted_def)
    qed
    then have "find (\<lambda>a. ag_id a = aid) (rev ?as) = None" unfolding find_None_iff by auto
    then show ?thesis using None by (simp add: get_agent_def t(1) insert_agents_lookup)
  next
    case (Some a)
    then have a: "(aid, a) \<in> set (sc_agents s)" by (simp add: get_agent_def map_of_SomeD)
    have "find (\<lambda>a. ag_id a = aid) (rev ?as) = Some (persisted a)"
    proof (rule find_rev_unique)
      show "persisted a \<in> set ?as" using a unfolding mem by blast
      show "ag_id (persisted a) = aid" using ok(2) [OF a] by (simp add: persisted_def)
      show "y = persisted a" if "y \<in> set ?as" "ag_id y = aid" for y by (rule same [OF that a])
    qed
    then show ?thesis using Some by (simp add: get_agent_def t(1) insert_agents_lookup)
  qed
  moreover have "map_of (sc_name_index t) (ag_name a) = Some aid"
    if a: "get_agent s aid = Some a" "ag_name a \<noteq> []"
      and uniq: "\<forall>b \<in> set (snapshot_agents s). ag_name b = ag_name a \<longrightarrow> ag_id b = aid" for a
  proof -
    have mem_a: "(aid, a) \<in> set (sc_agents s)" using a(1) by (simp add: get_agent_def map_of_SomeD)
    have "find (\<lambda>x. ag_name x = ag_name a) (rev ?as) = Some (persisted a)"
    proof (rule find_rev_unique)
      show "persisted a \<in> set ?as" using mem_a unfolding mem by blast
      show "ag_name (persisted a) = ag_name a" by (simp add: persisted_def)
      fix y assume y: "y \<in> set ?as" "ag_name y = ag_name a"
      then have "ag_id y = aid" using uniq by (auto simp: persisted_def)
      then show "y = persisted a" by (rule same [OF y(1) _ mem_a])
    qed
    then show ?thesis
      using a(2) ok(2) [OF mem_a] by (simp add: t(2) insert_agents_name persisted_def)
  qed
  ultimately show ?thesis unfolding t_def [symmetric] Let_def by blast
qed

theorem agents_survive_restart_witness:
  "let t = restore_agents (map persisted (snapshot_agents demo_agents)) scheduler_new
   in map_option ag_name (get_agent t (AgentId ''a1'')) = Some ''ann'' \<and> resolve t ''bob'' = Some (AgentId ''a2'')"
proof -
  note r = agents_survive_restart [OF demo_agents_reachable]
  have a: "get_agent demo_agents (AgentId ''a1'') = Some (agent_new ''a1'' 1 ''ann'')"
    "get_agent demo_agents (AgentId ''a2'') = Some (agent_new ''a2'' 2 ''bob'')"
    "\<forall>b \<in> set (snapshot_agents demo_agents). ag_name b = ''bob'' \<longrightarrow> ag_id b = AgentId ''a2''"
    "get_agent demo_agents (AgentId ''bob'') = None"
    by code_simp+
  show ?thesis
    using r [of "AgentId ''a1''"] r [of "AgentId ''a2''"] r [of "AgentId ''bob''"] a
    by (simp add: Let_def resolve_def has_agent_def get_agent_def agent_new_def persisted_def)
qed

text \<open>
  C35: pending intents survive a restart.  The snapshot of a reachable scheduler lists exactly the
  pending intents in the order of their dispatch, leaves them pending, and restoring it makes
  exactly them pending.
\<close>

theorem intents_survive_restart:
  assumes "scheduler_step\<^sup>*\<^sup>* scheduler_new s" "snapshot_intents s = (s', intents)"
  shows "mset intents = queue_bag (sc_queue s) \<and> sorted_wrt (\<lambda>i j. intent_le j i) intents
    \<and> s' = s\<lparr>sc_queue := sc_queue s'\<rparr> \<and> queue_bag (sc_queue s') = queue_bag (sc_queue s)
    \<and> queue_bag (sc_queue (restore_intents intents scheduler_new)) = queue_bag (sc_queue s)"
proof -
  have ok: "queue_ok (sc_queue s)" using reachable_ok [OF assms(1)] by (simp add: scheduler_ok_def)
  note spec = pop_all_spec [OF ok]
  have "queue_ok []" by (simp add: queue_ok_def is_heap_def)
  note empty = intents.push_all [OF this]
  have s': "s' = s\<lparr>sc_queue := fold queue_push intents (snd (pop_all (sc_queue s)))\<rparr>"
    and intents: "intents = fst (pop_all (sc_queue s))"
    using assms(2) by (auto simp: snapshot_intents_def case_prod_beta)
  then have "queue_bag (sc_queue s') = mset intents"
    using intents.push_all(2) [OF spec(3)] spec(4) by simp
  moreover have "queue_bag (sc_queue (restore_intents intents scheduler_new)) = mset intents"
    using empty by (simp add: restore_intents_def scheduler_new_def queue_bag_def)
  ultimately show ?thesis using spec(1,2) intents s' by simp
qed

theorem intents_survive_restart_witness:
  "map in_id (snd (snapshot_intents demo_pending)) = [IntentId ''i2'', IntentId ''i3'', IntentId ''i1'']
   \<and> queue_bag (sc_queue (restore_intents (snd (snapshot_intents demo_pending)) scheduler_new))
      = queue_bag (sc_queue demo_pending)"
  using intents_survive_restart [OF demo_pending_reachable prod.collapse [symmetric]]
  by (intro conjI) (code_simp, blast)

section \<open>Where names and identifiers part\<close>

text \<open>A removed agent is still resolved by its name, to an identifier that is no longer registered.\<close>

lemma removed_agent_still_resolves:
  "resolve (remove_agent (AgentId ''a1'') demo_agents) ''ann'' = Some (AgentId ''a1'')
   \<and> \<not> has_agent (remove_agent (AgentId ''a1'') demo_agents) (AgentId ''a1'')"
  by code_simp

text \<open>
  When two agents share a name, the name belongs to the one registered last before a restart, and
  to the one listed last in the snapshot after it.
\<close>

lemma shared_name_changes_owner:
  "let s = register_existing (agent_new ''a1'' 1 ''bob'') demo_agents;
       t = restore_agents (map persisted (snapshot_agents s)) scheduler_new
   in resolve s ''bob'' = Some (AgentId ''a1'') \<and> resolve t ''bob'' = Some (AgentId ''a2'')"
  by code_simp

end
