(* ===== verification/Dispatch_Loop.thy ===== *)
theory Dispatch_Loop
  imports Agent_Scheduler
begin

text \<open>
  The dispatch loop (\<open>src/src/scheduler/dispatch.rs\<close>) as a transition system: the polling task, one
  task per dispatched intent, the per-agent locks that the tasks hold from their first to their last
  action, the bounded channel of results, and clients of the scheduler acting in between.  A step is
  what a task does between two points at which another task can run.  The loop moves one intent at a
  time, and a shutdown ends it at its \<open>select\<close> or, by aborting the task, at any point at which the
  task awaits something: also while it holds an intent that it has taken from the scheduler and waits
  for the lock of its own queue.  A timeout ends the wait for the blocking call, not the call itself,
  so the locks order what the tasks do and not what an executor does after it timed out.
\<close>

section \<open>Results and executors\<close>

record execution_result =
  er_intent_id :: intent_id
  er_agent_id :: "agent_id option"
  er_success :: bool
  er_output :: string
  er_elapsed_ms :: nat

definition execution_success :: "intent_id \<Rightarrow> agent_id option \<Rightarrow> string \<Rightarrow> nat \<Rightarrow> execution_result" where
  "execution_success iid aid output elapsed =
     \<lparr>er_intent_id = iid, er_agent_id = aid, er_success = True, er_output = output, er_elapsed_ms = elapsed\<rparr>"

definition execution_failure :: "intent_id \<Rightarrow> agent_id option \<Rightarrow> string \<Rightarrow> nat \<Rightarrow> execution_result" where
  "execution_failure iid aid output elapsed =
     \<lparr>er_intent_id = iid, er_agent_id = aid, er_success = False, er_output = output, er_elapsed_ms = elapsed\<rparr>"

text \<open>
  An executor is what \<open>execute\<close> may return for an intent, an agent and a time limit; a kernel
  handler works on state of its own, so it need not be a function.
\<close>

type_synonym agent_executor = "intent \<Rightarrow> agent_id option \<Rightarrow> nat \<Rightarrow> string + string \<Rightarrow> bool"

definition local_executor :: agent_executor where
  "local_executor i aid limit r =
     (r = Inr (''[Executed] Intent '' @ [CHR 0x27] @ in_description i @ [CHR 0x27] @ '' completed successfully.''))"

definition kernel_executor :: "(string \<Rightarrow> string option \<Rightarrow> string \<Rightarrow> bool) \<Rightarrow> agent_executor" where
  "kernel_executor handler i aid limit r =
     (case in_action i of
        None \<Rightarrow> r = Inr (''[No action] Intent '' @ [CHR 0x27] @ in_description i @ [CHR 0x27] @ '' acknowledged.'')
      | Some action_json \<Rightarrow> \<not> isl r \<and> handler action_json (map_option agent_id_str aid) (projr r))"

text \<open>How waiting for the blocking call can end; a timeout is possible only under a positive limit.\<close>

datatype exec_outcome = Returned "string + string" | Panicked string | TimedOut

fun outcome_allowed :: "agent_executor \<Rightarrow> intent \<Rightarrow> nat \<Rightarrow> exec_outcome \<Rightarrow> bool" where
  "outcome_allowed ex i limit (Returned r) = ex i (in_agent_id i) limit r"
| "outcome_allowed ex i limit (Panicked e) = True"
| "outcome_allowed ex i limit TimedOut = (0 < limit)"

fun outcome_result :: "nat \<Rightarrow> exec_outcome \<Rightarrow> string + string" where
  "outcome_result limit (Returned r) = r"
| "outcome_result limit (Panicked e) = Inl (''Task panicked: '' @ e)"
| "outcome_result limit TimedOut = Inl (''Timeout after '' @ decimal limit @ ''ms'')"

section \<open>Tasks\<close>

text \<open>Where a task stands; all but the first and the last are inside the lock of its agent.\<close>

datatype task_pc = AwaitLock | HasLock | Started | Executing nat | Sending execution_result | TaskDone

record dispatch_task =
  dt_intent :: intent
  dt_key :: string
  dt_pc :: task_pc

text \<open>
  Where the loop stands: at its \<open>select\<close>; about to dequeue from the scheduler; waiting for the lock of
  the local queue with an intent in hand; waiting for that lock to empty the queue; spawning the tasks
  of the intents it took out; stopped, with the intent it held if it was aborted holding one.
\<close>

datatype loop_pc =
  Selecting | Draining | Pushing intent | Emptying | Spawning "intent list" | Stopped "intent option"

record dispatch_state =
  ds_scheduler :: agent_scheduler
  ds_queue :: scheduler_queue
  ds_locks :: "(string \<times> nat option) list"
  ds_tasks :: "dispatch_task list"
  ds_channel :: "execution_result list"
  ds_receiver_open :: bool
  ds_received :: "execution_result list"
  ds_loop :: loop_pc
  ds_shutdown :: bool

definition spawn_loop :: "agent_scheduler \<Rightarrow> dispatch_state" where
  "spawn_loop s = \<lparr>ds_scheduler = s, ds_queue = [], ds_locks = [], ds_tasks = [], ds_channel = [],
     ds_receiver_open = True, ds_received = [], ds_loop = Selecting, ds_shutdown = False\<rparr>"

definition channel_capacity :: nat where
  "channel_capacity = 100"

definition agent_key :: "intent \<Rightarrow> string" where
  "agent_key i = (case in_agent_id i of Some a \<Rightarrow> agent_id_str a | None \<Rightarrow> ''_anon_'' @ intent_id_str (in_id i))"

definition spawn_task :: "intent \<Rightarrow> dispatch_state \<Rightarrow> dispatch_state" where
  "spawn_task i d =
     (let key = agent_key i
      in d\<lparr>ds_locks := (if map_of (ds_locks d) key = None then AList.update key None (ds_locks d) else ds_locks d),
           ds_tasks := ds_tasks d @ [\<lparr>dt_intent = i, dt_key = key, dt_pc = AwaitLock\<rparr>]\<rparr>)"

text \<open>The body of the loop, up to its next await or spawn.\<close>

definition loop_dequeue :: "dispatch_state \<Rightarrow> dispatch_state" where
  "loop_dequeue d =
     (case dequeue (ds_scheduler d) of
        (s, Some i) \<Rightarrow> d\<lparr>ds_scheduler := s, ds_loop := Pushing i\<rparr>
      | (s, None) \<Rightarrow> d\<lparr>ds_scheduler := s, ds_loop := Emptying\<rparr>)"

definition loop_push :: "intent \<Rightarrow> dispatch_state \<Rightarrow> dispatch_state" where
  "loop_push i d = d\<lparr>ds_queue := queue_push i (ds_queue d), ds_loop := Draining\<rparr>"

definition loop_empty :: "dispatch_state \<Rightarrow> dispatch_state" where
  "loop_empty d = (case pop_all (ds_queue d) of (intents, q) \<Rightarrow> d\<lparr>ds_queue := q, ds_loop := Spawning intents\<rparr>)"

definition loop_next :: "dispatch_state \<Rightarrow> dispatch_state option" where
  "loop_next d =
     (case ds_loop d of
        Selecting \<Rightarrow> Some (d\<lparr>ds_loop := Draining\<rparr>)
      | Draining \<Rightarrow> Some (loop_dequeue d)
      | Pushing i \<Rightarrow> Some (loop_push i d)
      | Emptying \<Rightarrow> Some (loop_empty d)
      | Spawning [] \<Rightarrow> Some (d\<lparr>ds_loop := Selecting\<rparr>)
      | Spawning (i # rest) \<Rightarrow> Some ((spawn_task i d)\<lparr>ds_loop := Spawning rest\<rparr>)
      | Stopped _ \<Rightarrow> None)"

text \<open>Aborting the task takes effect where it awaits, and drops what it holds.\<close>

fun aborted :: "loop_pc \<Rightarrow> loop_pc option" where
  "aborted Selecting = Some (Stopped None)"
| "aborted (Pushing i) = Some (Stopped (Some i))"
| "aborted Emptying = Some (Stopped None)"
| "aborted _ = None"

definition set_pc :: "nat \<Rightarrow> task_pc \<Rightarrow> dispatch_state \<Rightarrow> dispatch_state" where
  "set_pc t pc d = d\<lparr>ds_tasks := (ds_tasks d)[t := (ds_tasks d ! t)\<lparr>dt_pc := pc\<rparr>]\<rparr>"

definition lock_task :: "nat \<Rightarrow> dispatch_state \<Rightarrow> dispatch_state" where
  "lock_task t d =
     (set_pc t HasLock d)\<lparr>ds_locks := AList.update (dt_key (ds_tasks d ! t)) (Some t) (ds_locks d)\<rparr>"

text \<open>Moving the agent to \<open>Running\<close>, or giving up on the intent.\<close>

definition start_task :: "nat \<Rightarrow> nat \<Rightarrow> dispatch_state \<Rightarrow> dispatch_state" where
  "start_task elapsed t d =
     (let i = dt_intent (ds_tasks d ! t)
      in case in_agent_id i of
           None \<Rightarrow> set_pc t Started d
         | Some aid \<Rightarrow>
             (case update_state aid Running (ds_scheduler d) of
                (s, Inl e) \<Rightarrow>
                  (set_pc t (Sending (execution_failure (in_id i) (in_agent_id i)
                     (''Cannot execute: '' @ display_transition_error e) elapsed)) d)\<lparr>ds_scheduler := s\<rparr>
              | (s, Inr _) \<Rightarrow> (set_pc t Started d)\<lparr>ds_scheduler := s\<rparr>))"

definition task_limit :: "nat \<Rightarrow> intent \<Rightarrow> agent_scheduler \<Rightarrow> nat" where
  "task_limit cpu_time_limit_ms i s =
     (case in_agent_id i of
        Some aid \<Rightarrow> (case get_agent s aid of
                       Some a \<Rightarrow> ar_cpu_time_quota (ag_resources a) | None \<Rightarrow> cpu_time_limit_ms)
      | None \<Rightarrow> cpu_time_limit_ms)"

definition execute_task :: "nat \<Rightarrow> nat \<Rightarrow> dispatch_state \<Rightarrow> dispatch_state" where
  "execute_task cpu_time_limit_ms t d =
     set_pc t (Executing (task_limit cpu_time_limit_ms (dt_intent (ds_tasks d ! t)) (ds_scheduler d))) d"

definition finish_task :: "nat \<Rightarrow> nat \<Rightarrow> exec_outcome \<Rightarrow> nat \<Rightarrow> dispatch_state \<Rightarrow> dispatch_state" where
  "finish_task elapsed limit out t d =
     (let i = dt_intent (ds_tasks d ! t);
          r = (case outcome_result limit out of
                 Inr s \<Rightarrow> execution_success (in_id i) (in_agent_id i) s elapsed
               | Inl msg \<Rightarrow> execution_failure (in_id i) (in_agent_id i) msg elapsed);
          d1 = set_pc t (Sending r) d
      in case in_agent_id i of
           Some aid \<Rightarrow> d1\<lparr>ds_scheduler :=
               fst (update_state aid (if er_success r then Waiting else Failed) (ds_scheduler d))\<rparr>
         | None \<Rightarrow> d1)"

text \<open>Sending waits while the channel is full and gives up when the receiver is gone; then the lock is released.\<close>

definition send_enabled :: "dispatch_state \<Rightarrow> bool" where
  "send_enabled d = (ds_receiver_open d \<longrightarrow> length (ds_channel d) < channel_capacity)"

definition send_result :: "execution_result \<Rightarrow> nat \<Rightarrow> dispatch_state \<Rightarrow> dispatch_state" where
  "send_result r t d =
     (set_pc t TaskDone d)\<lparr>ds_locks := AList.update (dt_key (ds_tasks d ! t)) None (ds_locks d),
        ds_channel := (if ds_receiver_open d then ds_channel d @ [r] else ds_channel d)\<rparr>"

definition drain_results :: "dispatch_state \<Rightarrow> dispatch_state" where
  "drain_results d = d\<lparr>ds_received := ds_received d @ ds_channel d, ds_channel := []\<rparr>"

section \<open>Steps\<close>

abbreviation task_at :: "dispatch_state \<Rightarrow> nat \<Rightarrow> task_pc \<Rightarrow> bool" where
  "task_at d t pc \<equiv> t < length (ds_tasks d) \<and> dt_pc (ds_tasks d ! t) = pc"

inductive task_step :: "agent_executor \<Rightarrow> nat \<Rightarrow> dispatch_state \<Rightarrow> dispatch_state \<Rightarrow> bool"
  for ex cpu_time_limit_ms where
  acquire: "task_at d t AwaitLock \<Longrightarrow> map_of (ds_locks d) (dt_key (ds_tasks d ! t)) = Some None \<Longrightarrow>
     task_step ex cpu_time_limit_ms d (lock_task t d)"
| start: "task_at d t HasLock \<Longrightarrow> task_step ex cpu_time_limit_ms d (start_task elapsed t d)"
| execute: "task_at d t Started \<Longrightarrow> task_step ex cpu_time_limit_ms d (execute_task cpu_time_limit_ms t d)"
| finish: "task_at d t (Executing limit) \<Longrightarrow> outcome_allowed ex (dt_intent (ds_tasks d ! t)) limit out \<Longrightarrow>
     task_step ex cpu_time_limit_ms d (finish_task elapsed limit out t d)"
| send: "task_at d t (Sending r) \<Longrightarrow> send_enabled d \<Longrightarrow>
     task_step ex cpu_time_limit_ms d (send_result r t d)"

text \<open>
  A step of the loop: its body, or its end after a shutdown, by the broken \<open>select\<close> or by the abort.
\<close>

inductive loop_step :: "dispatch_state \<Rightarrow> dispatch_state \<Rightarrow> bool" where
  advance: "loop_next d = Some d' \<Longrightarrow> loop_step d d'"
| break: "ds_shutdown d \<Longrightarrow> ds_loop d = Selecting \<Longrightarrow> loop_step d (d\<lparr>ds_loop := Stopped None\<rparr>)"
| abort: "ds_shutdown d \<Longrightarrow> aborted (ds_loop d) = Some pc \<Longrightarrow> loop_step d (d\<lparr>ds_loop := pc\<rparr>)"

text \<open>
  A run of the whole system, with the intents its clients submit.  Clients may use every other
  operation of the scheduler that leaves the pending intents as they are.
\<close>

inductive dispatch_run :: "agent_executor \<Rightarrow> nat \<Rightarrow> dispatch_state \<Rightarrow> intent list \<Rightarrow> dispatch_state \<Rightarrow> bool"
  for ex cpu_time_limit_ms where
  run_nil: "dispatch_run ex cpu_time_limit_ms d [] d"
| run_task: "dispatch_run ex cpu_time_limit_ms d intents d1 \<Longrightarrow> task_step ex cpu_time_limit_ms d1 d2 \<Longrightarrow>
     dispatch_run ex cpu_time_limit_ms d intents d2"
| run_loop: "dispatch_run ex cpu_time_limit_ms d intents d1 \<Longrightarrow> loop_step d1 d2 \<Longrightarrow>
     dispatch_run ex cpu_time_limit_ms d intents d2"
| run_shutdown: "dispatch_run ex cpu_time_limit_ms d intents d1 \<Longrightarrow>
     dispatch_run ex cpu_time_limit_ms d intents (d1\<lparr>ds_shutdown := True\<rparr>)"
| run_drain: "dispatch_run ex cpu_time_limit_ms d intents d1 \<Longrightarrow> ds_receiver_open d1 \<Longrightarrow>
     dispatch_run ex cpu_time_limit_ms d intents (drain_results d1)"
| run_close: "dispatch_run ex cpu_time_limit_ms d intents d1 \<Longrightarrow>
     dispatch_run ex cpu_time_limit_ms d intents (d1\<lparr>ds_receiver_open := False\<rparr>)"
| run_submit: "dispatch_run ex cpu_time_limit_ms d intents d1 \<Longrightarrow>
     dispatch_run ex cpu_time_limit_ms d (intents @ [i]) (d1\<lparr>ds_scheduler := submit i (ds_scheduler d1)\<rparr>)"
| run_client: "dispatch_run ex cpu_time_limit_ms d intents d1 \<Longrightarrow> scheduler_step (ds_scheduler d1) s \<Longrightarrow>
     queue_bag (sc_queue s) = queue_bag (sc_queue (ds_scheduler d1)) \<Longrightarrow>
     dispatch_run ex cpu_time_limit_ms d intents (d1\<lparr>ds_scheduler := s\<rparr>)"

section \<open>The locks\<close>

definition in_lock :: "task_pc \<Rightarrow> bool" where
  "in_lock pc = (pc \<noteq> AwaitLock \<and> pc \<noteq> TaskDone)"

text \<open>Every task has a lock, and holds it exactly while it is inside.\<close>

definition locks_ok :: "(string \<times> nat option) list \<Rightarrow> dispatch_task list \<Rightarrow> bool" where
  "locks_ok locks tasks =
     ((\<forall>t < length tasks. map_of locks (dt_key (tasks ! t)) \<noteq> None
         \<and> (map_of locks (dt_key (tasks ! t)) = Some (Some t) \<longleftrightarrow> in_lock (dt_pc (tasks ! t))))
      \<and> (\<forall>k t. map_of locks k = Some (Some t) \<longrightarrow> t < length tasks \<and> dt_key (tasks ! t) = k))"

lemma locks_okD:
  assumes "locks_ok locks tasks"
  shows "\<And>t. t < length tasks \<Longrightarrow> map_of locks (dt_key (tasks ! t)) \<noteq> None"
    and "\<And>t. t < length tasks \<Longrightarrow> map_of locks (dt_key (tasks ! t)) = Some (Some t) \<longleftrightarrow> in_lock (dt_pc (tasks ! t))"
    and "\<And>k t. map_of locks k = Some (Some t) \<Longrightarrow> t < length tasks \<and> dt_key (tasks ! t) = k"
  using assms by (auto simp: locks_ok_def)

lemma locks_okI:
  assumes "\<And>t. t < length tasks \<Longrightarrow> map_of locks (dt_key (tasks ! t)) \<noteq> None"
    and "\<And>t. t < length tasks \<Longrightarrow> map_of locks (dt_key (tasks ! t)) = Some (Some t) \<longleftrightarrow> in_lock (dt_pc (tasks ! t))"
    and "\<And>k t. map_of locks k = Some (Some t) \<Longrightarrow> t < length tasks \<and> dt_key (tasks ! t) = k"
  shows "locks_ok locks tasks"
  unfolding locks_ok_def using assms by simp

lemma key_set_pc [simp]: "dt_key (tasks[t := (tasks ! t)\<lparr>dt_pc := pc\<rparr>] ! u) = dt_key (tasks ! u)"
  by (cases "u = t"; cases "t < length tasks") (simp_all add: list_update_beyond)

lemma intent_set_pc [simp]: "dt_intent (tasks[t := (tasks ! t)\<lparr>dt_pc := pc\<rparr>] ! u) = dt_intent (tasks ! u)"
  by (cases "u = t"; cases "t < length tasks") (simp_all add: list_update_beyond)

lemma pc_set_pc: "t < length tasks \<Longrightarrow>
    dt_pc (tasks[t := (tasks ! t)\<lparr>dt_pc := pc\<rparr>] ! u) = (if u = t then pc else dt_pc (tasks ! u))"
  by simp

lemma locks_ok_inside:
  assumes "locks_ok locks tasks" "t < length tasks" "in_lock (dt_pc (tasks ! t))" "in_lock pc"
  shows "locks_ok locks (tasks[t := (tasks ! t)\<lparr>dt_pc := pc\<rparr>])"
proof (rule locks_okI)
  fix u assume u: "u < length (tasks[t := (tasks ! t)\<lparr>dt_pc := pc\<rparr>])"
  show "map_of locks (dt_key (tasks[t := (tasks ! t)\<lparr>dt_pc := pc\<rparr>] ! u)) \<noteq> None"
    using u locks_okD(1) [OF assms(1), of u] by simp
  show "map_of locks (dt_key (tasks[t := (tasks ! t)\<lparr>dt_pc := pc\<rparr>] ! u)) = Some (Some u)
      \<longleftrightarrow> in_lock (dt_pc (tasks[t := (tasks ! t)\<lparr>dt_pc := pc\<rparr>] ! u))"
    using u locks_okD(2) [OF assms(1), of u] assms(2-4) by (cases "u = t") (simp_all add: pc_set_pc)
qed (use locks_okD(3) [OF assms(1)] in simp)

text \<open>Giving the lock of task \<open>t\<close> to it or taking it back, when nobody else holds it.\<close>

lemma locks_ok_pass:
  assumes "locks_ok locks tasks" "t < length tasks"
    and "\<And>u. map_of locks (dt_key (tasks ! t)) = Some (Some u) \<Longrightarrow> u = t"
    and "h = (if in_lock pc then Some t else None)"
  shows "locks_ok (AList.update (dt_key (tasks ! t)) h locks) (tasks[t := (tasks ! t)\<lparr>dt_pc := pc\<rparr>])"
proof (rule locks_okI)
  fix u assume u: "u < length (tasks[t := (tasks ! t)\<lparr>dt_pc := pc\<rparr>])"
  show "map_of (AList.update (dt_key (tasks ! t)) h locks) (dt_key (tasks[t := (tasks ! t)\<lparr>dt_pc := pc\<rparr>] ! u)) \<noteq> None"
    using u locks_okD(1) [OF assms(1), of u] by (simp add: update_conv')
  show "map_of (AList.update (dt_key (tasks ! t)) h locks) (dt_key (tasks[t := (tasks ! t)\<lparr>dt_pc := pc\<rparr>] ! u))
        = Some (Some u)
      \<longleftrightarrow> in_lock (dt_pc (tasks[t := (tasks ! t)\<lparr>dt_pc := pc\<rparr>] ! u))"
  proof (cases "u = t")
    case True
    then show ?thesis using assms(2,4) by (simp add: update_conv')
  next
    case False
    then show ?thesis
      using u assms locks_okD(2) [OF assms(1), of u] assms(3) [of u]
      by (cases "dt_key (tasks ! u) = dt_key (tasks ! t)") (auto simp: update_conv' pc_set_pc)
  qed
next
  fix k u assume k: "map_of (AList.update (dt_key (tasks ! t)) h locks) k = Some (Some u)"
  show "u < length (tasks[t := (tasks ! t)\<lparr>dt_pc := pc\<rparr>]) \<and> dt_key (tasks[t := (tasks ! t)\<lparr>dt_pc := pc\<rparr>] ! u) = k"
    using k assms(2,4) locks_okD(3) [OF assms(1), of k u]
    by (cases "k = dt_key (tasks ! t)") (auto simp: update_conv' split: if_splits)
qed

lemma locks_ok_spawn:
  assumes ok: "locks_ok (ds_locks d) (ds_tasks d)"
  shows "locks_ok (ds_locks (spawn_task i d)) (ds_tasks (spawn_task i d))"
proof -
  define n where "n = length (ds_tasks d)"
  define locks where "locks = ds_locks (spawn_task i d)"
  have holder: "map_of locks k = Some (Some u) \<longleftrightarrow> map_of (ds_locks d) k = Some (Some u)" for k u
    by (auto simp: locks_def spawn_task_def Let_def update_conv')
  have keys: "map_of locks (agent_key i) \<noteq> None" "map_of (ds_locks d) k \<noteq> None \<Longrightarrow> map_of locks k \<noteq> None" for k
    by (auto simp: locks_def spawn_task_def Let_def update_conv')
  have tasks: "ds_tasks (spawn_task i d) = ds_tasks d @ [\<lparr>dt_intent = i, dt_key = agent_key i, dt_pc = AwaitLock\<rparr>]"
    by (simp add: spawn_task_def Let_def)
  have bound: "map_of (ds_locks d) k = Some (Some u) \<Longrightarrow> u < n" for k u
    using locks_okD(3) [OF ok] by (simp add: n_def)
  show ?thesis
    unfolding locks_def [symmetric] tasks
  proof (rule locks_okI)
    fix u let ?tasks = "ds_tasks d @ [\<lparr>dt_intent = i, dt_key = agent_key i, dt_pc = AwaitLock\<rparr>]"
    assume u: "u < length ?tasks"
    show "map_of locks (dt_key (?tasks ! u)) \<noteq> None"
      using u keys locks_okD(1) [OF ok, of u] by (cases "u < n") (auto simp: nth_append n_def)
    show "map_of locks (dt_key (?tasks ! u)) = Some (Some u) \<longleftrightarrow> in_lock (dt_pc (?tasks ! u))"
      using u holder bound [of _ u] locks_okD(2) [OF ok, of u]
      by (cases "u < n") (auto simp: nth_append n_def in_lock_def)
  next
    fix k u let ?tasks = "ds_tasks d @ [\<lparr>dt_intent = i, dt_key = agent_key i, dt_pc = AwaitLock\<rparr>]"
    assume "map_of locks k = Some (Some u)"
    then show "u < length ?tasks \<and> dt_key (?tasks ! u) = k"
      using holder locks_okD(3) [OF ok, of k u] by (simp add: nth_append)
  qed
qed

section \<open>The invariant\<close>

text \<open>What a task owes its intent: a result it is about to send names the intent and its agent.\<close>

fun names_intent :: "dispatch_task \<Rightarrow> bool" where
  "names_intent \<lparr>dt_intent = i, dt_key = k, dt_pc = pc\<rparr> =
     (k = agent_key i \<and> (case pc of Sending r \<Rightarrow> (er_intent_id r, er_agent_id r) = (in_id i, in_agent_id i) | _ \<Rightarrow> True))"

definition result_tags :: "execution_result list \<Rightarrow> (intent_id \<times> agent_id option) multiset" where
  "result_tags rs = image_mset (\<lambda>r. (er_intent_id r, er_agent_id r)) (mset rs)"

definition done_tags :: "dispatch_task list \<Rightarrow> (intent_id \<times> agent_id option) multiset" where
  "done_tags tasks = image_mset (\<lambda>t. (in_id (dt_intent t), in_agent_id (dt_intent t)))
     (filter_mset (\<lambda>t. dt_pc t = TaskDone) (mset tasks))"

definition dispatch_ok :: "dispatch_state \<Rightarrow> bool" where
  "dispatch_ok d =
     (scheduler_ok (ds_scheduler d) \<and> queue_ok (ds_queue d) \<and> locks_ok (ds_locks d) (ds_tasks d)
      \<and> list_all names_intent (ds_tasks d)
      \<and> (\<forall>i. ds_loop d = Stopped i \<longrightarrow> ds_shutdown d)
      \<and> (ds_receiver_open d \<longrightarrow> result_tags (ds_received d @ ds_channel d) = done_tags (ds_tasks d)))"

text \<open>The intents in the hands of the loop; when it was aborted, the one it dropped.\<close>

fun loop_hands :: "loop_pc \<Rightarrow> intent list" where
  "loop_hands (Pushing i) = [i]"
| "loop_hands (Spawning intents) = intents"
| "loop_hands (Stopped (Some i)) = [i]"
| "loop_hands _ = []"

text \<open>The intents accounted for: pending, in the local queue, with the loop, or with a task of their own.\<close>

definition known_intents :: "dispatch_state \<Rightarrow> intent multiset" where
  "known_intents d = queue_bag (sc_queue (ds_scheduler d)) + queue_bag (ds_queue d)
     + mset (loop_hands (ds_loop d)) + mset (map dt_intent (ds_tasks d))"

lemma names_intent_iff:
  "names_intent t \<longleftrightarrow> dt_key t = agent_key (dt_intent t)
     \<and> (\<forall>r. dt_pc t = Sending r \<longrightarrow> (er_intent_id r, er_agent_id r) = (in_id (dt_intent t), in_agent_id (dt_intent t)))"
  by (cases t) (auto split: task_pc.splits)

declare names_intent.simps [simp del]

lemma map_intent_set_pc [simp]:
  "map dt_intent (tasks[t := (tasks ! t)\<lparr>dt_pc := pc\<rparr>]) = map dt_intent tasks"
  by (rule nth_equalityI) simp_all

lemma done_tags_set_pc:
  assumes "t < length tasks" "dt_pc (tasks ! t) \<noteq> TaskDone"
  shows "done_tags (tasks[t := (tasks ! t)\<lparr>dt_pc := pc\<rparr>]) =
    (if pc = TaskDone then add_mset (in_id (dt_intent (tasks ! t)), in_agent_id (dt_intent (tasks ! t))) (done_tags tasks)
     else done_tags tasks)"
  using assms by (simp add: done_tags_def mset_update filter_diff_mset)

lemma names_set_pc:
  assumes "list_all names_intent tasks" "t < length tasks"
    and "\<And>r. pc = Sending r \<Longrightarrow> (er_intent_id r, er_agent_id r) = (in_id (dt_intent (tasks ! t)), in_agent_id (dt_intent (tasks ! t)))"
  shows "list_all names_intent (tasks[t := (tasks ! t)\<lparr>dt_pc := pc\<rparr>])"
  using assms by (auto simp: list_all_length names_intent_iff nth_list_update)

lemma set_pc_simps [simp]:
  "ds_tasks (set_pc t pc d) = (ds_tasks d)[t := (ds_tasks d ! t)\<lparr>dt_pc := pc\<rparr>]"
  "ds_scheduler (set_pc t pc d) = ds_scheduler d" "ds_queue (set_pc t pc d) = ds_queue d"
  "ds_locks (set_pc t pc d) = ds_locks d" "ds_channel (set_pc t pc d) = ds_channel d"
  "ds_receiver_open (set_pc t pc d) = ds_receiver_open d" "ds_received (set_pc t pc d) = ds_received d"
  "ds_loop (set_pc t pc d) = ds_loop d" "ds_shutdown (set_pc t pc d) = ds_shutdown d"
  by (simp_all add: set_pc_def)

text \<open>A task moving on inside its lock.\<close>

lemma move_inside:
  assumes "dispatch_ok d" "t < length (ds_tasks d)" "in_lock (dt_pc (ds_tasks d ! t))" "in_lock pc"
    and "\<And>r. pc = Sending r \<Longrightarrow>
      (er_intent_id r, er_agent_id r) = (in_id (dt_intent (ds_tasks d ! t)), in_agent_id (dt_intent (ds_tasks d ! t)))"
    and "scheduler_ok s" "queue_bag (sc_queue s) = queue_bag (sc_queue (ds_scheduler d))"
  shows "dispatch_ok ((set_pc t pc d)\<lparr>ds_scheduler := s\<rparr>)
    \<and> known_intents ((set_pc t pc d)\<lparr>ds_scheduler := s\<rparr>) = known_intents d"
proof -
  have "dt_pc (ds_tasks d ! t) \<noteq> TaskDone" "pc \<noteq> TaskDone" using assms(3,4) by (auto simp: in_lock_def)
  then show ?thesis
    using assms locks_ok_inside names_set_pc
    by (simp add: dispatch_ok_def known_intents_def done_tags_set_pc)
qed

lemma update_state_queue [simp]: "sc_queue (fst (update_state aid to s)) = sc_queue s"
  by (auto simp: update_state_def case_prod_beta split: option.splits)

lemma set_pc_same_scheduler [simp]: "(set_pc t pc d)\<lparr>ds_scheduler := ds_scheduler d\<rparr> = set_pc t pc d"
  by (simp add: set_pc_def)

lemma dispatch_okD:
  assumes "dispatch_ok d"
  shows "scheduler_ok (ds_scheduler d)" "queue_ok (ds_queue d)" "locks_ok (ds_locks d) (ds_tasks d)"
    "list_all names_intent (ds_tasks d)"
    "ds_receiver_open d \<Longrightarrow> result_tags (ds_received d @ ds_channel d) = done_tags (ds_tasks d)"
  using assms by (simp_all add: dispatch_ok_def)

lemma acquire_ok:
  assumes "dispatch_ok d" "task_at d t AwaitLock" "map_of (ds_locks d) (dt_key (ds_tasks d ! t)) = Some None"
  shows "dispatch_ok (lock_task t d) \<and> known_intents (lock_task t d) = known_intents d"
  using assms locks_ok_pass [of "ds_locks d" "ds_tasks d" t "Some t" HasLock]
    names_set_pc [of "ds_tasks d" t HasLock]
  by (simp add: dispatch_ok_def known_intents_def lock_task_def done_tags_set_pc in_lock_def)

lemma start_ok:
  assumes "dispatch_ok d" "task_at d t HasLock"
  shows "dispatch_ok (start_task elapsed t d) \<and> known_intents (start_task elapsed t d) = known_intents d"
proof -
  define i where "i = dt_intent (ds_tasks d ! t)"
  note ok = dispatch_okD(1) [OF assms(1)]
  show ?thesis
  proof (cases "in_agent_id i")
    case None
    then have "start_task elapsed t d = set_pc t Started d"
      by (simp add: start_task_def i_def Let_def)
    then show ?thesis
      using move_inside [OF assms(1), of t Started "ds_scheduler d"] assms(2) ok by (simp add: in_lock_def)
  next
    case (Some aid)
    obtain s r where u: "update_state aid Running (ds_scheduler d) = (s, r)" by fastforce
    then have s: "scheduler_ok s" "sc_queue s = sc_queue (ds_scheduler d)"
      using scheduler_step_ok [OF step_update_state ok, of aid Running]
        update_state_queue [of aid Running "ds_scheduler d"] by simp_all
    define pc where "pc = (case r of Inl e \<Rightarrow> Sending (execution_failure (in_id i) (in_agent_id i)
        (''Cannot execute: '' @ display_transition_error e) elapsed) | Inr _ \<Rightarrow> Started)"
    have "start_task elapsed t d = (set_pc t pc d)\<lparr>ds_scheduler := s\<rparr>"
      using u Some by (cases r) (simp_all add: start_task_def i_def [symmetric] Let_def pc_def)
    moreover have "in_lock pc" by (cases r) (simp_all add: pc_def in_lock_def)
    moreover have "(er_intent_id x, er_agent_id x) = (in_id i, in_agent_id i)" if "pc = Sending x" for x
      using that by (cases r) (auto simp: pc_def execution_failure_def)
    ultimately show ?thesis
      using move_inside [OF assms(1), of t pc s] assms(2) s by (simp add: in_lock_def i_def)
  qed
qed

lemma finish_ok:
  assumes "dispatch_ok d" "task_at d t (Executing limit)"
  shows "dispatch_ok (finish_task elapsed limit out t d)
    \<and> known_intents (finish_task elapsed limit out t d) = known_intents d"
proof -
  define i where "i = dt_intent (ds_tasks d ! t)"
  note ok = dispatch_okD(1) [OF assms(1)]
  define r where "r = (case outcome_result limit out of
      Inr x \<Rightarrow> execution_success (in_id i) (in_agent_id i) x elapsed
    | Inl msg \<Rightarrow> execution_failure (in_id i) (in_agent_id i) msg elapsed)"
  define s where "s = (case in_agent_id i of None \<Rightarrow> ds_scheduler d
    | Some aid \<Rightarrow> fst (update_state aid (if er_success r then Waiting else Failed) (ds_scheduler d)))"
  have "finish_task elapsed limit out t d = (set_pc t (Sending r) d)\<lparr>ds_scheduler := s\<rparr>"
    by (simp add: finish_task_def i_def [symmetric] r_def [symmetric] s_def Let_def split: option.split)
  moreover have "(er_intent_id r, er_agent_id r) = (in_id i, in_agent_id i)"
    by (simp add: r_def execution_success_def execution_failure_def split: sum.split)
  moreover have "scheduler_ok s" "sc_queue s = sc_queue (ds_scheduler d)"
    using ok scheduler_step_ok [OF step_update_state ok] by (simp_all add: s_def split: option.split)
  ultimately show ?thesis
    using move_inside [OF assms(1), of t "Sending r" s] assms(2) by (simp add: in_lock_def i_def)
qed

lemma send_ok:
  assumes "dispatch_ok d" "task_at d t (Sending r)"
  shows "dispatch_ok (send_result r t d) \<and> known_intents (send_result r t d) = known_intents d"
proof -
  have tag: "(er_intent_id r, er_agent_id r) = (in_id (dt_intent (ds_tasks d ! t)), in_agent_id (dt_intent (ds_tasks d ! t)))"
    using dispatch_okD(4) [OF assms(1)] assms(2) by (auto simp: list_all_length names_intent_iff)
  have "map_of (ds_locks d) (dt_key (ds_tasks d ! t)) = Some (Some t)"
    using locks_okD(2) [OF dispatch_okD(3) [OF assms(1)], of t] assms(2) by (simp add: in_lock_def)
  then have "locks_ok (ds_locks (send_result r t d)) (ds_tasks (send_result r t d))"
    unfolding send_result_def
    using assms dispatch_okD(3) [OF assms(1)] locks_ok_pass [of "ds_locks d" "ds_tasks d" t None TaskDone]
    by (simp add: in_lock_def)
  then show ?thesis
    using assms names_set_pc [of "ds_tasks d" t TaskDone] tag
    by (simp add: dispatch_ok_def known_intents_def send_result_def done_tags_set_pc result_tags_def)
qed

lemma task_step_ok:
  assumes "task_step ex lim d d'" "dispatch_ok d"
  shows "dispatch_ok d' \<and> known_intents d' = known_intents d"
  using assms(1)
proof cases
  case (acquire t)
  then show ?thesis using acquire_ok [OF assms(2)] by simp
next
  case (start t elapsed)
  then show ?thesis using start_ok [OF assms(2)] by simp
next
  case (execute t)
  then show ?thesis
    using move_inside [OF assms(2), of t "Executing (task_limit lim (dt_intent (ds_tasks d ! t)) (ds_scheduler d))"
        "ds_scheduler d"] dispatch_okD(1) [OF assms(2)]
    by (simp add: in_lock_def execute_task_def)
next
  case (finish t limit out elapsed)
  then show ?thesis using finish_ok [OF assms(2)] by simp
next
  case (send t r)
  then show ?thesis using send_ok [OF assms(2)] by simp
qed

text \<open>A tick moves every pending intent into a task of its own.\<close>

lemma spawn_task_simps [simp]:
  "ds_tasks (spawn_task i d) = ds_tasks d @ [\<lparr>dt_intent = i, dt_key = agent_key i, dt_pc = AwaitLock\<rparr>]"
  "ds_scheduler (spawn_task i d) = ds_scheduler d" "ds_queue (spawn_task i d) = ds_queue d"
  "ds_channel (spawn_task i d) = ds_channel d" "ds_received (spawn_task i d) = ds_received d"
  "ds_receiver_open (spawn_task i d) = ds_receiver_open d" "ds_loop (spawn_task i d) = ds_loop d"
  "ds_shutdown (spawn_task i d) = ds_shutdown d"
  by (simp_all add: spawn_task_def Let_def)

lemma dispatch_ok_loop:
  "dispatch_ok (d\<lparr>ds_loop := pc\<rparr>) \<longleftrightarrow>
     scheduler_ok (ds_scheduler d) \<and> queue_ok (ds_queue d) \<and> locks_ok (ds_locks d) (ds_tasks d)
      \<and> list_all names_intent (ds_tasks d) \<and> (\<forall>i. pc = Stopped i \<longrightarrow> ds_shutdown d)
      \<and> (ds_receiver_open d \<longrightarrow> result_tags (ds_received d @ ds_channel d) = done_tags (ds_tasks d))"
  by (simp add: dispatch_ok_def)

lemma spawn_ok:
  assumes "dispatch_ok d" "ds_loop d = Spawning (i # rest)"
  shows "dispatch_ok ((spawn_task i d)\<lparr>ds_loop := Spawning rest\<rparr>)
    \<and> known_intents ((spawn_task i d)\<lparr>ds_loop := Spawning rest\<rparr>) = known_intents d"
  using assms locks_ok_spawn [of d i]
  by (simp add: dispatch_ok_loop dispatch_ok_def known_intents_def done_tags_def names_intent_iff)

lemma dequeue_ok:
  assumes "dispatch_ok d" "ds_loop d = Draining"
  shows "dispatch_ok (loop_dequeue d) \<and> known_intents (loop_dequeue d) = known_intents d"
proof (cases "dequeue (ds_scheduler d)")
  case (Pair s r)
  note ok = dispatch_okD(1) [OF assms(1)]
  have s: "scheduler_ok s" using scheduler_step_ok [OF step_dequeue ok] Pair by simp
  show ?thesis
  proof (cases r)
    case None
    then have "s = ds_scheduler d" using Pair by (auto simp: dequeue_def split: option.splits)
    then show ?thesis using Pair None assms by (simp add: loop_dequeue_def dispatch_ok_def known_intents_def)
  next
    case (Some i)
    then have "queue_bag (sc_queue (ds_scheduler d)) = add_mset i (queue_bag (sc_queue s))"
      using dequeue_Some(1) [OF ok] Pair by simp
    then show ?thesis using Pair Some assms s by (simp add: loop_dequeue_def dispatch_ok_def known_intents_def)
  qed
qed

lemma push_ok:
  assumes "dispatch_ok d" "ds_loop d = Pushing i"
  shows "dispatch_ok (loop_push i d) \<and> known_intents (loop_push i d) = known_intents d"
  using assms intents.push_ok [OF dispatch_okD(2) [OF assms(1)]]
  by (simp add: loop_push_def dispatch_ok_def known_intents_def intents.push_bag)

lemma empty_ok:
  assumes "dispatch_ok d" "ds_loop d = Emptying"
  shows "dispatch_ok (loop_empty d) \<and> known_intents (loop_empty d) = known_intents d"
  using assms pop_all_spec [OF dispatch_okD(2) [OF assms(1)]]
  by (simp add: loop_empty_def case_prod_beta dispatch_ok_def known_intents_def)

lemma loop_next_ok:
  assumes "loop_next d = Some d'" "dispatch_ok d"
  shows "dispatch_ok d' \<and> known_intents d' = known_intents d"
proof (cases "ds_loop d")
  case (Spawning intents)
  then show ?thesis
    using assms spawn_ok [OF assms(2)]
    by (cases intents) (auto simp: loop_next_def dispatch_ok_def known_intents_def)
qed (use assms dequeue_ok push_ok empty_ok in \<open>auto simp: loop_next_def dispatch_ok_def known_intents_def\<close>)

lemma loop_step_ok:
  assumes "loop_step d d'" "dispatch_ok d"
  shows "dispatch_ok d' \<and> known_intents d' = known_intents d"
  using assms(1)
proof cases
  case advance
  then show ?thesis using loop_next_ok assms(2) by simp
next
  case break
  then show ?thesis using assms(2) by (simp add: dispatch_ok_def known_intents_def)
next
  case (abort pc)
  then show ?thesis using assms(2) by (cases "ds_loop d") (auto simp: dispatch_ok_def known_intents_def)
qed

lemma dispatch_run_ok:
  assumes "dispatch_run ex lim d0 submitted d" "dispatch_ok d0"
  shows "dispatch_ok d \<and> known_intents d = known_intents d0 + mset submitted"
  using assms
proof (induction rule: dispatch_run.induct)
  case (run_task d intents d1 d2)
  then show ?case using task_step_ok [OF run_task.hyps(2)] by simp
next
  case (run_loop d intents d1 d2)
  then show ?case using loop_step_ok [OF run_loop.hyps(2)] by simp
next
  case (run_submit d intents d1 i)
  then show ?case
    using intents.push_ok intents.push_bag
    by (auto simp: dispatch_ok_def known_intents_def submit_def scheduler_ok_def)
next
  case (run_client d intents d1 s)
  then show ?case
    using scheduler_step_ok [OF run_client.hyps(2)] by (simp add: dispatch_ok_def known_intents_def)
qed (simp_all add: dispatch_ok_def known_intents_def drain_results_def result_tags_def)

lemma spawn_loop_ok: "scheduler_ok s \<Longrightarrow> dispatch_ok (spawn_loop s)"
  by (simp add: dispatch_ok_def spawn_loop_def queue_ok_def is_heap_def locks_ok_def result_tags_def done_tags_def)

section \<open>A round of the loop\<close>

text \<open>The loop on its own, for a number of steps.\<close>

fun loop_steps :: "nat \<Rightarrow> dispatch_state \<Rightarrow> dispatch_state option" where
  "loop_steps 0 d = Some d"
| "loop_steps (Suc n) d = Option.bind (loop_next d) (loop_steps n)"

lemma loop_steps_add: "loop_steps m d = Some d1 \<Longrightarrow> loop_steps n d1 = Some d2 \<Longrightarrow> loop_steps (m + n) d = Some d2"
  by (induction m arbitrary: d) (auto simp: bind_eq_Some_conv)

lemma loop_steps_run:
  "loop_steps n d1 = Some d2 \<Longrightarrow> dispatch_run ex lim d intents d1 \<Longrightarrow> dispatch_run ex lim d intents d2"
proof (induction n arbitrary: d1)
  case (Suc n)
  then obtain e where e: "loop_next d1 = Some e" "loop_steps n e = Some d2" by (auto simp: bind_eq_Some_conv)
  show ?case by (rule Suc.IH [OF e(2) run_loop [OF Suc.prems(2) advance [OF e(1)]]])
qed simp

definition new_task :: "intent \<Rightarrow> dispatch_task" where
  "new_task i = \<lparr>dt_intent = i, dt_key = agent_key i, dt_pc = AwaitLock\<rparr>"

lemma drain_phase:
  assumes "ds_loop d = Draining"
  shows "\<exists>n. loop_steps n d = Some (d\<lparr>ds_scheduler := (ds_scheduler d)\<lparr>sc_queue := snd (pop_all (sc_queue (ds_scheduler d)))\<rparr>,
     ds_queue := fold queue_push (fst (pop_all (sc_queue (ds_scheduler d)))) (ds_queue d), ds_loop := Emptying\<rparr>)"
  using assms
proof (induction "sc_queue (ds_scheduler d)" arbitrary: d rule: pop_all.induct)
  case 1
  let ?q = "sc_queue (ds_scheduler d)"
  show ?case
  proof (cases "queue_pop ?q")
    case None
    then have "pop_all ?q = ([], ?q)" by (subst pop_all.simps) simp
    then show ?thesis
      using None 1(2) by (intro exI [of _ 1]) (simp add: loop_next_def loop_dequeue_def dequeue_def)
  next
    case (Some p)
    obtain i q where p: "p = (i, q)" by (cases p)
    define e where "e = d\<lparr>ds_scheduler := (ds_scheduler d)\<lparr>sc_queue := q\<rparr>, ds_queue := queue_push i (ds_queue d)\<rparr>"
    have steps: "loop_steps 2 d = Some e"
      using Some p 1(2)
      by (simp add: numeral_2_eq_2 loop_next_def loop_dequeue_def dequeue_def loop_push_def e_def)
    have "pop_all ?q = (i # fst (pop_all q), snd (pop_all q))"
      using Some p by (subst pop_all.simps) (simp add: case_prod_beta)
    moreover have e: "(i, sc_queue (ds_scheduler e)) = p" "ds_loop e = Draining" using p 1(2) by (simp_all add: e_def)
    moreover have q: "sc_queue (ds_scheduler e) = q" by (simp add: e_def)
    moreover obtain n where "loop_steps n e = Some (e\<lparr>ds_scheduler := (ds_scheduler e)\<lparr>sc_queue := snd (pop_all q)\<rparr>,
        ds_queue := fold queue_push (fst (pop_all q)) (ds_queue e), ds_loop := Emptying\<rparr>)"
      using 1(1) [OF Some e] unfolding q by blast
    ultimately show ?thesis
      using loop_steps_add [OF steps] by (intro exI [of _ "2 + n"]) (simp add: e_def)
  qed
qed

lemma spawn_phase:
  assumes "ds_loop d = Spawning intents"
  shows "\<exists>n d'. loop_steps n d = Some d' \<and> ds_loop d' = Selecting \<and> ds_scheduler d' = ds_scheduler d
    \<and> ds_queue d' = ds_queue d \<and> ds_tasks d' = ds_tasks d @ map new_task intents"
  using assms
proof (induction intents arbitrary: d)
  case Nil
  then show ?case by (intro exI [of _ 1] exI [of _ "d\<lparr>ds_loop := Selecting\<rparr>"]) (simp add: loop_next_def)
next
  case (Cons i rest)
  let ?e = "(spawn_task i d)\<lparr>ds_loop := Spawning rest\<rparr>"
  obtain n d' where "loop_steps n ?e = Some d'" "ds_loop d' = Selecting" "ds_scheduler d' = ds_scheduler ?e"
    "ds_queue d' = ds_queue ?e" "ds_tasks d' = ds_tasks ?e @ map new_task rest"
    using Cons.IH [of ?e] by auto
  then show ?case
    using Cons.prems by (intro exI [of _ "Suc n"] exI [of _ d']) (simp add: loop_next_def new_task_def)
qed

section \<open>Properties\<close>

text \<open>
  C31: tasks of one agent are serialised.  In every interleaving of the polling loop, the tasks and
  the clients of the scheduler, two different tasks for the same agent are never both between
  acquiring and releasing the lock of that agent.
\<close>

theorem agent_tasks_are_serialised:
  assumes "scheduler_step\<^sup>*\<^sup>* scheduler_new s" "dispatch_run ex cpu_time_limit_ms (spawn_loop s) submitted d"
    and "t < length (ds_tasks d)" "u < length (ds_tasks d)"
    and "in_agent_id (dt_intent (ds_tasks d ! t)) = Some aid" "in_agent_id (dt_intent (ds_tasks d ! u)) = Some aid"
    and "in_lock (dt_pc (ds_tasks d ! t))" "in_lock (dt_pc (ds_tasks d ! u))"
  shows "t = u"
proof -
  have ok: "dispatch_ok d"
    using dispatch_run_ok [OF assms(2) spawn_loop_ok [OF reachable_ok [OF assms(1)]]] by simp
  have "dt_key (ds_tasks d ! t) = dt_key (ds_tasks d ! u)"
    using dispatch_okD(4) [OF ok] assms(3-6) by (simp add: list_all_length names_intent_iff agent_key_def)
  then show ?thesis
    using locks_okD(2) [OF dispatch_okD(3) [OF ok] assms(3)] locks_okD(2) [OF dispatch_okD(3) [OF ok] assms(4)]
      assms(7,8) by simp
qed

text \<open>Two intents for one agent; the first has taken the agent's lock and been started.\<close>

definition demo_submitted :: agent_scheduler where
  "demo_submitted =
     submit (with_agent (AgentId ''a1'') (intent_new ''i2'' 20 High ''b''))
       (submit (with_agent (AgentId ''a1'') (intent_new ''i1'' 10 Low ''a'')) demo_agents)"

definition demo_polled :: dispatch_state where
  "demo_polled = the (loop_steps 10 (spawn_loop demo_submitted))"

definition demo_started :: dispatch_state where
  "demo_started = start_task 0 0 (lock_task 0 demo_polled)"

lemma demo_submitted_reachable: "scheduler_step\<^sup>*\<^sup>* scheduler_new demo_submitted"
  unfolding demo_submitted_def by (meson demo_agents_reachable rtranclp.rtrancl_into_rtrancl step_submit)

lemma demo_started_run: "dispatch_run local_executor 0 (spawn_loop demo_submitted) [] demo_started"
proof -
  have "loop_steps 10 (spawn_loop demo_submitted) \<noteq> None" by code_simp
  then have "loop_steps 10 (spawn_loop demo_submitted) = Some demo_polled" by (auto simp: demo_polled_def)
  then have poll: "dispatch_run local_executor 0 (spawn_loop demo_submitted) [] demo_polled"
    by (rule loop_steps_run [OF _ run_nil])
  have "task_at demo_polled 0 AwaitLock" "map_of (ds_locks demo_polled) (dt_key (ds_tasks demo_polled ! 0)) = Some None"
    by code_simp+
  then have lock: "dispatch_run local_executor 0 (spawn_loop demo_submitted) [] (lock_task 0 demo_polled)"
    by (rule run_task [OF poll acquire])
  have "task_at (lock_task 0 demo_polled) 0 HasLock" by code_simp
  then show ?thesis unfolding demo_started_def by (rule run_task [OF lock start])
qed

theorem agent_tasks_are_serialised_witness:
  "length (ds_tasks demo_started) = 2 \<and> dt_pc (ds_tasks demo_started ! 0) = Started
   \<and> \<not> in_lock (dt_pc (ds_tasks demo_started ! 1))"
proof -
  have d: "length (ds_tasks demo_started) = 2" "dt_pc (ds_tasks demo_started ! 0) = Started"
    "in_agent_id (dt_intent (ds_tasks demo_started ! 0)) = Some (AgentId ''a1'')"
    "in_agent_id (dt_intent (ds_tasks demo_started ! 1)) = Some (AgentId ''a1'')"
    by code_simp+
  then show ?thesis
    using agent_tasks_are_serialised [OF demo_submitted_reachable demo_started_run, of 0 1 "AgentId ''a1''"]
    by (auto simp: in_lock_def)
qed



text \<open>
  C33: a round of the loop dispatches everything that is pending.  Whenever the loop is at its
  \<open>select\<close> and is left alone for one tick, it comes back to the \<open>select\<close> after finitely many steps;
  then nothing is pending in the scheduler or in the local queue, and every intent that was pending
  has a new task, the tasks spawned in the order of priority and age.
\<close>

theorem round_dispatches_pending:
  assumes "scheduler_step\<^sup>*\<^sup>* scheduler_new s" "dispatch_run ex cpu_time_limit_ms (spawn_loop s) submitted d"
    and "ds_loop d = Selecting"
  shows "\<exists>n d' intents. loop_steps n d = Some d' \<and> ds_loop d' = Selecting
    \<and> queue_bag (sc_queue (ds_scheduler d')) = {#} \<and> queue_bag (ds_queue d') = {#}
    \<and> ds_tasks d' = ds_tasks d @ map (\<lambda>i. \<lparr>dt_intent = i, dt_key = agent_key i, dt_pc = AwaitLock\<rparr>) intents
    \<and> mset intents = queue_bag (sc_queue (ds_scheduler d)) + queue_bag (ds_queue d)
    \<and> sorted_wrt (\<lambda>i j. in_priority j < in_priority i
        \<or> in_priority j = in_priority i \<and> in_submitted_at i \<le> in_submitted_at j) intents"
proof -
  have ok: "dispatch_ok d"
    using dispatch_run_ok [OF assms(2) spawn_loop_ok [OF reachable_ok [OF assms(1)]]] by simp
  define drained q where "drained = fst (pop_all (sc_queue (ds_scheduler d)))" and "q = snd (pop_all (sc_queue (ds_scheduler d)))"
  define mid where "mid = fold queue_push drained (ds_queue d)"
  define intents rest where "intents = fst (pop_all mid)" and "rest = snd (pop_all mid)"
  have "queue_ok (sc_queue (ds_scheduler d))" using dispatch_okD(1) [OF ok] by (simp add: scheduler_ok_def)
  note q = pop_all_spec [OF this, folded drained_def q_def]
  have mid: "queue_ok mid" "queue_bag mid = queue_bag (ds_queue d) + mset drained"
    unfolding mid_def using intents.push_all [OF dispatch_okD(2) [OF ok]] by auto
  note rest = pop_all_spec [OF mid(1), folded intents_def rest_def]
  let ?d1 = "d\<lparr>ds_loop := Draining\<rparr>"
  let ?d2 = "?d1\<lparr>ds_scheduler := (ds_scheduler d)\<lparr>sc_queue := q\<rparr>, ds_queue := mid, ds_loop := Emptying\<rparr>"
  let ?d3 = "?d2\<lparr>ds_queue := rest, ds_loop := Spawning intents\<rparr>"
  have tick: "loop_steps 1 d = Some ?d1" using assms(3) by (simp add: loop_next_def)
  obtain n where drain: "loop_steps n ?d1 = Some ?d2"
    using drain_phase [of ?d1] by (auto simp: drained_def [symmetric] q_def [symmetric] mid_def [symmetric])
  have empty: "loop_steps 1 ?d2 = Some ?d3"
    by (simp add: loop_next_def loop_empty_def case_prod_beta intents_def rest_def)
  obtain m d' where spawn: "loop_steps m ?d3 = Some d'" "ds_loop d' = Selecting" "ds_scheduler d' = ds_scheduler ?d3"
    "ds_queue d' = ds_queue ?d3" "ds_tasks d' = ds_tasks ?d3 @ map new_task intents"
    using spawn_phase [of ?d3 intents] by auto
  have steps: "loop_steps (1 + n + 1 + m) d = Some d'"
    by (rule loop_steps_add [OF loop_steps_add [OF loop_steps_add [OF tick drain] empty] spawn(1)])
  have "sorted_wrt (\<lambda>i j. in_priority j < in_priority i
        \<or> in_priority j = in_priority i \<and> in_submitted_at i \<le> in_submitted_at j) intents"
    using rest(2) by (simp add: intent_le_def)
  moreover have "mset intents = queue_bag (sc_queue (ds_scheduler d)) + queue_bag (ds_queue d)"
    using rest(1) mid(2) q(1) by simp
  moreover have "new_task = (\<lambda>i. \<lparr>dt_intent = i, dt_key = agent_key i, dt_pc = AwaitLock\<rparr>)"
    by (rule ext) (simp add: new_task_def)
  ultimately show ?thesis
    using steps spawn(2-) q(4) rest(4) by (intro exI [of _ "1 + n + 1 + m"] exI [of _ d'] exI [of _ intents]) simp
qed

theorem round_dispatches_pending_witness:
  "\<exists>n d' intents. loop_steps n (spawn_loop demo_submitted) = Some d' \<and> queue_bag (sc_queue (ds_scheduler d')) = {#}
     \<and> map dt_intent (ds_tasks d') = intents \<and> mset intents = queue_bag (sc_queue demo_submitted)"
proof -
  have "ds_loop (spawn_loop demo_submitted) = Selecting" "ds_queue (spawn_loop demo_submitted) = []"
    "ds_scheduler (spawn_loop demo_submitted) = demo_submitted" "ds_tasks (spawn_loop demo_submitted) = []"
    by (simp_all add: spawn_loop_def)
  with round_dispatches_pending [OF demo_submitted_reachable run_nil]
  show ?thesis by (fastforce simp: queue_bag_def comp_def)
qed

section \<open>Where a shutdown loses an intent\<close>

text \<open>A shutdown while the loop waits for the lock of its queue drops the intent in its hands.\<close>

lemma shutdown_drops_intent:
  "\<exists>d i. dispatch_run local_executor 0 (spawn_loop demo_submitted) [] d \<and> ds_loop d = Stopped (Some i)
     \<and> in_id i = IntentId ''i2'' \<and> ds_tasks d = [] \<and> ds_queue d = []
     \<and> i \<notin># queue_bag (sc_queue (ds_scheduler d))"
proof -
  define e where "e = the (loop_steps 2 (spawn_loop demo_submitted))"
  define i where "i = with_agent (AgentId ''a1'') (intent_new ''i2'' 20 High ''b'')"
  have "loop_steps 2 (spawn_loop demo_submitted) \<noteq> None" by code_simp
  then have "loop_steps 2 (spawn_loop demo_submitted) = Some e" by (auto simp: e_def)
  from loop_steps_run [OF this run_nil]
  have run: "dispatch_run local_executor 0 (spawn_loop demo_submitted) [] (e\<lparr>ds_shutdown := True\<rparr>)" by (rule run_shutdown)
  have "ds_loop e = Pushing i" unfolding e_def i_def by code_simp
  moreover have "ds_tasks e = []" "ds_queue e = []" "i \<notin> ie_intent ` set (sc_queue (ds_scheduler e))"
    unfolding e_def i_def by code_simp+
  moreover have "in_id i = IntentId ''i2''" unfolding i_def by code_simp
  ultimately show ?thesis
    using run_loop [OF run abort, of "Stopped (Some i)"]
    by (intro exI [of _ "e\<lparr>ds_shutdown := True, ds_loop := Stopped (Some i)\<rparr>"] exI [of _ i]) (auto simp: queue_bag_def)
qed

end
