(* ===== verification/Message_Bus.thy ===== *)
theory Message_Bus
  imports Plico_Prelude "HOL-Library.AList"
begin

text \<open>
  The mailboxes of agents (\<open>src/src/scheduler/messaging.rs\<close>): a bounded box per agent that drops
  its oldest message when it is full.  The payload is a JSON value the bus never looks at and is a
  type parameter; the message identifier and the clock reading are arguments of \<open>send\<close>.
\<close>

section \<open>The operations\<close>

record 'p agent_message =
  ms_id :: string
  ms_from :: string
  ms_to :: string
  ms_payload :: 'p
  ms_timestamp_ms :: nat
  ms_read :: bool

record 'p mailbox =
  mb_messages :: "'p agent_message list"
  mb_capacity :: nat

definition mailbox_new :: "nat \<Rightarrow> 'p mailbox" where
  "mailbox_new capacity = \<lparr>mb_messages = [], mb_capacity = capacity\<rparr>"

text \<open>\<open>Vec::remove(0)\<close> panics on an empty vector, which only a capacity of zero can produce.\<close>

definition mailbox_push :: "'p agent_message \<Rightarrow> 'p mailbox \<Rightarrow> 'p mailbox option" where
  "mailbox_push msg mb =
     (if mb_capacity mb \<le> length (mb_messages mb)
      then (case mb_messages mb of
              [] \<Rightarrow> None
            | _ # ms \<Rightarrow> Some (mb\<lparr>mb_messages := ms @ [msg]\<rparr>))
      else Some (mb\<lparr>mb_messages := mb_messages mb @ [msg]\<rparr>))"

definition read_all :: "bool \<Rightarrow> 'p mailbox \<Rightarrow> 'p agent_message list" where
  "read_all unread_only mb =
     (if unread_only then filter (\<lambda>m. \<not> ms_read m) (mb_messages mb) else mb_messages mb)"

fun ack_first :: "string \<Rightarrow> 'p agent_message list \<Rightarrow> 'p agent_message list option" where
  "ack_first message_id [] = None"
| "ack_first message_id (m # ms) =
     (if ms_id m = message_id then Some (m\<lparr>ms_read := True\<rparr> # ms)
      else map_option (Cons m) (ack_first message_id ms))"

definition mailbox_ack :: "string \<Rightarrow> 'p mailbox \<Rightarrow> 'p mailbox \<times> bool" where
  "mailbox_ack message_id mb =
     (case ack_first message_id (mb_messages mb) of
        Some ms \<Rightarrow> (mb\<lparr>mb_messages := ms\<rparr>, True)
      | None \<Rightarrow> (mb, False))"

record 'p message_bus =
  bus_mailboxes :: "(string \<times> 'p mailbox) list"
  bus_default_capacity :: nat

definition bus_new :: "'p message_bus" where
  "bus_new = \<lparr>bus_mailboxes = [], bus_default_capacity = 100\<rparr>"

definition bus_send :: "string \<Rightarrow> nat \<Rightarrow> string \<Rightarrow> string \<Rightarrow> 'p \<Rightarrow> 'p message_bus \<Rightarrow> ('p message_bus \<times> string) option" where
  "bus_send msg_id now sender receiver payload b =
     (let msg = \<lparr>ms_id = msg_id, ms_from = sender, ms_to = receiver, ms_payload = payload,
                 ms_timestamp_ms = now, ms_read = False\<rparr>;
          mb = (case map_of (bus_mailboxes b) receiver of
                  None \<Rightarrow> mailbox_new (bus_default_capacity b) | Some mb \<Rightarrow> mb)
      in map_option (\<lambda>mb'. (b\<lparr>bus_mailboxes := AList.update receiver mb' (bus_mailboxes b)\<rparr>, msg_id))
           (mailbox_push msg mb))"

definition bus_read :: "'p message_bus \<Rightarrow> string \<Rightarrow> bool \<Rightarrow> 'p agent_message list" where
  "bus_read b agent_id unread_only =
     (case map_of (bus_mailboxes b) agent_id of None \<Rightarrow> [] | Some mb \<Rightarrow> read_all unread_only mb)"

definition bus_ack :: "string \<Rightarrow> string \<Rightarrow> 'p message_bus \<Rightarrow> 'p message_bus \<times> bool" where
  "bus_ack agent_id message_id b =
     (case map_of (bus_mailboxes b) agent_id of
        None \<Rightarrow> (b, False)
      | Some mb \<Rightarrow> (let (mb', r) = mailbox_ack message_id mb
                    in (b\<lparr>bus_mailboxes := AList.update agent_id mb' (bus_mailboxes b)\<rparr>, r)))"

definition message_count :: "'p message_bus \<Rightarrow> string \<Rightarrow> nat" where
  "message_count b agent_id =
     (case map_of (bus_mailboxes b) agent_id of None \<Rightarrow> 0 | Some mb \<Rightarrow> length (mb_messages mb))"

section \<open>Runs of the bus\<close>

text \<open>
  A run is a sequence of sends and acknowledgements.  The specification of a mailbox keeps the
  whole history of the messages sent to an agent, with the marks set so far, and shows its last
  hundred messages; an acknowledgement marks the oldest visible message of that identifier.
\<close>

datatype 'p bus_op = Send string nat string string 'p | Ack string string

fun bus_do :: "'p bus_op \<Rightarrow> 'p message_bus \<Rightarrow> 'p message_bus option" where
  "bus_do (Send msg_id now sender receiver payload) b = map_option fst (bus_send msg_id now sender receiver payload b)"
| "bus_do (Ack agent_id message_id) b = Some (fst (bus_ack agent_id message_id b))"

fun bus_run :: "'p bus_op list \<Rightarrow> 'p message_bus \<Rightarrow> 'p message_bus option" where
  "bus_run [] b = Some b"
| "bus_run (x # xs) b = Option.bind (bus_do x b) (bus_run xs)"

fun history_do :: "string \<Rightarrow> 'p bus_op \<Rightarrow> 'p agent_message list \<Rightarrow> 'p agent_message list" where
  "history_do agent_id (Send msg_id now sender receiver payload) h =
     (if receiver = agent_id
      then h @ [\<lparr>ms_id = msg_id, ms_from = sender, ms_to = receiver, ms_payload = payload,
                  ms_timestamp_ms = now, ms_read = False\<rparr>]
      else h)"
| "history_do agent_id (Ack reader message_id) h =
     (if reader = agent_id
      then take (length h - 100) h
           @ (case ack_first message_id (window 100 h) of None \<Rightarrow> window 100 h | Some ms \<Rightarrow> ms)
      else h)"

definition bus_messages :: "'p message_bus \<Rightarrow> string \<Rightarrow> 'p agent_message list" where
  "bus_messages b agent_id = bus_read b agent_id False"

lemma ack_first_length: "ack_first i ms = Some ms' \<Longrightarrow> length ms' = length ms"
  by (induction ms arbitrary: ms') (auto split: if_splits)

text \<open>Every mailbox has the default capacity, which is positive, and holds the window of the history.\<close>

definition bus_shows :: "'p message_bus \<Rightarrow> (string \<Rightarrow> 'p agent_message list) \<Rightarrow> bool" where
  "bus_shows b h = (bus_default_capacity b = 100 \<and>
     (\<forall>agent_id. case map_of (bus_mailboxes b) agent_id of
        None \<Rightarrow> h agent_id = []
      | Some mb \<Rightarrow> mb_capacity mb = 100 \<and> mb_messages mb = window 100 (h agent_id)))"

lemma bus_showsD:
  assumes "bus_shows b h"
  shows "bus_default_capacity b = 100"
    and "map_of (bus_mailboxes b) i = None \<Longrightarrow> h i = []"
    and "map_of (bus_mailboxes b) i = Some mb \<Longrightarrow> mb_capacity mb = 100 \<and> mb_messages mb = window 100 (h i)"
  using assms unfolding bus_shows_def by (auto dest!: spec [of _ i])

lemma bus_shows_update:
  assumes "bus_shows b h" "mb_capacity mb = 100" "mb_messages mb = window 100 (h' i)"
    and "\<And>j. j \<noteq> i \<Longrightarrow> h' j = h j"
  shows "bus_shows (b\<lparr>bus_mailboxes := AList.update i mb (bus_mailboxes b)\<rparr>) h'"
  using bus_showsD [OF assms(1)] assms(2-4)
  by (auto simp: bus_shows_def update_conv' split: option.splits)

lemma window_acked:
  assumes "ack_first i (window n h) = Some ms"
  shows "window n (take (length h - n) h @ ms) = ms"
  using ack_first_length [OF assms] by (cases "n \<le> length h") (simp_all add: window_def)

lemma bus_shows_do:
  assumes "bus_shows b h"
  shows "\<exists>b'. bus_do x b = Some b' \<and> bus_shows b' (\<lambda>agent_id. history_do agent_id x (h agent_id))"
proof (cases x)
  case (Send msg_id now sender receiver payload)
  define msg where "msg = \<lparr>ms_id = msg_id, ms_from = sender, ms_to = receiver, ms_payload = payload,
                 ms_timestamp_ms = now, ms_read = False\<rparr>"
  define mb where "mb = (case map_of (bus_mailboxes b) receiver of
                  None \<Rightarrow> mailbox_new (bus_default_capacity b) | Some mb \<Rightarrow> mb)"
  have mb: "mb_capacity mb = 100" "mb_messages mb = window 100 (h receiver)"
    using bus_showsD [OF assms]
    by (auto simp: mb_def mailbox_new_def window_def split: option.splits)
  define mb' where "mb' = mb\<lparr>mb_messages := window 100 (h receiver @ [msg])\<rparr>"
  have mb': "mailbox_push msg mb = Some mb'" "mb_capacity mb' = 100"
      "mb_messages mb' = window 100 (h receiver @ [msg])"
    using mb by (auto simp: mb'_def mailbox_push_def window_snoc split: list.splits)
  then have "bus_do x b = Some (b\<lparr>bus_mailboxes := AList.update receiver mb' (bus_mailboxes b)\<rparr>)"
    using Send by (simp add: bus_send_def msg_def [symmetric] mb_def [symmetric] Let_def)
  moreover have "bus_shows (b\<lparr>bus_mailboxes := AList.update receiver mb' (bus_mailboxes b)\<rparr>)
      (\<lambda>agent_id. history_do agent_id x (h agent_id))"
    by (rule bus_shows_update [OF assms mb'(2)]) (simp_all add: Send mb'(3) msg_def)
  ultimately show ?thesis by blast
next
  case (Ack reader message_id)
  show ?thesis
  proof (cases "map_of (bus_mailboxes b) reader")
    case None
    then have "(\<lambda>agent_id. history_do agent_id x (h agent_id)) = h"
      using Ack bus_showsD(2) [OF assms None] by (auto simp: window_def fun_eq_iff)
    then show ?thesis using None Ack assms by (simp add: bus_ack_def)
  next
    case (Some mb)
    note mb = bus_showsD(3) [OF assms Some]
    define mb' where "mb' = fst (mailbox_ack message_id mb)"
    have "bus_shows (b\<lparr>bus_mailboxes := AList.update reader mb' (bus_mailboxes b)\<rparr>)
        (\<lambda>agent_id. history_do agent_id x (h agent_id))"
      by (rule bus_shows_update [OF assms])
        (use mb in \<open>auto simp: Ack mb'_def mailbox_ack_def window_acked split: option.splits\<close>)
    then show ?thesis
      using Some Ack by (simp add: bus_ack_def mb'_def case_prod_beta)
  qed
qed

text \<open>
  C36: the bounded mailboxes refine an unbounded history.  Every sequence of sends and
  acknowledgements succeeds, and afterwards each agent reads exactly the last hundred messages sent
  to it, in order, with the marks its acknowledgements set; messages to other agents never appear.
\<close>

theorem mailbox_is_window_of_history:
  "\<exists>b. bus_run ops bus_new = Some b
     \<and> (\<forall>agent_id. bus_read b agent_id False = window 100 (fold (history_do agent_id) ops [])
          \<and> bus_read b agent_id True = filter (\<lambda>m. \<not> ms_read m) (bus_read b agent_id False)
          \<and> message_count b agent_id \<le> 100)"
proof -
  have run: "\<exists>b'. bus_run ops b = Some b' \<and> bus_shows b' (\<lambda>agent_id. fold (history_do agent_id) ops (h agent_id))"
    if "bus_shows b h" for b :: "'a message_bus" and h
    using that
  proof (induction ops arbitrary: b h)
    case (Cons x ops)
    from bus_shows_do [OF Cons.prems, of x] obtain b1 where
      b1: "bus_do x b = Some b1" "bus_shows b1 (\<lambda>agent_id. history_do agent_id x (h agent_id))"
      by blast
    from Cons.IH [OF b1(2)] b1(1) show ?case by simp
  qed simp
  have "bus_shows (bus_new :: 'a message_bus) (\<lambda>_. [])" by (simp add: bus_shows_def bus_new_def)
  from run [OF this] obtain b where
    b: "bus_run ops bus_new = Some b" "bus_shows b (\<lambda>agent_id. fold (history_do agent_id) ops [])" by blast
  have "bus_read b agent_id False = window 100 (fold (history_do agent_id) ops [])
      \<and> bus_read b agent_id True = filter (\<lambda>m. \<not> ms_read m) (bus_read b agent_id False)
      \<and> message_count b agent_id \<le> 100" for agent_id
    using bus_showsD(2,3) [OF b(2), of agent_id]
    by (auto simp: bus_read_def read_all_def message_count_def window_def split: option.splits)
  then show ?thesis using b(1) by blast
qed

end
