(* ===== verification/Permission_Guard.thy ===== *)
theory Permission_Guard
  imports Plico_Prelude "HOL-Library.AList" "HOL-Library.Sublist"
begin

text \<open>
  The permission guard (\<open>src/src/api/permission.rs\<close>) and the kernel operations on it
  (\<open>src/src/kernel/ops/permission.rs\<close>).  A check reads the clock once for every grant it looks at;
  \<open>clock k\<close> is the \<open>k\<close>-th reading of the operation.  The registry is an association list from agent
  to grants.
\<close>

section \<open>Grants and contexts\<close>

datatype permission_action =
    ActRead | ActReadAny | ActWrite | ActDelete | ActNetwork | ActExecute | ActSendMessage
  | ActManagePermissions | ActAll

fun debug_action :: "permission_action \<Rightarrow> string" where
  "debug_action ActRead = ''Read''"
| "debug_action ActReadAny = ''ReadAny''"
| "debug_action ActWrite = ''Write''"
| "debug_action ActDelete = ''Delete''"
| "debug_action ActNetwork = ''Network''"
| "debug_action ActExecute = ''Execute''"
| "debug_action ActSendMessage = ''SendMessage''"
| "debug_action ActManagePermissions = ''ManagePermissions''"
| "debug_action ActAll = ''All''"

record permission_grant =
  pg_action :: permission_action
  pg_scope :: "string option"
  pg_expires_at :: "nat option"

definition grant_new :: "permission_action \<Rightarrow> permission_grant" where
  "grant_new action = \<lparr>pg_action = action, pg_scope = None, pg_expires_at = None\<rparr>"

definition with_scope :: "string \<Rightarrow> permission_grant \<Rightarrow> permission_grant" where
  "with_scope scope g = g\<lparr>pg_scope := Some scope\<rparr>"

definition with_expiry :: "nat \<Rightarrow> permission_grant \<Rightarrow> permission_grant" where
  "with_expiry expiry_ms g = g\<lparr>pg_expires_at := Some expiry_ms\<rparr>"

text \<open>\<open>grant_scope.strip_suffix('*')\<close>.\<close>

definition strip_star :: "string \<Rightarrow> string option" where
  "strip_star s = (if s \<noteq> [] \<and> last s = CHR ''*'' then Some (butlast s) else None)"

text \<open>
  The code lets a grant with a scope cover a request without one; the comment above it says that it
  does not (see the last section).
\<close>

definition scope_matches :: "string option \<Rightarrow> string option \<Rightarrow> bool" where
  "scope_matches scope scope_context =
     (case (scope, scope_context) of
        (None, _) \<Rightarrow> True
      | (Some _, None) \<Rightarrow> True
      | (Some grant_scope, Some ctx) \<Rightarrow>
          grant_scope = ctx
          \<or> (case strip_star grant_scope of Some pre \<Rightarrow> prefix pre ctx | None \<Rightarrow> False))"

definition covers_scoped :: "nat \<Rightarrow> permission_action \<Rightarrow> string option \<Rightarrow> permission_grant \<Rightarrow> bool" where
  "covers_scoped now action scope_context g =
     ((case pg_expires_at g of Some expiry \<Rightarrow> \<not> expiry < now | None \<Rightarrow> True)
      \<and> (pg_action g = ActAll \<or> pg_action g = action)
      \<and> scope_matches (pg_scope g) scope_context)"

definition covers :: "nat \<Rightarrow> permission_action \<Rightarrow> permission_grant \<Rightarrow> bool" where
  "covers now action g = covers_scoped now action None g"

text \<open>\<open>grants.iter().any(|g| g.covers_scoped(action, scope))\<close>, from the \<open>k\<close>-th reading on.\<close>

fun any_covers :: "(nat \<Rightarrow> nat) \<Rightarrow> nat \<Rightarrow> permission_action \<Rightarrow> string option \<Rightarrow> permission_grant list \<Rightarrow> bool" where
  "any_covers clock k action scope [] = False"
| "any_covers clock k action scope (g # gs) =
     (covers_scoped (clock k) action scope g \<or> any_covers clock (Suc k) action scope gs)"

record permission_context =
  pc_agent_id :: string
  pc_tenant_id :: string
  pc_embedded_grants :: "permission_grant list"

definition default_tenant :: string where
  "default_tenant = ''default''"

definition context_new :: "string \<Rightarrow> string \<Rightarrow> permission_context" where
  "context_new agent_id tenant_id = \<lparr>pc_agent_id = agent_id, pc_tenant_id = tenant_id, pc_embedded_grants = []\<rparr>"

definition with_grants :: "string \<Rightarrow> string \<Rightarrow> permission_grant list \<Rightarrow> permission_context" where
  "with_grants agent_id tenant_id grants =
     \<lparr>pc_agent_id = agent_id, pc_tenant_id = tenant_id, pc_embedded_grants = grants\<rparr>"

definition with_inferred_tenant :: "string \<Rightarrow> string option \<Rightarrow> permission_context" where
  "with_inferred_tenant agent_id token_tenant =
     \<lparr>pc_agent_id = agent_id, pc_tenant_id = (case token_tenant of Some t \<Rightarrow> t | None \<Rightarrow> default_tenant),
      pc_embedded_grants = []\<rparr>"

definition has_permission :: "(nat \<Rightarrow> nat) \<Rightarrow> nat \<Rightarrow> permission_action \<Rightarrow> permission_context \<Rightarrow> bool" where
  "has_permission clock k action ctx = any_covers clock k action None (pc_embedded_grants ctx)"

section \<open>The guard\<close>

record permission_guard =
  gd_trusted_agents :: "string set"
  gd_grants :: "(string \<times> permission_grant list) list"

definition guard_new :: permission_guard where
  "guard_new = \<lparr>gd_trusted_agents = {''kernel'', ''system''}, gd_grants = []\<rparr>"

definition list_grants :: "permission_guard \<Rightarrow> string \<Rightarrow> permission_grant list" where
  "list_grants gd agent_id = (case map_of (gd_grants gd) agent_id of None \<Rightarrow> [] | Some gs \<Rightarrow> gs)"

definition has_grants :: "permission_guard \<Rightarrow> string \<Rightarrow> bool" where
  "has_grants gd agent_id = (map_of (gd_grants gd) agent_id \<noteq> None)"

definition is_trusted :: "permission_guard \<Rightarrow> string \<Rightarrow> bool" where
  "is_trusted gd agent_id = (agent_id \<in> gd_trusted_agents gd)"

text \<open>The only error kind of the guard is \<open>PermissionDenied\<close>, with its message.\<close>

datatype permission_error = PermissionDenied string

abbreviation quote :: string where
  "quote \<equiv> [CHR 0x27]"

definition lacks_permission :: "string \<Rightarrow> permission_action \<Rightarrow> permission_error" where
  "lacks_permission agent_id action =
     PermissionDenied (''Agent '' @ quote @ agent_id @ quote @ '' lacks permission for '' @ debug_action action
       @ ''. Grant it first: grant(..., '' @ debug_action action @ '')'')"

fun default_policy :: "string \<Rightarrow> permission_action \<Rightarrow> permission_error + unit" where
  "default_policy agent_id ActRead = Inr ()"
| "default_policy agent_id ActWrite = Inr ()"
| "default_policy agent_id ActAll = Inl (PermissionDenied (''Permission '' @ quote @ ''All'' @ quote @ '' not granted''))"
| "default_policy agent_id action = Inl (lacks_permission agent_id action)"

definition check :: "(nat \<Rightarrow> nat) \<Rightarrow> permission_guard \<Rightarrow> permission_context \<Rightarrow> permission_action \<Rightarrow> permission_error + unit" where
  "check clock gd ctx action =
     (if pc_agent_id ctx \<in> gd_trusted_agents gd then Inr ()
      else if has_permission clock 0 action ctx then Inr ()
      else if (case map_of (gd_grants gd) (pc_agent_id ctx) of
                 Some gs \<Rightarrow> any_covers clock (length (pc_embedded_grants ctx)) action None gs
               | None \<Rightarrow> False) then Inr ()
      else default_policy (pc_agent_id ctx) action)"

fun scoped_policy :: "string \<Rightarrow> permission_action \<Rightarrow> string option \<Rightarrow> permission_error + unit" where
  "scoped_policy agent_id ActRead scope = Inr ()"
| "scoped_policy agent_id ActWrite scope = Inr ()"
| "scoped_policy agent_id action scope =
     Inl (PermissionDenied (''Agent '' @ quote @ agent_id @ quote @ '' lacks '' @ debug_action action @ '' permission''
       @ (case scope of Some s \<Rightarrow> '' for scope '' @ quote @ s @ quote | None \<Rightarrow> [])))"

definition check_scoped ::
  "(nat \<Rightarrow> nat) \<Rightarrow> permission_guard \<Rightarrow> permission_context \<Rightarrow> permission_action \<Rightarrow> string option \<Rightarrow> permission_error + unit" where
  "check_scoped clock gd ctx action scope =
     (if pc_agent_id ctx \<in> gd_trusted_agents gd then Inr ()
      else if any_covers clock 0 action scope (pc_embedded_grants ctx) then Inr ()
      else if (case map_of (gd_grants gd) (pc_agent_id ctx) of
                 Some gs \<Rightarrow> any_covers clock (length (pc_embedded_grants ctx)) action scope gs
               | None \<Rightarrow> False) then Inr ()
      else scoped_policy (pc_agent_id ctx) action scope)"

definition grant :: "string \<Rightarrow> permission_grant \<Rightarrow> permission_guard \<Rightarrow> permission_guard" where
  "grant agent_id g gd = gd\<lparr>gd_grants := AList.update agent_id (list_grants gd agent_id @ [g]) (gd_grants gd)\<rparr>"

definition grant_action :: "string \<Rightarrow> permission_action \<Rightarrow> permission_guard \<Rightarrow> permission_guard" where
  "grant_action agent_id action = grant agent_id (grant_new action)"

definition revoke_all :: "string \<Rightarrow> permission_guard \<Rightarrow> permission_guard" where
  "revoke_all agent_id gd = gd\<lparr>gd_grants := AList.delete agent_id (gd_grants gd)\<rparr>"

definition revoke :: "string \<Rightarrow> permission_action \<Rightarrow> permission_guard \<Rightarrow> permission_guard" where
  "revoke agent_id action gd =
     (case map_of (gd_grants gd) agent_id of
        None \<Rightarrow> gd
      | Some gs \<Rightarrow>
          (let kept = filter (\<lambda>g. pg_action g \<noteq> action) gs
           in if kept = [] then gd\<lparr>gd_grants := AList.delete agent_id (gd_grants gd)\<rparr>
              else gd\<lparr>gd_grants := AList.update agent_id kept (gd_grants gd)\<rparr>))"

text \<open>
  \<open>covers(ReadAny) || covers(All)\<close> for each grant: the clock is read again for the second half
  when the first fails.
\<close>

fun any_read_any :: "(nat \<Rightarrow> nat) \<Rightarrow> nat \<Rightarrow> permission_grant list \<Rightarrow> bool" where
  "any_read_any clock k [] = False"
| "any_read_any clock k (g # gs) =
     (covers (clock k) ActReadAny g \<or> covers (clock (k + 1)) ActAll g \<or> any_read_any clock (k + 2) gs)"

definition can_read_any :: "(nat \<Rightarrow> nat) \<Rightarrow> permission_guard \<Rightarrow> string \<Rightarrow> bool" where
  "can_read_any clock gd agent_id =
     (if agent_id \<in> gd_trusted_agents gd then True
      else (case map_of (gd_grants gd) agent_id of Some gs \<Rightarrow> any_read_any clock 0 gs | None \<Rightarrow> False))"

definition check_ownership :: "(nat \<Rightarrow> nat) \<Rightarrow> permission_guard \<Rightarrow> permission_context \<Rightarrow> string \<Rightarrow> permission_error + unit" where
  "check_ownership clock gd ctx owner_id =
     (if pc_agent_id ctx = owner_id then Inr ()
      else if pc_agent_id ctx \<in> gd_trusted_agents gd then Inr ()
      else if (case map_of (gd_grants gd) (pc_agent_id ctx) of
                 Some gs \<Rightarrow> any_read_any clock 0 gs | None \<Rightarrow> False) then Inr ()
      else if has_permission clock (2 * length (list_grants gd (pc_agent_id ctx))) ActReadAny ctx then Inr ()
      else Inl (PermissionDenied (''Agent '' @ quote @ pc_agent_id ctx @ quote @ '' cannot access object owned by ''
             @ quote @ owner_id @ quote @ ''. Grant ReadAny to override.'')))"

definition check_namespace_access :: "permission_context \<Rightarrow> string \<Rightarrow> permission_error + unit" where
  "check_namespace_access ctx resource_namespace =
     (if pc_tenant_id ctx = resource_namespace then Inr ()
      else Inl (PermissionDenied (''Agent '' @ quote @ pc_agent_id ctx @ quote
             @ '' cannot cross local namespace boundary '' @ quote @ pc_tenant_id ctx @ quote @ '' -> ''
             @ quote @ resource_namespace @ quote @ ''.'')))"

definition guard_snapshot :: "permission_guard \<Rightarrow> (string \<times> permission_grant list) list" where
  "guard_snapshot gd = gd_grants gd"

definition extend_grants :: "string \<times> permission_grant list \<Rightarrow> permission_guard \<Rightarrow> permission_guard" where
  "extend_grants p gd =
     gd\<lparr>gd_grants := AList.update (fst p) (list_grants gd (fst p) @ snd p) (gd_grants gd)\<rparr>"

definition guard_restore :: "(string \<times> permission_grant list) list \<Rightarrow> permission_guard \<Rightarrow> permission_guard" where
  "guard_restore grants gd = fold extend_grants grants gd"

definition parse_action :: "string \<Rightarrow> permission_action option" where
  "parse_action s =
     (let l = to_lowercase s in
      if l = ''read'' then Some ActRead
      else if l = ''read_any'' \<or> l = ''readany'' then Some ActReadAny
      else if l = ''write'' then Some ActWrite
      else if l = ''delete'' then Some ActDelete
      else if l = ''network'' then Some ActNetwork
      else if l = ''execute'' then Some ActExecute
      else if l = ''send_message'' \<or> l = ''sendmessage'' then Some ActSendMessage
      else if l = ''manage_permissions'' \<or> l = ''managepermissions'' then Some ActManagePermissions
      else if l = ''all'' then Some ActAll
      else None)"

section \<open>Kernel operations\<close>

definition permission_grant_op ::
  "string \<Rightarrow> permission_action \<Rightarrow> string option \<Rightarrow> nat option \<Rightarrow> permission_guard \<Rightarrow> permission_guard" where
  "permission_grant_op agent_id action scope expires_at gd =
     (let g = grant_new action;
          g1 = (case scope of Some s \<Rightarrow> with_scope s g | None \<Rightarrow> g);
          g2 = (case expires_at of Some e \<Rightarrow> with_expiry e g1 | None \<Rightarrow> g1)
      in grant agent_id g2 gd)"

definition permission_check :: "(nat \<Rightarrow> nat) \<Rightarrow> permission_guard \<Rightarrow> string \<Rightarrow> permission_action \<Rightarrow> permission_error + unit" where
  "permission_check clock gd agent_id action = check clock gd (context_new agent_id default_tenant) action"

section \<open>Decisions\<close>

lemma covers_scoped_antimono: "t \<le> u \<Longrightarrow> covers_scoped u action scope g \<Longrightarrow> covers_scoped t action scope g"
  by (auto simp: covers_scoped_def split: option.splits)

lemma any_covers_iff:
  "any_covers clock k action scope gs \<longleftrightarrow>
     (\<exists>j < length gs. covers_scoped (clock (k + j)) action scope (gs ! j))"
  by (induction gs arbitrary: k) (auto simp: less_Suc_eq_0_disj)

text \<open>Readings between \<open>t\<close> and \<open>u\<close>: what covers at the end is found, and what is found covers at the start.\<close>

lemma any_covers_bounds:
  assumes "\<And>j. t \<le> clock j" "\<And>j. clock j \<le> u"
  shows "g \<in> set gs \<Longrightarrow> covers_scoped u action scope g \<Longrightarrow> any_covers clock k action scope gs"
    and "any_covers clock k action scope gs \<Longrightarrow> \<exists>g \<in> set gs. covers_scoped t action scope g"
  using assms covers_scoped_antimono
  by (auto simp: any_covers_iff in_set_conv_nth) (metis, metis nth_mem)

definition may_be_default :: "permission_action \<Rightarrow> bool" where
  "may_be_default action = (action = ActRead \<or> action = ActWrite)"

lemma scoped_policy_Inr: "scoped_policy agent_id action scope = Inr () \<longleftrightarrow> may_be_default action"
  by (cases action) (simp_all add: may_be_default_def)

lemma default_policy_Inr: "default_policy agent_id action = Inr () \<longleftrightarrow> may_be_default action"
  by (cases action) (simp_all add: may_be_default_def)

lemma check_unscoped: "check clock gd ctx action = Inr () \<longleftrightarrow> check_scoped clock gd ctx action None = Inr ()"
  by (auto simp: check_def check_scoped_def has_permission_def default_policy_Inr scoped_policy_Inr)

lemma check_scoped_Inr:
  "check_scoped clock gd ctx action scope = Inr () \<longleftrightarrow>
     pc_agent_id ctx \<in> gd_trusted_agents gd \<or> may_be_default action
     \<or> any_covers clock 0 action scope (pc_embedded_grants ctx)
     \<or> any_covers clock (length (pc_embedded_grants ctx)) action scope (list_grants gd (pc_agent_id ctx))"
  by (auto simp: check_scoped_def list_grants_def scoped_policy_Inr split: option.splits)

lemma revoked_list:
  "list_grants (revoke agent_id action gd) other =
     (if other = agent_id then filter (\<lambda>g. pg_action g \<noteq> action) (list_grants gd other) else list_grants gd other)"
  by (auto simp: revoke_def list_grants_def Let_def update_conv' delete_conv' split: option.splits)

section \<open>Properties\<close>

text \<open>
  What a grant allows for a request in a scope, written without the functions of the guard: it names
  the action or all actions, it has not passed its expiry, and it has no scope, the scope of the
  request, or a pattern that ends in a star and whose rest begins the scope of the request.
\<close>

definition allows :: "nat \<Rightarrow> permission_action \<Rightarrow> string \<Rightarrow> permission_grant \<Rightarrow> bool" where
  "allows now action scope g \<longleftrightarrow>
     pg_action g \<in> {action, ActAll} \<and> (\<forall>expiry. pg_expires_at g = Some expiry \<longrightarrow> now \<le> expiry)
     \<and> (pg_scope g = None \<or> pg_scope g = Some scope
        \<or> (\<exists>pre rest. pg_scope g = Some (pre @ ''*'') \<and> scope = pre @ rest))"

lemma strip_star_Some: "strip_star s = Some pre \<longleftrightarrow> s = pre @ ''*''"
  unfolding strip_star_def by (cases s rule: rev_cases) auto

lemma covers_scoped_allows: "covers_scoped now action (Some scope) g \<longleftrightarrow> allows now action scope g"
proof -
  have "scope_matches (Some s) (Some scope) \<longleftrightarrow> s = scope \<or> (\<exists>pre rest. s = pre @ ''*'' \<and> scope = pre @ rest)" for s
    by (cases "strip_star s")
      (auto simp: scope_matches_def strip_star_Some [symmetric] prefix_def)
  moreover have "scope_matches None (Some scope)" by (simp add: scope_matches_def)
  ultimately show ?thesis
    by (cases "pg_scope g"; cases "pg_expires_at g") (auto simp: covers_scoped_def allows_def)
qed

text \<open>
  C37: the decision of the guard on a request in a scope.  Let every reading of the clock during a
  check lie between \<open>t\<close> and \<open>u\<close>.  The check succeeds when the agent is trusted, when the action is a
  read or a write, or when some grant of the context or of the registry names the action or all
  actions, is not expired at \<open>u\<close>, and has no scope, this scope, or a starred pattern that matches
  it; and it succeeds only when one of these holds, with \<open>t\<close> for \<open>u\<close>.  So with a standing clock the
  decision is exact.  Requests without a scope are not covered: there code and comment part.
\<close>

theorem guard_decision_exact:
  assumes "\<And>k. t \<le> clock k" "\<And>k. clock k \<le> u"
  shows "let grants = set (pc_embedded_grants ctx) \<union> set (list_grants gd (pc_agent_id ctx));
             standing = is_trusted gd (pc_agent_id ctx) \<or> action = ActRead \<or> action = ActWrite;
             valid = (\<lambda>now g. (pg_action g = action \<or> pg_action g = ActAll)
               \<and> (\<forall>expiry. pg_expires_at g = Some expiry \<longrightarrow> now \<le> expiry)
               \<and> (pg_scope g = None \<or> pg_scope g = Some scope
                  \<or> (\<exists>pre rest. pg_scope g = Some (pre @ ''*'') \<and> scope = pre @ rest)))
         in (standing \<or> (\<exists>g \<in> grants. valid u g) \<longrightarrow> check_scoped clock gd ctx action (Some scope) = Inr ())
          \<and> (check_scoped clock gd ctx action (Some scope) = Inr () \<longrightarrow> standing \<or> (\<exists>g \<in> grants. valid t g))"
proof -
  note bounds = any_covers_bounds [where scope = "Some scope", of t clock u, OF assms, unfolded covers_scoped_allows]
  have valid: "(pg_action g = action \<or> pg_action g = ActAll)
      \<and> (\<forall>expiry. pg_expires_at g = Some expiry \<longrightarrow> now \<le> expiry)
      \<and> (pg_scope g = None \<or> pg_scope g = Some scope
         \<or> (\<exists>pre rest. pg_scope g = Some (pre @ ''*'') \<and> scope = pre @ rest)) \<longleftrightarrow> allows now action scope g" for now g
    by (simp add: allows_def)
  show ?thesis
    unfolding Let_def valid check_scoped_Inr may_be_default_def is_trusted_def
    by (auto intro: bounds(1) dest!: bounds(2))
qed

theorem guard_decision_exact_witness:
  "check_scoped (\<lambda>k. 7) (grant ''bob'' (with_expiry 7 (with_scope ''tool:*'' (grant_new ActExecute))) guard_new)
     (context_new ''bob'' ''default'') ActExecute (Some ''tool:web'') = Inr ()
   \<and> isl (check_scoped (\<lambda>k. 8) (grant ''bob'' (with_expiry 7 (with_scope ''tool:*'' (grant_new ActExecute))) guard_new)
     (context_new ''bob'' ''default'') ActExecute (Some ''tool:web''))
   \<and> isl (check_scoped (\<lambda>k. 7) (grant ''bob'' (with_expiry 7 (with_scope ''tool:*'' (grant_new ActExecute))) guard_new)
     (context_new ''bob'' ''default'') ActExecute (Some ''file:web''))"
proof -
  let ?g = "with_expiry 7 (with_scope ''tool:*'' (grant_new ActExecute))"
  let ?gd = "grant ''bob'' ?g guard_new" and ?ctx = "context_new ''bob'' ''default''"
  have gs: "pc_embedded_grants ?ctx = []" "list_grants ?gd (pc_agent_id ?ctx) = [?g]"
    "\<not> is_trusted ?gd (pc_agent_id ?ctx)"
    by code_simp+
  have g: "pg_action ?g = ActExecute" "pg_expires_at ?g = Some 7" "pg_scope ?g = Some (''tool:'' @ ''*'')"
    by (simp_all add: with_expiry_def with_scope_def grant_new_def)
  have isl: "isl (r :: permission_error + unit) \<longleftrightarrow> r \<noteq> Inr ()" for r by (cases r) simp_all
  have "check_scoped (\<lambda>k. 7) ?gd ?ctx ActExecute (Some ''tool:web'') = Inr ()"
    using guard_decision_exact [of 7 "\<lambda>k. 7" 7 ?ctx ?gd ActExecute "''tool:web''"] gs(2) g by (auto simp: Let_def)
  moreover have "check_scoped (\<lambda>k. 8) ?gd ?ctx ActExecute (Some ''tool:web'') \<noteq> Inr ()"
    using guard_decision_exact [of 8 "\<lambda>k. 8" 8 ?ctx ?gd ActExecute "''tool:web''"] gs g by (simp add: Let_def)
  moreover have "check_scoped (\<lambda>k. 7) ?gd ?ctx ActExecute (Some ''file:web'') \<noteq> Inr ()"
    using guard_decision_exact [of 7 "\<lambda>k. 7" 7 ?ctx ?gd ActExecute "''file:web''"] gs g
    by (auto simp: Let_def append_eq_append_conv2 append_eq_Cons_conv Cons_eq_append_conv)
  ultimately show ?thesis unfolding isl by blast
qed

text \<open>Sequences of operations on the registry.\<close>

datatype guard_op =
    Grant string permission_grant
  | RevokeAll string
  | Revoke string permission_action
  | Restore "(string \<times> permission_grant list) list"

fun guard_do :: "guard_op \<Rightarrow> permission_guard \<Rightarrow> permission_guard" where
  "guard_do (Grant agent_id g) gd = grant agent_id g gd"
| "guard_do (RevokeAll agent_id) gd = revoke_all agent_id gd"
| "guard_do (Revoke agent_id action) gd = revoke agent_id action gd"
| "guard_do (Restore grants) gd = guard_restore grants gd"

fun gives :: "string \<Rightarrow> permission_action \<Rightarrow> guard_op \<Rightarrow> bool" where
  "gives agent_id action (Grant a g) = (a = agent_id \<and> (pg_action g = action \<or> pg_action g = ActAll))"
| "gives agent_id action (Restore grants) =
     (\<exists>(a, gs) \<in> set grants. a = agent_id \<and> (\<exists>g \<in> set gs. pg_action g = action \<or> pg_action g = ActAll))"
| "gives agent_id action _ = False"

definition holds_grant :: "permission_guard \<Rightarrow> string \<Rightarrow> permission_action \<Rightarrow> bool" where
  "holds_grant gd agent_id action =
     (\<exists>g \<in> set (list_grants gd agent_id). pg_action g = action \<or> pg_action g = ActAll)"

lemma list_grants_update:
  "list_grants (gd\<lparr>gd_grants := AList.update a gs (gd_grants gd)\<rparr>) b = (if b = a then gs else list_grants gd b)"
  by (simp add: list_grants_def update_conv')

lemma list_grants_grant:
  "list_grants (grant a g gd) b = (if b = a then list_grants gd b @ [g] else list_grants gd b)"
  by (simp add: grant_def list_grants_update)

lemma list_grants_revoke_all: "list_grants (revoke_all a gd) b = (if b = a then [] else list_grants gd b)"
  by (simp add: revoke_all_def list_grants_def delete_conv')

lemmas list_grants_after = list_grants_grant list_grants_revoke_all revoked_list

lemma guard_restore_lists:
  "set (list_grants (guard_restore grants gd) agent_id) \<subseteq>
     set (list_grants gd agent_id) \<union> (\<Union>(a, gs) \<in> set grants. if a = agent_id then set gs else {})"
  unfolding guard_restore_def
proof (induction grants arbitrary: gd)
  case (Cons p grants)
  from Cons.IH [of "extend_grants p gd"] show ?case
    by (auto simp: extend_grants_def list_grants_update split: if_splits)
qed simp

lemma guard_do_holds:
  assumes "holds_grant (guard_do x gd) agent_id action"
  shows "holds_grant gd agent_id action \<or> gives agent_id action x"
proof (cases x)
  case (Restore grants)
  then show ?thesis
    using assms guard_restore_lists [of grants gd agent_id]
    by (fastforce simp: holds_grant_def split: if_splits)
qed (use assms in \<open>auto simp: holds_grant_def list_grants_after split: if_splits\<close>)

lemma guard_restore_trusted [simp]: "gd_trusted_agents (guard_restore grants gd) = gd_trusted_agents gd"
  unfolding guard_restore_def by (induction grants arbitrary: gd) (simp_all add: extend_grants_def)

lemma guard_do_trusted [simp]: "gd_trusted_agents (guard_do x gd) = gd_trusted_agents gd"
  by (cases x) (simp_all add: grant_def revoke_all_def revoke_def Let_def split: option.split)

text \<open>
  C38: a revoked permission stays revoked.  After an action other than reading and writing has been
  revoked from an agent that is not trusted and holds no grant for all actions, the kernel denies it
  that action through every sequence of operations that does not grant it again.
\<close>

theorem revoked_permission_stays_denied:
  assumes "\<not> is_trusted gd agent_id" "action \<noteq> ActRead" "action \<noteq> ActWrite" "action \<noteq> ActAll"
    and "\<forall>g \<in> set (list_grants gd agent_id). pg_action g \<noteq> ActAll"
    and "\<forall>x \<in> set ops. \<not> gives agent_id action x"
  shows "permission_check clock (fold guard_do ops (revoke agent_id action gd)) agent_id action
    = Inl (lacks_permission agent_id action)"
proof -
  have keep: "\<not> holds_grant (fold guard_do xs g) agent_id action \<and> gd_trusted_agents (fold guard_do xs g) = gd_trusted_agents g"
    if "\<not> holds_grant g agent_id action" "\<forall>x \<in> set xs. \<not> gives agent_id action x" for xs g
    using that
  proof (induction xs arbitrary: g)
    case (Cons x xs)
    then have "\<not> holds_grant (guard_do x g) agent_id action"
      using guard_do_holds [of x g agent_id action] by auto
    from Cons.IH [OF this] Cons.prems(2) show ?case by simp
  qed simp
  define end_guard where "end_guard = fold guard_do ops (revoke agent_id action gd)"
  have "\<not> holds_grant (revoke agent_id action gd) agent_id action"
    using assms(5) by (auto simp: holds_grant_def revoked_list)
  from keep [OF this assms(6)] have e: "\<not> holds_grant end_guard agent_id action" "\<not> is_trusted end_guard agent_id"
    using assms(1) guard_do_trusted [of "Revoke agent_id action" gd] by (simp_all add: end_guard_def is_trusted_def)
  have "\<not> any_covers clock k action None (list_grants end_guard agent_id)" for k
    using e(1) nth_mem by (force simp: any_covers_iff holds_grant_def covers_scoped_def)
  then show ?thesis
    using e(2) assms(2-4) unfolding end_guard_def [symmetric]
    by (cases action)
      (auto simp: permission_check_def check_def context_new_def has_permission_def is_trusted_def list_grants_def
        split: option.splits)
qed

theorem revoked_permission_stays_denied_witness:
  "permission_check (\<lambda>k. 0)
     (fold guard_do [Grant ''bob'' (grant_new ActNetwork), Grant ''eve'' (grant_new ActDelete)]
       (revoke ''bob'' ActDelete (grant_action ''bob'' ActDelete guard_new))) ''bob'' ActDelete
   = Inl (lacks_permission ''bob'' ActDelete)
   \<and> permission_check (\<lambda>k. 0) (grant_action ''bob'' ActDelete guard_new) ''bob'' ActDelete = Inr ()"
proof
  show "permission_check (\<lambda>k. 0) (grant_action ''bob'' ActDelete guard_new) ''bob'' ActDelete = Inr ()"
    by code_simp
  have hyps: "\<not> is_trusted (grant_action ''bob'' ActDelete guard_new) ''bob''"
    "\<forall>g \<in> set (list_grants (grant_action ''bob'' ActDelete guard_new) ''bob''). pg_action g \<noteq> ActAll"
    "\<forall>x \<in> set [Grant ''bob'' (grant_new ActNetwork), Grant ''eve'' (grant_new ActDelete)]. \<not> gives ''bob'' ActDelete x"
    by code_simp+
  show "permission_check (\<lambda>k. 0)
     (fold guard_do [Grant ''bob'' (grant_new ActNetwork), Grant ''eve'' (grant_new ActDelete)]
       (revoke ''bob'' ActDelete (grant_action ''bob'' ActDelete guard_new))) ''bob'' ActDelete
   = Inl (lacks_permission ''bob'' ActDelete)"
    by (rule revoked_permission_stays_denied [OF hyps(1) _ _ _ hyps(2,3)]) simp_all
qed

section \<open>Where code and comment part\<close>

text \<open>The comment says a scoped grant needs a scope context; without one it covers every scope.\<close>

lemma scoped_grant_covers_without_context:
  "covers now ActExecute (with_scope ''tool:web_search'' (grant_new ActExecute))"
  by (simp add: covers_def covers_scoped_def with_scope_def grant_new_def scope_matches_def)

end
