(* ===== verification/Event_Bus.thy ===== *)
theory Event_Bus
  imports Plico_Prelude "HOL-Library.AList" "HOL-Library.Sublist"
begin

text \<open>
  The event bus of the kernel (\<open>src/src/kernel/event_bus.rs\<close>): the ring of recent events, the
  subscriptions on a broadcast channel, and the event log on disk with its rotation.  The broadcast
  channel (package \<open>tokio\<close>) and the JSON codec (package \<open>serde_json\<close>) are parameters; clock
  readings and I/O faults are arguments.  A method is one step on the state.  Sequence numbers are
  natural numbers: a \<open>u64\<close> does not wrap before 2^64 events.
\<close>

section \<open>Events and filters\<close>

datatype kernel_event =
    AgentStateChanged string string string
  | ObjectStored string string "string list"
  | MemoryStored string string
  | IntentSubmitted string "string option" string
  | IntentCompleted string bool
  | EventCreated string string string
  | KnowledgeShared string string string "string list" string
  | KnowledgeSuperseded string string string
  | TaskDelegated string string string
  | TaskCompleted string string "string list"
  | VerificationFailed string string string string
  | CognitiveConflictDetected string string string "string list" string string

record sequenced_event =
  se_seq :: nat
  se_timestamp_ms :: nat
  se_event :: kernel_event

fun event_type_name :: "kernel_event \<Rightarrow> string" where
  "event_type_name (AgentStateChanged _ _ _) = ''AgentStateChanged''"
| "event_type_name (ObjectStored _ _ _) = ''ObjectStored''"
| "event_type_name (MemoryStored _ _) = ''MemoryStored''"
| "event_type_name (IntentSubmitted _ _ _) = ''IntentSubmitted''"
| "event_type_name (IntentCompleted _ _) = ''IntentCompleted''"
| "event_type_name (EventCreated _ _ _) = ''EventCreated''"
| "event_type_name (KnowledgeShared _ _ _ _ _) = ''KnowledgeShared''"
| "event_type_name (KnowledgeSuperseded _ _ _) = ''KnowledgeSuperseded''"
| "event_type_name (TaskDelegated _ _ _) = ''TaskDelegated''"
| "event_type_name (TaskCompleted _ _ _) = ''TaskCompleted''"
| "event_type_name (VerificationFailed _ _ _ _) = ''VerificationFailed''"
| "event_type_name (CognitiveConflictDetected _ _ _ _ _ _) = ''CognitiveConflictDetected''"

fun event_agent_id :: "kernel_event \<Rightarrow> string option" where
  "event_agent_id (AgentStateChanged agent_id _ _) = Some agent_id"
| "event_agent_id (ObjectStored _ agent_id _) = Some agent_id"
| "event_agent_id (MemoryStored agent_id _) = Some agent_id"
| "event_agent_id (IntentSubmitted _ agent_id _) = agent_id"
| "event_agent_id (IntentCompleted _ _) = None"
| "event_agent_id (EventCreated _ _ agent_id) = Some agent_id"
| "event_agent_id (KnowledgeShared _ agent_id _ _ _) = Some agent_id"
| "event_agent_id (KnowledgeSuperseded _ _ agent_id) = Some agent_id"
| "event_agent_id (TaskDelegated _ from_agent _) = Some from_agent"
| "event_agent_id (TaskCompleted _ agent_id _) = Some agent_id"
| "event_agent_id (VerificationFailed _ _ _ agent_id) = Some agent_id"
| "event_agent_id (CognitiveConflictDetected _ _ _ _ agent_id _) = Some agent_id"

record event_filter =
  ef_event_types :: "string list option"
  ef_agent_ids :: "string list option"

definition filter_matches :: "event_filter \<Rightarrow> kernel_event \<Rightarrow> bool" where
  "filter_matches f e =
     ((case ef_event_types f of Some types \<Rightarrow> event_type_name e \<in> set types | None \<Rightarrow> True)
      \<and> (case ef_agent_ids f of
           Some agents \<Rightarrow> (case event_agent_id e of Some aid \<Rightarrow> aid \<in> set agents | None \<Rightarrow> False)
         | None \<Rightarrow> True))"

section \<open>The ring of recent events\<close>

definition DEFAULT_BROADCAST_CAPACITY :: nat where
  "DEFAULT_BROADCAST_CAPACITY = 4096"

definition DEFAULT_EVENT_LOG_CAPACITY :: nat where
  "DEFAULT_EVENT_LOG_CAPACITY = 65536"

record ring_event_log =
  rl_events :: "sequenced_event list"
  rl_max_capacity :: nat
  rl_min_seq :: nat

definition ring_new :: "nat \<Rightarrow> ring_event_log" where
  "ring_new capacity = \<lparr>rl_events = [], rl_max_capacity = capacity, rl_min_seq = 0\<rparr>"

definition ring_push :: "sequenced_event \<Rightarrow> ring_event_log \<Rightarrow> ring_event_log" where
  "ring_push e l =
     (if rl_max_capacity l \<le> length (rl_events l)
      then (case rl_events l of
              evicted # rest \<Rightarrow> l\<lparr>rl_events := rest @ [e], rl_min_seq := se_seq evicted + 1\<rparr>
            | [] \<Rightarrow> l\<lparr>rl_events := [e]\<rparr>)
      else l\<lparr>rl_events := rl_events l @ [e]\<rparr>)"

definition ring_since :: "ring_event_log \<Rightarrow> nat \<Rightarrow> sequenced_event list" where
  "ring_since l since_seq =
     (let effective_seq = max since_seq (rl_min_seq l - 1)
      in filter (\<lambda>e. effective_seq < se_seq e) (rl_events l))"

definition ring_by_agent :: "ring_event_log \<Rightarrow> string \<Rightarrow> sequenced_event list" where
  "ring_by_agent l agent_id = filter (\<lambda>e. event_agent_id (se_event e) = Some agent_id) (rl_events l)"

definition ring_restore :: "sequenced_event list \<Rightarrow> ring_event_log \<Rightarrow> ring_event_log" where
  "ring_restore events l =
     (if rl_max_capacity l < length events
      then (let skip = length events - rl_max_capacity l
            in l\<lparr>rl_min_seq := se_seq (events ! (skip - 1)) + 1, rl_events := drop skip events\<rparr>)
      else l\<lparr>rl_min_seq := 0, rl_events := events\<rparr>)"

section \<open>The broadcast channel\<close>

datatype recv = RecvOk kernel_event | RecvEmpty | RecvLagged nat | RecvClosed

record ('c, 'r) broadcast =
  bc_channel :: "nat \<Rightarrow> 'c"
  bc_send :: "kernel_event \<Rightarrow> 'c \<Rightarrow> 'c"
  bc_subscribe :: "'c \<Rightarrow> 'c \<times> 'r"
  bc_try_recv :: "'c \<Rightarrow> 'r \<Rightarrow> 'r \<times> recv"

text \<open>
  The documented behaviour of the channel.  A receiver sees what is sent after it subscribed, in
  order; when more than the capacity is outstanding, the next receive reports how many values were
  dropped and the receiver continues with the oldest value kept.  \<open>pend\<close> is what a receiver has not
  seen yet.
\<close>

definition broadcast_laws ::
  "('c, 'r) broadcast \<Rightarrow> nat \<Rightarrow> ('c \<Rightarrow> 'r \<Rightarrow> bool) \<Rightarrow> ('c \<Rightarrow> 'r \<Rightarrow> kernel_event list) \<Rightarrow> bool" where
  "broadcast_laws B cap valid pend =
     ((\<forall>c. valid (fst (bc_subscribe B c)) (snd (bc_subscribe B c))
           \<and> pend (fst (bc_subscribe B c)) (snd (bc_subscribe B c)) = [])
      \<and> (\<forall>c r. valid c r \<longrightarrow> valid (fst (bc_subscribe B c)) r \<and> pend (fst (bc_subscribe B c)) r = pend c r)
      \<and> (\<forall>c r e. valid c r \<longrightarrow> valid (bc_send B e c) r \<and> pend (bc_send B e c) r = pend c r @ [e])
      \<and> (\<forall>c r. valid c r \<longrightarrow> valid c (fst (bc_try_recv B c r)))
      \<and> (\<forall>c r. valid c r \<and> pend c r = [] \<longrightarrow>
            snd (bc_try_recv B c r) = RecvEmpty \<and> pend c (fst (bc_try_recv B c r)) = [])
      \<and> (\<forall>c r e es. valid c r \<and> pend c r = e # es \<and> length (pend c r) \<le> cap \<longrightarrow>
            snd (bc_try_recv B c r) = RecvOk e \<and> pend c (fst (bc_try_recv B c r)) = es)
      \<and> (\<forall>c r. valid c r \<and> cap < length (pend c r) \<longrightarrow>
            snd (bc_try_recv B c r) = RecvLagged (length (pend c r) - cap)
            \<and> pend c (fst (bc_try_recv B c r)) = drop (length (pend c r) - cap) (pend c r)))"

section \<open>The log on disk\<close>

text \<open>The current segment and the archived ones, as bytes; names are relative to the log's directory.\<close>

record event_files =
  ev_current :: "string option"
  ev_archive :: "(string \<times> string) list"

record event_codec =
  ec_to_string :: "sequenced_event \<Rightarrow> string option"
  ec_from_str :: "string \<Rightarrow> sequenced_event option"

datatype append_fault = OpenFailed | WriteFailed nat
datatype rotate_fault = CreateDirFailed | RenameFailed | ReadDirFailed

text \<open>What one \<open>emit\<close> meets outside: its three clock readings and the faults of the file system.\<close>

record emit_io =
  io_event_ms :: nat
  io_check_ms :: nat
  io_reset_ms :: nat
  io_metadata_fails :: bool
  io_rotate :: "rotate_fault option"
  io_kept_archives :: "string list"
  io_append :: "append_fault option"

definition MAX_SEGMENT_BYTES :: nat where
  "MAX_SEGMENT_BYTES = 100 * 1024 * 1024"

definition DEFAULT_ROTATION_INTERVAL_MS :: nat where
  "DEFAULT_ROTATION_INTERVAL_MS = 7 * 24 * 3600 * 1000"

definition DEFAULT_RETENTION_SEGMENTS :: nat where
  "DEFAULT_RETENTION_SEGMENTS = 4"

section \<open>The bus\<close>

record 'r subscription =
  sb_receiver :: 'r
  sb_filter :: "event_filter option"
  sb_last_seen_seq :: nat

record ('c, 'r) event_bus =
  eb_sender :: 'c
  eb_subscriptions :: "(string \<times> 'r subscription) list"
  eb_next_sub_id :: nat
  eb_event_log :: ring_event_log
  eb_next_seq :: nat
  eb_persistent :: bool
  eb_files :: event_files
  eb_segment_start_ms :: nat
  eb_rotation_interval_ms :: nat
  eb_retention_segments :: nat

definition bus_with_rotation ::
  "('c, 'r) broadcast \<Rightarrow> nat \<Rightarrow> event_files \<Rightarrow> nat \<Rightarrow> nat \<Rightarrow> ('c, 'r) event_bus" where
  "bus_with_rotation B now files interval retention =
     \<lparr>eb_sender = bc_channel B DEFAULT_BROADCAST_CAPACITY, eb_subscriptions = [], eb_next_sub_id = 1,
      eb_event_log = ring_new DEFAULT_EVENT_LOG_CAPACITY, eb_next_seq = 1, eb_persistent = True,
      eb_files = files, eb_segment_start_ms = now, eb_rotation_interval_ms = interval,
      eb_retention_segments = retention\<rparr>"

definition with_persistence :: "('c, 'r) broadcast \<Rightarrow> nat \<Rightarrow> event_files \<Rightarrow> ('c, 'r) event_bus" where
  "with_persistence B now files =
     \<lparr>eb_sender = bc_channel B DEFAULT_BROADCAST_CAPACITY, eb_subscriptions = [], eb_next_sub_id = 1,
      eb_event_log = ring_new DEFAULT_EVENT_LOG_CAPACITY, eb_next_seq = 1, eb_persistent = True,
      eb_files = files, eb_segment_start_ms = now, eb_rotation_interval_ms = DEFAULT_ROTATION_INTERVAL_MS,
      eb_retention_segments = DEFAULT_RETENTION_SEGMENTS\<rparr>"

definition event_bus_new :: "('c, 'r) broadcast \<Rightarrow> nat \<Rightarrow> ('c, 'r) event_bus" where
  "event_bus_new B now =
     \<lparr>eb_sender = bc_channel B DEFAULT_BROADCAST_CAPACITY, eb_subscriptions = [], eb_next_sub_id = 1,
      eb_event_log = ring_new DEFAULT_EVENT_LOG_CAPACITY, eb_next_seq = 1, eb_persistent = False,
      eb_files = \<lparr>ev_current = None, ev_archive = []\<rparr>, eb_segment_start_ms = now,
      eb_rotation_interval_ms = DEFAULT_ROTATION_INTERVAL_MS, eb_retention_segments = DEFAULT_RETENTION_SEGMENTS\<rparr>"

definition append_to_log :: "event_codec \<Rightarrow> append_fault option \<Rightarrow> sequenced_event \<Rightarrow> event_files \<Rightarrow> event_files" where
  "append_to_log C fault e fs =
     (if fault = Some OpenFailed then fs
      else (let old = (case ev_current fs of Some s \<Rightarrow> s | None \<Rightarrow> [])
            in case ec_to_string C e of
                 None \<Rightarrow> fs\<lparr>ev_current := Some old\<rparr>
               | Some json \<Rightarrow>
                   (let line = json @ [newline];
                        written = (case fault of Some (WriteFailed n) \<Rightarrow> take n line | _ \<Rightarrow> line)
                    in fs\<lparr>ev_current := Some (old @ written)\<rparr>)))"

definition should_rotate :: "nat \<Rightarrow> bool \<Rightarrow> ('c, 'r) event_bus \<Rightarrow> bool" where
  "should_rotate now metadata_fails b =
     (let start = eb_segment_start_ms b in
      0 < start \<and> eb_rotation_interval_ms b \<le> now - start
      \<or> (eb_persistent b \<and> \<not> metadata_fails
          \<and> (case ev_current (eb_files b) of Some s \<Rightarrow> MAX_SEGMENT_BYTES \<le> length s | None \<Rightarrow> False)))"

text \<open>
  Archives beyond the retention are removed, in the order of their names; a removal may fail, and
  then the file stays.
\<close>

definition cleanup_old_archives :: "string list \<Rightarrow> nat \<Rightarrow> (string \<times> string) list \<Rightarrow> (string \<times> string) list" where
  "cleanup_old_archives kept retention archive =
     (let names = sort (filter (prefix ''events_'') (map fst archive));
          to_remove = (if retention < length names then take (length names - retention) names else [])
      in filter (\<lambda>(n, s). n \<notin> set to_remove \<or> n \<in> set kept) archive)"

definition archive_name :: "nat \<Rightarrow> string" where
  "archive_name seg_start = ''events_'' @ decimal seg_start @ ''.jsonl''"

definition rotate_segment :: "emit_io \<Rightarrow> ('c, 'r) event_bus \<Rightarrow> ('c, 'r) event_bus" where
  "rotate_segment io b =
     (if \<not> eb_persistent b then b
      else (case ev_current (eb_files b) of
              None \<Rightarrow> b
            | Some content \<Rightarrow>
                (if io_rotate io = Some CreateDirFailed \<or> io_rotate io = Some RenameFailed then b
                 else (let archive = AList.update (archive_name (eb_segment_start_ms b)) content (ev_archive (eb_files b));
                           cleaned = (if io_rotate io = Some ReadDirFailed then archive
                                      else cleanup_old_archives (io_kept_archives io) (eb_retention_segments b) archive)
                       in b\<lparr>eb_files := \<lparr>ev_current = None, ev_archive = cleaned\<rparr>,
                            eb_segment_start_ms := io_reset_ms io\<rparr>))))"

definition list_archive_segments :: "('c, 'r) event_bus \<Rightarrow> string list" where
  "list_archive_segments b =
     (if eb_persistent b then sort (filter (prefix ''events_'') (map fst (ev_archive (eb_files b)))) else [])"

definition emit :: "('c, 'r) broadcast \<Rightarrow> event_codec \<Rightarrow> emit_io \<Rightarrow> kernel_event \<Rightarrow> ('c, 'r) event_bus \<Rightarrow> ('c, 'r) event_bus" where
  "emit B C io e b =
     (let sequenced = \<lparr>se_seq = eb_next_seq b, se_timestamp_ms = io_event_ms io, se_event = e\<rparr>;
          b1 = b\<lparr>eb_next_seq := eb_next_seq b + 1, eb_event_log := ring_push sequenced (eb_event_log b),
                 eb_sender := bc_send B e (eb_sender b)\<rparr>;
          b2 = (if should_rotate (io_check_ms io) (io_metadata_fails io) b1 then rotate_segment io b1 else b1)
      in if eb_persistent b2
         then b2\<lparr>eb_files := append_to_log C (io_append io) sequenced (eb_files b2)\<rparr> else b2)"

definition events_since :: "('c, 'r) event_bus \<Rightarrow> nat \<Rightarrow> sequenced_event list" where
  "events_since b since_seq = ring_since (eb_event_log b) since_seq"

definition events_by_agent :: "('c, 'r) event_bus \<Rightarrow> string \<Rightarrow> sequenced_event list" where
  "events_by_agent b agent_id = ring_by_agent (eb_event_log b) agent_id"

definition event_count :: "('c, 'r) event_bus \<Rightarrow> nat" where
  "event_count b = length (rl_events (eb_event_log b))"

definition current_seq :: "('c, 'r) event_bus \<Rightarrow> nat" where
  "current_seq b = eb_next_seq b"

definition oldest_seq :: "('c, 'r) event_bus \<Rightarrow> nat" where
  "oldest_seq b = rl_min_seq (eb_event_log b)"

definition snapshot_events :: "('c, 'r) event_bus \<Rightarrow> sequenced_event list" where
  "snapshot_events b = rl_events (eb_event_log b)"

definition restore_events :: "sequenced_event list \<Rightarrow> ('c, 'r) event_bus \<Rightarrow> ('c, 'r) event_bus" where
  "restore_events events b =
     b\<lparr>eb_event_log := ring_restore events (eb_event_log b), eb_next_seq := fold max (map se_seq events) 0 + 1\<rparr>"

subsection \<open>Subscriptions\<close>

definition subscribe_filtered ::
  "('c, 'r) broadcast \<Rightarrow> event_filter option \<Rightarrow> ('c, 'r) event_bus \<Rightarrow> ('c, 'r) event_bus \<times> string" where
  "subscribe_filtered B f b =
     (let sid = ''sub-'' @ decimal (eb_next_sub_id b);
          (c, r) = bc_subscribe B (eb_sender b)
      in (b\<lparr>eb_next_sub_id := eb_next_sub_id b + 1, eb_sender := c,
            eb_subscriptions := AList.update sid
              \<lparr>sb_receiver = r, sb_filter = f, sb_last_seen_seq = eb_next_seq b\<rparr> (eb_subscriptions b)\<rparr>, sid))"

definition subscribe :: "('c, 'r) broadcast \<Rightarrow> ('c, 'r) event_bus \<Rightarrow> ('c, 'r) event_bus \<times> string" where
  "subscribe B b = subscribe_filtered B None b"

definition wanted :: "event_filter option \<Rightarrow> kernel_event \<Rightarrow> bool" where
  "wanted f e = (case f of None \<Rightarrow> True | Some ef \<Rightarrow> filter_matches ef e)"

text \<open>
  The receive loop; \<open>recovered\<close> is what the event log has since the last poll.  A channel that never
  reports being empty would keep it running.
\<close>

partial_function (option) poll_loop ::
  "('c, 'r) broadcast \<Rightarrow> 'c \<Rightarrow> event_filter option \<Rightarrow> kernel_event list \<Rightarrow> 'r \<Rightarrow> kernel_event list
   \<Rightarrow> ('r \<times> kernel_event list) option" where
  "poll_loop B c f recovered r events =
     (case bc_try_recv B c r of
        (r1, RecvOk e) \<Rightarrow> poll_loop B c f recovered r1 (if wanted f e then events @ [e] else events)
      | (r1, RecvEmpty) \<Rightarrow> Some (r1, events)
      | (r1, RecvLagged n) \<Rightarrow> Some (r1, events @ filter (wanted f) recovered)
      | (r1, RecvClosed) \<Rightarrow> Some (r1, events))"

definition poll ::
  "('c, 'r) broadcast \<Rightarrow> string \<Rightarrow> ('c, 'r) event_bus \<Rightarrow> (('c, 'r) event_bus \<times> kernel_event list option) option" where
  "poll B sid b =
     (case map_of (eb_subscriptions b) sid of
        None \<Rightarrow> Some (b, None)
      | Some sub \<Rightarrow>
          map_option (\<lambda>(r, events).
              (b\<lparr>eb_subscriptions := AList.update sid
                   (sub\<lparr>sb_receiver := r,
                        sb_last_seen_seq := (if events = [] then sb_last_seen_seq sub else eb_next_seq b)\<rparr>)
                   (eb_subscriptions b)\<rparr>, Some events))
            (poll_loop B (eb_sender b) (sb_filter sub)
               (map se_event (ring_since (eb_event_log b) (sb_last_seen_seq sub))) (sb_receiver sub) []))"

definition unsubscribe :: "string \<Rightarrow> ('c, 'r) event_bus \<Rightarrow> ('c, 'r) event_bus \<times> bool" where
  "unsubscribe sid b =
     (b\<lparr>eb_subscriptions := AList.delete sid (eb_subscriptions b)\<rparr>, map_of (eb_subscriptions b) sid \<noteq> None)"

definition subscription_count :: "('c, 'r) event_bus \<Rightarrow> nat" where
  "subscription_count b = length (eb_subscriptions b)"

end
