(* ===== verification/Event_Log.thy ===== *)
theory Event_Log
  imports Event_Bus
begin

text \<open>
  Reading the event log back (\<open>load_event_log\<close> of \<open>src/src/kernel/event_bus.rs\<close> and the kernel's
  \<open>persist_event_log\<close> and \<open>restore_event_log\<close>), and what the bus promises: the ring holds the most
  recent events, the log on disk survives a restart, and a subscriber that polls often enough sees
  every event it asked for exactly once.
\<close>

section \<open>Loading\<close>

datatype log_error = LogIo | LogInvalidUtf8

definition load_line ::
  "event_codec \<Rightarrow> (nat \<times> sequenced_event) list \<Rightarrow> string \<Rightarrow> log_error + (nat \<times> sequenced_event) list" where
  "load_line C events line =
     (if \<not> utf8_valid line then Inl LogInvalidUtf8
      else if trim_is_empty line then Inr events
      else case ec_from_str C line of
             Some e \<Rightarrow> Inr (AList.update (se_seq e) e events)
           | None \<Rightarrow> Inr events)"

definition load_event_log :: "event_codec \<Rightarrow> bool \<Rightarrow> event_files \<Rightarrow> log_error + sequenced_event list" where
  "load_event_log C io_fails fs =
     (case ev_current fs of
        None \<Rightarrow> Inr []
      | Some bytes \<Rightarrow>
          if io_fails then Inl LogIo
          else res_bind (res_foldM (load_line C) [] (lines_of bytes)) (\<lambda>m. Inr (sort_key se_seq (map snd m))))"

text \<open>
  \<open>persist_event_log\<close> rewrites the file from the ring; \<open>written i\<close> tells how many bytes of the
  \<open>i\<close>-th line reached the file when its write failed.
\<close>

definition persisted_line :: "event_codec \<Rightarrow> (nat \<Rightarrow> nat option) \<Rightarrow> nat \<times> sequenced_event \<Rightarrow> string" where
  "persisted_line C written p =
     (case ec_to_string C (snd p) of
        None \<Rightarrow> []
      | Some json \<Rightarrow> (case written (fst p) of None \<Rightarrow> json @ [newline] | Some n \<Rightarrow> take n (json @ [newline])))"

definition persist_event_log ::
  "event_codec \<Rightarrow> bool \<Rightarrow> (nat \<Rightarrow> nat option) \<Rightarrow> ('c, 'r) event_bus \<Rightarrow> ('c, 'r) event_bus" where
  "persist_event_log C open_fails written b =
     (let events = snapshot_events b
      in if events = [] \<or> open_fails then b
         else b\<lparr>eb_files := (eb_files b)\<lparr>ev_current :=
                Some (concat (map (persisted_line C written) (enumerate 0 events)))\<rparr>\<rparr>)"

definition restore_event_log :: "event_codec \<Rightarrow> bool \<Rightarrow> ('c, 'r) event_bus \<Rightarrow> ('c, 'r) event_bus" where
  "restore_event_log C io_fails b =
     (case load_event_log C io_fails (eb_files b) of Inr events \<Rightarrow> restore_events events b | Inl _ \<Rightarrow> b)"

section \<open>What the codec promises\<close>

text \<open>
  Serialised events are single non-blank lines of UTF-8 that parse back to the event: \<open>serde_json\<close>
  writes an object on one line and escapes control characters.
\<close>

definition codec_ok :: "event_codec \<Rightarrow> sequenced_event set \<Rightarrow> bool" where
  "codec_ok C E = (\<forall>e \<in> E. \<exists>s. ec_to_string C e = Some s \<and> ec_from_str C s = Some e \<and> newline \<notin> set s
     \<and> strip_cr s = s \<and> \<not> trim_is_empty s \<and> utf8_valid s)"

definition event_line :: "event_codec \<Rightarrow> sequenced_event \<Rightarrow> string" where
  "event_line C e = the (ec_to_string C e)"

definition log_bytes :: "event_codec \<Rightarrow> sequenced_event list \<Rightarrow> string" where
  "log_bytes C es = concat (map (\<lambda>e. event_line C e @ [newline]) es)"

lemma event_line:
  assumes "codec_ok C E" "e \<in> E"
  shows "ec_to_string C e = Some (event_line C e)" "ec_from_str C (event_line C e) = Some e"
    "newline \<notin> set (event_line C e)" "strip_cr (event_line C e) = event_line C e"
    "\<not> trim_is_empty (event_line C e)" "utf8_valid (event_line C e)"
  using assms unfolding codec_ok_def event_line_def by (metis option.sel)+

lemma lines_of_log_bytes:
  "codec_ok C E \<Longrightarrow> set es \<subseteq> E \<Longrightarrow> lines_of (log_bytes C es) = map (event_line C) es"
  by (induction es) (simp_all add: log_bytes_def event_line [of C E] lines_of_line)

lemma update_new_key: "k \<notin> fst ` set m \<Longrightarrow> AList.update k v m = m @ [(k, v)]"
  by (induction m) auto

lemma load_lines:
  assumes "codec_ok C E" "set es \<subseteq> E" "distinct (map fst m @ map se_seq es)"
  shows "res_foldM (load_line C) m (map (event_line C) es) = Inr (m @ map (\<lambda>e. (se_seq e, e)) es)"
  using assms(2,3)
proof (induction es arbitrary: m)
  case (Cons e es)
  then have "AList.update (se_seq e) e m = m @ [(se_seq e, e)]"
    by (intro update_new_key) auto
  then show ?case using Cons assms(1) by (simp add: load_line_def event_line [of C E])
qed simp

lemma load_log_bytes:
  assumes "codec_ok C E" "set es \<subseteq> E" "sorted_wrt (<) (map se_seq es)" "ev_current fs = Some (log_bytes C es)"
  shows "load_event_log C False fs = Inr es"
proof -
  have "distinct (map se_seq es)" "sorted (map se_seq es)"
    using assms(3) by (simp_all add: strict_sorted_iff)
  then show ?thesis
    using load_lines [OF assms(1,2), of "[]"] lines_of_log_bytes [OF assms(1,2)]
    by (simp add: load_event_log_def assms(4) comp_def sorted_sort_id sort_key_id_if_sorted)
qed

section \<open>Runs of the bus\<close>

text \<open>The events of a run of \<open>emit\<close>, numbered from \<open>k\<close>.\<close>

fun emitted :: "nat \<Rightarrow> (emit_io \<times> kernel_event) list \<Rightarrow> sequenced_event list" where
  "emitted k [] = []"
| "emitted k ((io, e) # ems) = \<lparr>se_seq = k, se_timestamp_ms = io_event_ms io, se_event = e\<rparr> # emitted (Suc k) ems"

definition emit_all ::
  "('c, 'r) broadcast \<Rightarrow> event_codec \<Rightarrow> (emit_io \<times> kernel_event) list \<Rightarrow> ('c, 'r) event_bus \<Rightarrow> ('c, 'r) event_bus" where
  "emit_all B C ems b = fold (\<lambda>(io, e). emit B C io e) ems b"

lemma emit_all_simps [simp]:
  "emit_all B C [] b = b"
  "emit_all B C (ems @ [(io, e)]) b = emit B C io e (emit_all B C ems b)"
  by (simp_all add: emit_all_def)

lemma emitted_append: "emitted k (xs @ ys) = emitted k xs @ emitted (k + length xs) ys"
  by (induction k xs rule: emitted.induct) simp_all

lemma length_emitted [simp]: "length (emitted k ems) = length ems"
  by (induction k ems rule: emitted.induct) simp_all

lemma seq_emitted: "map se_seq (emitted k ems) = [k ..< k + length ems]"
  by (induction k ems rule: emitted.induct) (simp_all add: upt_rec)

lemma sorted_emitted: "sorted_wrt (<) (map se_seq (emitted k ems))"
  by (simp add: seq_emitted)

lemma event_emitted: "map se_event (emitted k ems) = map snd ems"
  by (induction k ems rule: emitted.induct) simp_all

lemma rotate_simps [simp]:
  "eb_next_seq (rotate_segment io b) = eb_next_seq b" "eb_event_log (rotate_segment io b) = eb_event_log b"
  "eb_sender (rotate_segment io b) = eb_sender b" "eb_persistent (rotate_segment io b) = eb_persistent b"
  "eb_subscriptions (rotate_segment io b) = eb_subscriptions b"
  by (simp_all add: rotate_segment_def Let_def split: option.split)

lemma emit_simps [simp]:
  "eb_next_seq (emit B C io e b) = eb_next_seq b + 1"
  "eb_event_log (emit B C io e b) =
     ring_push \<lparr>se_seq = eb_next_seq b, se_timestamp_ms = io_event_ms io, se_event = e\<rparr> (eb_event_log b)"
  "eb_sender (emit B C io e b) = bc_send B e (eb_sender b)"
  "eb_persistent (emit B C io e b) = eb_persistent b"
  "eb_subscriptions (emit B C io e b) = eb_subscriptions b"
  by (simp_all add: emit_def Let_def)

lemma emit_all_next_seq [simp]: "eb_next_seq (emit_all B C ems b) = eb_next_seq b + length ems"
  by (induction ems rule: rev_induct) auto

lemma emit_all_subscriptions [simp]: "eb_subscriptions (emit_all B C ems b) = eb_subscriptions b"
  by (induction ems rule: rev_induct) auto

text \<open>A ring that has seen the events numbered from one holds the last of them and knows the oldest.\<close>

definition ring_holds :: "ring_event_log \<Rightarrow> sequenced_event list \<Rightarrow> bool" where
  "ring_holds l h =
     (rl_events l = window (rl_max_capacity l) h
      \<and> rl_min_seq l = (if rl_max_capacity l < length h then length h - rl_max_capacity l + 1 else 0))"

lemma ring_push_holds:
  assumes "ring_holds l (emitted 1 ems)" "0 < rl_max_capacity l"
  shows "ring_holds (ring_push \<lparr>se_seq = 1 + length ems, se_timestamp_ms = t, se_event = e\<rparr> l)
      (emitted 1 ems @ [\<lparr>se_seq = 1 + length ems, se_timestamp_ms = t, se_event = e\<rparr>])"
proof (cases "rl_max_capacity l \<le> length ems")
  case True
  define k where "k = length ems - rl_max_capacity l"
  have "window (rl_max_capacity l) (emitted 1 ems) = drop k (emitted 1 ems)"
    by (simp add: window_def k_def)
  moreover have k: "k < length (emitted 1 ems)" using True assms(2) by (simp add: k_def)
  ultimately have w: "window (rl_max_capacity l) (emitted 1 ems) = emitted 1 ems ! k # drop (Suc k) (emitted 1 ems)"
    by (simp add: Cons_nth_drop_Suc)
  have "se_seq (emitted 1 ems ! k) = map se_seq (emitted 1 ems) ! k" using k by simp
  also have "\<dots> = 1 + k" using k unfolding seq_emitted by (subst nth_upt) simp_all
  finally have "se_seq (emitted 1 ems ! k) = 1 + k" .
  then show ?thesis
    using assms True w
    by (auto simp: ring_holds_def ring_push_def window_snoc window_length k_def)
next
  case False
  then show ?thesis
    using assms by (auto simp: ring_holds_def ring_push_def window_snoc window_length)
qed

lemma ring_emit_all:
  assumes "eb_event_log b = ring_new cap" "eb_next_seq b = 1" "0 < cap"
  shows "ring_holds (eb_event_log (emit_all B C ems b)) (emitted 1 ems)
    \<and> rl_max_capacity (eb_event_log (emit_all B C ems b)) = cap"
proof (induction ems rule: rev_induct)
  case Nil
  then show ?case using assms(1) by (simp add: ring_holds_def ring_new_def window_def)
next
  case (snoc p ems)
  obtain io e where p: "p = (io, e)" by fastforce
  have "ring_holds (ring_push \<lparr>se_seq = 1 + length ems, se_timestamp_ms = io_event_ms io, se_event = e\<rparr>
      (eb_event_log (emit_all B C ems b))) (emitted 1 (ems @ [p]))"
    using ring_push_holds [of "eb_event_log (emit_all B C ems b)" ems "io_event_ms io" e] snoc assms(3)
    by (simp add: p emitted_append)
  moreover have "rl_max_capacity (ring_push x l) = rl_max_capacity l" for x l
    by (simp add: ring_push_def split: list.split)
  ultimately show ?case using snoc assms(2) by (simp add: p)
qed

lemma filter_since_window:
  "filter (\<lambda>e. max s (length ems - cap) < se_seq e) (window cap (emitted 1 ems))
   = filter (\<lambda>e. s < se_seq e) (window cap (emitted 1 ems))"
proof (rule filter_cong [OF refl])
  fix x assume "x \<in> set (window cap (emitted 1 ems))"
  then have "se_seq x \<in> set (drop (length ems - cap) (map se_seq (emitted 1 ems)))"
    by (auto simp: window_def drop_map)
  then have "length ems - cap < se_seq x" unfolding seq_emitted drop_upt set_upt by simp
  then show "(max s (length ems - cap) < se_seq x) = (s < se_seq x)" by auto
qed

lemma events_since_exact:
  assumes "eb_event_log b = ring_new cap" "eb_next_seq b = 1" "0 < cap"
  shows "events_since (emit_all B C ems b) s = filter (\<lambda>e. s < se_seq e) (window cap (emitted 1 ems))"
proof -
  have "ring_holds (eb_event_log (emit_all B C ems b)) (emitted 1 ems)"
    "rl_max_capacity (eb_event_log (emit_all B C ems b)) = cap"
    using ring_emit_all [OF assms, of B C ems] by simp_all
  then show ?thesis
    using filter_since_window [of s ems cap]
    by (auto simp: events_since_def ring_since_def ring_holds_def Let_def)
qed

section \<open>The log survives a restart\<close>

definition fault_free :: "(emit_io \<times> kernel_event) list \<Rightarrow> bool" where
  "fault_free ems = (\<forall>(io, e) \<in> set ems. io_rotate io = None \<and> io_append io = None)"

definition empty_files :: event_files where
  "empty_files = \<lparr>ev_current = None, ev_archive = []\<rparr>"

text \<open>The current segment holds the bytes of the events after the first \<open>k\<close>.\<close>

definition file_holds :: "event_codec \<Rightarrow> ('c, 'r) event_bus \<Rightarrow> sequenced_event list \<Rightarrow> nat \<Rightarrow> bool" where
  "file_holds C b h k =
     (k \<le> length h \<and> ev_current (eb_files b) = (if h = [] then None else Some (log_bytes C (drop k h)))
      \<and> (h \<noteq> [] \<longrightarrow> k < length h))"

lemma log_bytes_snoc: "log_bytes C (es @ [e]) = log_bytes C es @ event_line C e @ [newline]"
  by (simp add: log_bytes_def)

lemma append_to_log_clean:
  "codec_ok C E \<Longrightarrow> e \<in> E \<Longrightarrow> ev_current (append_to_log C None e fs) =
     Some ((case ev_current fs of Some s \<Rightarrow> s | None \<Rightarrow> []) @ event_line C e @ [newline])"
  by (simp add: append_to_log_def event_line [of C E] Let_def)

lemma emit_file:
  assumes "codec_ok C E" "file_holds C b h k" "eb_persistent b" "io_rotate io = None" "io_append io = None"
    and e'_def: "e' = \<lparr>se_seq = eb_next_seq b, se_timestamp_ms = io_event_ms io, se_event = e\<rparr>" and "e' \<in> E"
  shows "file_holds C (emit B C io e b) (h @ [e']) k \<or> file_holds C (emit B C io e b) (h @ [e']) (length h)"
    and "\<not> should_rotate (io_check_ms io) (io_metadata_fails io) b \<Longrightarrow> file_holds C (emit B C io e b) (h @ [e']) k"
proof -
  define b1 where "b1 = b\<lparr>eb_next_seq := eb_next_seq b + 1, eb_event_log := ring_push e' (eb_event_log b),
                 eb_sender := bc_send B e (eb_sender b)\<rparr>"
  have same: "should_rotate now f b1 = should_rotate now f b" for now f
    by (simp add: should_rotate_def b1_def)
  have stay: "ev_current (eb_files (emit B C io e b)) = Some (log_bytes C (drop k (h @ [e'])))"
    if "\<not> should_rotate (io_check_ms io) (io_metadata_fails io) b"
    using that assms(2,3) append_to_log_clean [OF assms(1,7), of "eb_files b"] same
    by (auto simp: emit_def e'_def [symmetric] b1_def [symmetric] Let_def assms(5) file_holds_def log_bytes_snoc)
      (auto simp: b1_def log_bytes_def)
  then show "\<not> should_rotate (io_check_ms io) (io_metadata_fails io) b \<Longrightarrow> file_holds C (emit B C io e b) (h @ [e']) k"
    using assms(2) by (simp add: file_holds_def)
  have "ev_current (eb_files (emit B C io e b)) = Some (log_bytes C (drop (length h) (h @ [e'])))"
    if "should_rotate (io_check_ms io) (io_metadata_fails io) b"
    using that assms(3,4) append_to_log_clean [OF assms(1,7), of "eb_files (rotate_segment io b1)"] same
    by (simp add: emit_def e'_def [symmetric] b1_def [symmetric] Let_def assms(5))
      (auto simp: b1_def rotate_segment_def Let_def log_bytes_def split: option.splits)
  then show "file_holds C (emit B C io e b) (h @ [e']) k \<or> file_holds C (emit B C io e b) (h @ [e']) (length h)"
    using stay assms(2) by (auto simp: file_holds_def)
qed

lemma emit_all_file:
  assumes "codec_ok C E" "fault_free ems" "set (emitted 1 ems) \<subseteq> E" "eb_persistent b" "ev_current (eb_files b) = None" "eb_next_seq b = 1"
  shows "eb_persistent (emit_all B C ems b) \<and> (\<exists>k. file_holds C (emit_all B C ems b) (emitted 1 ems) k)"
  using assms(2,3)
proof (induction ems rule: rev_induct)
  case Nil
  then show ?case using assms(4,5) by (simp add: file_holds_def)
next
  case (snoc p ems)
  obtain io e where p: "p = (io, e)" by fastforce
  from snoc obtain k where k: "eb_persistent (emit_all B C ems b)" "file_holds C (emit_all B C ems b) (emitted 1 ems) k"
    by (auto simp: fault_free_def emitted_append)
  have em: "emitted 1 (ems @ [p]) = emitted 1 ems @
      [\<lparr>se_seq = eb_next_seq (emit_all B C ems b), se_timestamp_ms = io_event_ms io, se_event = e\<rparr>]"
    by (simp add: p emitted_append assms(6))
  then show ?case
    using emit_file(1) [where B = B and e = e and io = io, OF assms(1) k(2,1) _ _ refl] snoc.prems(1) k(1)
      snoc.prems(2) [unfolded em]
    by (simp add: p fault_free_def) blast
qed

lemma rotation_state:
  "eb_segment_start_ms (emit B C io e b) =
     (if should_rotate (io_check_ms io) (io_metadata_fails io) b then eb_segment_start_ms (emit B C io e b) else eb_segment_start_ms b)"
  "eb_rotation_interval_ms (emit B C io e b) = eb_rotation_interval_ms b"
  by (auto simp: emit_def Let_def should_rotate_def rotate_segment_def split: option.splits)

text \<open>While the interval has not passed and the segment is small, nothing is rotated.\<close>

lemma emit_all_no_rotation:
  assumes "codec_ok C E" "fault_free ems" "set (emitted 1 ems) \<subseteq> E" "eb_persistent b" "ev_current (eb_files b) = None" "eb_next_seq b = 1"
    and "\<forall>(io, e) \<in> set ems. io_check_ms io - eb_segment_start_ms b < eb_rotation_interval_ms b"
    and "length (log_bytes C (emitted 1 ems)) < MAX_SEGMENT_BYTES"
  shows "file_holds C (emit_all B C ems b) (emitted 1 ems) 0
    \<and> eb_segment_start_ms (emit_all B C ems b) = eb_segment_start_ms b
    \<and> eb_rotation_interval_ms (emit_all B C ems b) = eb_rotation_interval_ms b"
  using assms(2,3,7,8)
proof (induction ems rule: rev_induct)
  case Nil
  then show ?case using assms(5) by (simp add: file_holds_def)
next
  case (snoc p ems)
  obtain io e where p: "p = (io, e)" by fastforce
  let ?b = "emit_all B C ems b"
  have IH: "file_holds C ?b (emitted 1 ems) 0" "eb_segment_start_ms ?b = eb_segment_start_ms b"
      "eb_rotation_interval_ms ?b = eb_rotation_interval_ms b"
    using snoc by (auto simp: fault_free_def emitted_append log_bytes_def)
  have persistent: "eb_persistent ?b" using emit_all_file [OF assms(1) _ _ assms(4-6)] snoc.prems(1,2)
    by (auto simp: fault_free_def emitted_append)
  have small: "length (log_bytes C (emitted 1 ems)) < MAX_SEGMENT_BYTES"
    using snoc.prems(4) by (simp add: emitted_append log_bytes_def)
  have no: "\<not> should_rotate (io_check_ms io) (io_metadata_fails io) ?b"
    using IH small snoc.prems(3) unfolding should_rotate_def
    by (auto simp: p file_holds_def Let_def split: option.splits if_splits)
  have em: "emitted 1 (ems @ [p]) = emitted 1 ems @
      [\<lparr>se_seq = eb_next_seq ?b, se_timestamp_ms = io_event_ms io, se_event = e\<rparr>]"
    by (simp add: p emitted_append assms(6))
  then show ?case
    using emit_file(2) [OF assms(1) IH(1) persistent _ _ refl _ no] snoc.prems(1) snoc.prems(2) [unfolded em] IH rotation_state [of B C io e ?b] no
    by (simp add: p fault_free_def)
qed

lemma fold_max_sorted: "sorted (xs @ [x]) \<Longrightarrow> m \<le> x \<Longrightarrow> fold max (xs @ [x]) m = (x :: nat)"
  by (induction xs arbitrary: m) (auto simp: max_def)

text \<open>
  C40: the event log survives a restart.  After any number of events emitted on a fresh persistent
  bus without I/O faults, loading the log succeeds and gives the most recent events in order, at
  least the last one; a bus restored from them continues with the same sequence number and shows
  what it loaded, up to the capacity of its ring.  If neither the rotation interval has passed nor
  the segment has grown to its limit, it loads every event.
\<close>

theorem event_log_survives_restart:
  assumes "codec_ok C (set (emitted 1 ems))" "fault_free ems" "ems \<noteq> []"
  shows "let b = emit_all B C ems (bus_with_rotation B now empty_files interval retention) in
    \<exists>events. load_event_log C False (eb_files b) = Inr events
      \<and> suffix events (emitted 1 ems) \<and> events \<noteq> []
      \<and> current_seq (restore_events events (with_persistence B' now' (eb_files b))) = current_seq b
      \<and> snapshot_events (restore_events events (with_persistence B' now' (eb_files b)))
          = window DEFAULT_EVENT_LOG_CAPACITY events
      \<and> ((\<forall>(io, e) \<in> set ems. io_check_ms io - now < interval)
           \<and> length (log_bytes C (emitted 1 ems)) < MAX_SEGMENT_BYTES \<longrightarrow> events = emitted 1 ems)"
proof -
  let ?b0 = "bus_with_rotation B now empty_files interval retention"
  define b where "b = emit_all B C ems ?b0"
  have b0: "eb_persistent ?b0" "ev_current (eb_files ?b0) = None" "eb_next_seq ?b0 = 1"
    by (simp_all add: bus_with_rotation_def empty_files_def)
  obtain k where k: "file_holds C b (emitted 1 ems) k"
      "(\<forall>(io, e) \<in> set ems. io_check_ms io - now < interval)
        \<and> length (log_bytes C (emitted 1 ems)) < MAX_SEGMENT_BYTES \<longrightarrow> k = 0"
    using emit_all_file [OF assms(1,2) subset_refl b0, of B] emit_all_no_rotation [OF assms(1,2) subset_refl b0, of B] unfolding b_def
    by (simp add: bus_with_rotation_def) metis
  define events where "events = drop k (emitted 1 ems)"
  have kl: "k < length ems" "ev_current (eb_files b) = Some (log_bytes C events)"
    using k(1) assms(3) by (cases ems; auto simp: file_holds_def events_def)+
  have ne: "events \<noteq> []" using kl by (simp add: events_def)
  have seqs: "map se_seq events = [Suc k ..< length ems] @ [length ems]"
  proof -
    have "map se_seq events = [1 + k ..< 1 + length ems]"
      unfolding events_def drop_map [symmetric] seq_emitted drop_upt ..
    then show ?thesis using upt_Suc_append [of "Suc k" "length ems"] kl(1) by simp
  qed
  have "load_event_log C False (eb_files b) = Inr events"
    by (rule load_log_bytes [OF assms(1) _ _ kl(2)])
      (use seqs kl(1) in \<open>auto simp: sorted_wrt_append events_def dest: in_set_dropD\<close>)
  moreover have "fold max (map se_seq events) 0 = length ems"
    unfolding seqs by (rule fold_max_sorted) (simp_all add: sorted_append)
  moreover have "current_seq b = 1 + length ems" by (simp add: current_seq_def b_def b0(3))
  moreover have "snapshot_events (restore_events events (with_persistence B' now' (eb_files b)))
      = window DEFAULT_EVENT_LOG_CAPACITY events"
    by (simp add: snapshot_events_def restore_events_def with_persistence_def ring_new_def ring_restore_def
        window_def Let_def)
  ultimately show ?thesis
    unfolding b_def [symmetric] Let_def
    using ne k(2) by (auto simp: current_seq_def restore_events_def events_def suffix_drop)
qed

text \<open>A channel that keeps everything it was sent, and a codec that knows two events.\<close>

definition sent_channel :: "nat \<Rightarrow> (kernel_event list, nat) broadcast" where
  "sent_channel cap =
     \<lparr>bc_channel = (\<lambda>_. []), bc_send = (\<lambda>e c. c @ [e]), bc_subscribe = (\<lambda>c. (c, length c)),
      bc_try_recv = (\<lambda>c r. if length c \<le> r then (r, RecvEmpty)
                           else if length c - r \<le> cap then (r + 1, RecvOk (c ! r))
                           else (length c - cap, RecvLagged (length c - r - cap)))\<rparr>"

lemma sent_channel_laws:
  "broadcast_laws (sent_channel cap) cap (\<lambda>c r. r \<le> length c) (\<lambda>c r. drop r c)"
  unfolding broadcast_laws_def sent_channel_def
  by (auto simp: drop_Suc nth_via_drop tl_drop [symmetric] Suc_diff_le)

definition clean_io :: "nat \<Rightarrow> emit_io" where
  "clean_io now = \<lparr>io_event_ms = now, io_check_ms = now, io_reset_ms = now, io_metadata_fails = False,
     io_rotate = None, io_kept_archives = [], io_append = None\<rparr>"

definition demo_events :: "(emit_io \<times> kernel_event) list" where
  "demo_events = [(clean_io 5, MemoryStored ''ann'' ''working''), (clean_io 6, IntentCompleted ''i1'' True)]"

definition demo_codec :: event_codec where
  "demo_codec =
     \<lparr>ec_to_string = (\<lambda>e. if e = emitted 1 demo_events ! 0 then Some ''{1}''
                          else if e = emitted 1 demo_events ! 1 then Some ''{2}'' else None),
      ec_from_str = (\<lambda>s. if s = ''{1}'' then Some (emitted 1 demo_events ! 0)
                         else if s = ''{2}'' then Some (emitted 1 demo_events ! 1) else None)\<rparr>"

lemma demo_codec_ok: "codec_ok demo_codec (set (emitted 1 demo_events))"
proof -
  have "newline \<notin> set ''{1}''" "strip_cr ''{1}'' = ''{1}''" "\<not> trim_is_empty ''{1}''" "utf8_valid ''{1}''"
    "newline \<notin> set ''{2}''" "strip_cr ''{2}'' = ''{2}''" "\<not> trim_is_empty ''{2}''" "utf8_valid ''{2}''"
    by code_simp+
  then show ?thesis by (simp add: codec_ok_def demo_codec_def demo_events_def)
qed

theorem event_log_survives_restart_witness:
  "load_event_log demo_codec False
     (eb_files (emit_all (sent_channel 4096) demo_codec demo_events (bus_with_rotation (sent_channel 4096) 5 empty_files 1000 4)))
   = Inr (emitted 1 demo_events)"
proof -
  have "fault_free demo_events" "demo_events \<noteq> []"
    "length (log_bytes demo_codec (emitted 1 demo_events)) = 8"
    by code_simp+
  moreover have "\<forall>(io, e) \<in> set demo_events. io_check_ms io - 5 < 1000"
    by (simp add: demo_events_def clean_io_def)
  ultimately show ?thesis
    using event_log_survives_restart [OF demo_codec_ok, of "sent_channel 4096" 5 1000 4 "sent_channel 4096" 5]
    by (auto simp: Let_def MAX_SEGMENT_BYTES_def)
qed

section \<open>Delivery\<close>

text \<open>A subscriber's view: what its receiver has not seen yet.\<close>

definition outstanding ::
  "('c \<Rightarrow> 'r \<Rightarrow> bool) \<Rightarrow> ('c \<Rightarrow> 'r \<Rightarrow> kernel_event list) \<Rightarrow> string \<Rightarrow> event_filter option \<Rightarrow> kernel_event list
   \<Rightarrow> ('c, 'r) event_bus \<Rightarrow> bool" where
  "outstanding valid pend sid f es b =
     (\<exists>sub. map_of (eb_subscriptions b) sid = Some sub \<and> sb_filter sub = f
        \<and> valid (eb_sender b) (sb_receiver sub) \<and> pend (eb_sender b) (sb_receiver sub) = es)"

lemma broadcast_lawsD:
  assumes "broadcast_laws B cap valid pend"
  shows "valid (fst (bc_subscribe B c)) (snd (bc_subscribe B c))"
    "pend (fst (bc_subscribe B c)) (snd (bc_subscribe B c)) = []"
    "valid c r \<Longrightarrow> valid (bc_send B e c) r"
    "valid c r \<Longrightarrow> pend (bc_send B e c) r = pend c r @ [e]"
    "valid c r \<Longrightarrow> valid c (fst (bc_try_recv B c r))"
    "valid c r \<Longrightarrow> pend c r = [] \<Longrightarrow> snd (bc_try_recv B c r) = RecvEmpty \<and> pend c (fst (bc_try_recv B c r)) = []"
    "valid c r \<Longrightarrow> pend c r = x # xs \<Longrightarrow> length (pend c r) \<le> cap \<Longrightarrow>
       snd (bc_try_recv B c r) = RecvOk x \<and> pend c (fst (bc_try_recv B c r)) = xs"
    "valid c r \<Longrightarrow> cap < length (pend c r) \<Longrightarrow>
       snd (bc_try_recv B c r) = RecvLagged (length (pend c r) - cap)
       \<and> pend c (fst (bc_try_recv B c r)) = drop (length (pend c r) - cap) (pend c r)"
  using assms unfolding broadcast_laws_def by blast+

lemma emit_outstanding:
  assumes "broadcast_laws B cap valid pend" "outstanding valid pend sid f es b"
  shows "outstanding valid pend sid f (es @ map snd ems) (emit_all B C ems b)"
proof (induction ems rule: rev_induct)
  case Nil
  then show ?case using assms(2) by simp
next
  case (snoc p ems)
  obtain io e where p: "p = (io, e)" by fastforce
  then show ?case using snoc broadcast_lawsD(3,4) [OF assms(1)] unfolding outstanding_def p by auto
qed

lemma poll_loop_delivers:
  assumes "broadcast_laws B cap valid pend" "valid c r" "pend c r = es" "length es \<le> cap"
  shows "\<exists>r'. poll_loop B c f recovered r acc = Some (r', acc @ filter (wanted f) es) \<and> valid c r' \<and> pend c r' = []"
  using assms(2-4)
proof (induction es arbitrary: r acc)
  case Nil
  then show ?case
    using broadcast_lawsD(5,6) [OF assms(1)]
    by (subst poll_loop.simps) (auto simp: case_prod_beta)
next
  case (Cons x xs)
  define r1 where "r1 = fst (bc_try_recv B c r)"
  have step: "bc_try_recv B c r = (r1, RecvOk x)" "valid c r1" "pend c r1 = xs"
    using broadcast_lawsD(5,7) [OF assms(1)] Cons.prems by (auto simp: r1_def prod_eq_iff)
  have "\<exists>r'. poll_loop B c f recovered r1 (if wanted f x then acc @ [x] else acc)
      = Some (r', (if wanted f x then acc @ [x] else acc) @ filter (wanted f) xs) \<and> valid c r' \<and> pend c r' = []"
    by (rule Cons.IH) (use step Cons.prems in simp_all)
  then show ?case by (subst poll_loop.simps) (auto simp: step(1))
qed

lemma poll_outstanding:
  assumes "broadcast_laws B cap valid pend" "outstanding valid pend sid f es b" "length es \<le> cap"
  shows "\<exists>b'. poll B sid b = Some (b', Some (filter (wanted f) es)) \<and> outstanding valid pend sid f [] b'"
proof -
  obtain sub where sub: "map_of (eb_subscriptions b) sid = Some sub" "sb_filter sub = f"
      "valid (eb_sender b) (sb_receiver sub)" "pend (eb_sender b) (sb_receiver sub) = es"
    using assms(2) by (auto simp: outstanding_def)
  from poll_loop_delivers [OF assms(1) sub(3,4) assms(3),
      of f "map se_event (ring_since (eb_event_log b) (sb_last_seen_seq sub))" "[]"]
  obtain r where "poll_loop B (eb_sender b) f (map se_event (ring_since (eb_event_log b) (sb_last_seen_seq sub)))
      (sb_receiver sub) [] = Some (r, filter (wanted f) es)" "valid (eb_sender b) r" "pend (eb_sender b) r = []"
    by auto
  then show ?thesis
    using sub(1,2) by (simp add: poll_def outstanding_def update_conv')
qed

text \<open>Rounds of events, each followed by a poll of the subscription.\<close>

fun poll_rounds ::
  "('c, 'r) broadcast \<Rightarrow> event_codec \<Rightarrow> string \<Rightarrow> (emit_io \<times> kernel_event) list list \<Rightarrow> ('c, 'r) event_bus
   \<Rightarrow> kernel_event list option list option" where
  "poll_rounds B C sid [] b = Some []"
| "poll_rounds B C sid (ems # rounds) b =
     (case poll B sid (emit_all B C ems b) of
        None \<Rightarrow> None
      | Some (b', r) \<Rightarrow> map_option (Cons r) (poll_rounds B C sid rounds b'))"

text \<open>
  C39: a subscriber that keeps up misses nothing and sees nothing twice.  If at most as many events
  are emitted between two polls as the channel holds, every poll of a subscription returns, and it
  returns exactly the events emitted since the previous poll (or since subscribing) that pass the
  filter, in the order of their emission.
\<close>

theorem polls_deliver_exactly_once:
  assumes "broadcast_laws B DEFAULT_BROADCAST_CAPACITY valid pend"
    and "subscribe_filtered B f b = (b', sid)"
    and "\<forall>ems \<in> set rounds. length ems \<le> DEFAULT_BROADCAST_CAPACITY"
  shows "poll_rounds B C sid rounds b' = Some (map (\<lambda>ems. Some (filter (wanted f) (map snd ems))) rounds)"
proof -
  have rounds: "poll_rounds B C sid rounds d = Some (map (\<lambda>ems. Some (filter (wanted f) (map snd ems))) rounds)"
    if "outstanding valid pend sid f [] d" for d
    using that assms(3)
  proof (induction rounds arbitrary: d)
    case (Cons ems rounds)
    have "outstanding valid pend sid f (map snd ems) (emit_all B C ems d)"
      using emit_outstanding [OF assms(1) Cons.prems(1), of ems C] by simp
    from poll_outstanding [OF assms(1) this] Cons.prems(2) obtain d' where
      "poll B sid (emit_all B C ems d) = Some (d', Some (filter (wanted f) (map snd ems)))"
      "outstanding valid pend sid f [] d'" by auto
    then show ?case using Cons.IH [of d'] Cons.prems(2) by simp
  qed simp
  have "outstanding valid pend sid f [] b'"
    using assms(2) broadcast_lawsD(1,2) [OF assms(1), of "eb_sender b"]
    by (auto simp: subscribe_filtered_def outstanding_def case_prod_beta Let_def update_conv')
  then show ?thesis by (rule rounds)
qed

theorem polls_deliver_exactly_once_witness:
  "let f = Some \<lparr>ef_event_types = None, ef_agent_ids = Some [''ann'']\<rparr>;
       (b, sid) = subscribe_filtered (sent_channel DEFAULT_BROADCAST_CAPACITY) f (event_bus_new (sent_channel DEFAULT_BROADCAST_CAPACITY) 0)
   in poll_rounds (sent_channel DEFAULT_BROADCAST_CAPACITY) demo_codec sid [demo_events, [], demo_events] b
      = Some [Some [MemoryStored ''ann'' ''working''], Some [], Some [MemoryStored ''ann'' ''working'']]"
proof -
  let ?f = "Some \<lparr>ef_event_types = None, ef_agent_ids = Some [''ann'']\<rparr>" and ?B = "sent_channel DEFAULT_BROADCAST_CAPACITY"
  obtain b sid where b: "subscribe_filtered ?B ?f (event_bus_new ?B 0) = (b, sid)" by fastforce
  have "filter (wanted ?f) (map snd demo_events) = [MemoryStored ''ann'' ''working'']" by code_simp
  moreover have "length demo_events \<le> DEFAULT_BROADCAST_CAPACITY"
    by (simp add: demo_events_def DEFAULT_BROADCAST_CAPACITY_def)
  ultimately show ?thesis
    using polls_deliver_exactly_once [OF sent_channel_laws b, of "[demo_events, [], demo_events]" demo_codec] b
    by simp
qed

section \<open>A subscriber that lags\<close>

text \<open>
  When more is outstanding than the channel holds, the poll is answered from the event log: with the
  events numbered above the position noted at the last poll that returned something.  That position
  is the number of the next event, so the first event after it is left out, and the receiver then
  delivers the last events of the channel once more.
\<close>

lemma lagging_poll:
  assumes "broadcast_laws B cap valid pend" "map_of (eb_subscriptions b) sid = Some sub"
    and "valid (eb_sender b) (sb_receiver sub)" "cap < length (pend (eb_sender b) (sb_receiver sub))"
  shows "\<exists>r. poll_loop B (eb_sender b) f recovered (sb_receiver sub) [] = Some (r, filter (wanted f) recovered)
    \<and> pend (eb_sender b) r = drop (length (pend (eb_sender b) (sb_receiver sub)) - cap) (pend (eb_sender b) (sb_receiver sub))"
  using broadcast_lawsD(8) [OF assms(1,3,4)] by (subst poll_loop.simps) (auto simp: case_prod_beta)

lemma recovery_skips_first:
  assumes "eb_event_log b = ring_new cap" "eb_next_seq b = 1" "length ems < cap" "0 < cap"
  shows "map se_event (events_since (emit_all B C (p # ems) b) (eb_next_seq b)) = map snd ems"
proof -
  obtain io e where p: "p = (io, e)" by fastforce
  have "1 < se_seq x" if "x \<in> set (emitted 2 ems)" for x
  proof -
    have "se_seq x \<in> set [2 ..< 2 + length ems]"
      unfolding seq_emitted [symmetric] using that by simp
    then show ?thesis unfolding set_upt by simp
  qed
  then have "filter (\<lambda>e. 1 < se_seq e) (emitted 2 ems) = emitted 2 ems"
    by (simp add: filter_id_conv)
  then show ?thesis
    using events_since_exact [OF assms(1,2,4), of B C "p # ems" 1] assms(2,3) event_emitted [of 2 ems]
    by (simp add: p window_def numeral_2_eq_2)
qed

end
