(* ===== verification/Projection_Manifest.thy ===== *)
theory Projection_Manifest
  imports Ledger_Access "HOL-Library.AList" "HOL-Library.Sublist"
begin

text \<open>
  The projection manifest (\<open>src/src/memory/projection/model.rs\<close>, \<open>hash.rs\<close>, \<open>validate.rs\<close> and
  \<open>current_view.rs\<close>): which embedding stands for which revision of a memory, as a log of records
  whose replay gives the current view.  UUIDs are numbers with nil as 0; parsing and printing them,
  name-based UUIDs, SHA-256 and canonical JSON are parameters.  The checks of embedding vectors
  themselves are floating-point code and are not modelled.
\<close>

section \<open>Records\<close>

type_synonym uuid = nat

datatype projection_kind = MemoryEmbedding
datatype embedding_input_contract = MemoryTextUtf8V1
datatype embedding_operation_contract = DocumentV1
datatype embedding_normalization = ProviderNative | L2AfterMatryoshkaTruncationV1

definition BUILDER_SPEC_SCHEMA :: string where "BUILDER_SPEC_SCHEMA = ''plico.projection.builder-spec/v1''"
definition MANIFEST_RECORD_SCHEMA :: string where "MANIFEST_RECORD_SCHEMA = ''plico.projection.manifest-record/v1''"
definition PROJECTION_VIEW_SCHEMA :: string where "PROJECTION_VIEW_SCHEMA = ''plico.projection.current-view/v1''"
definition EMBEDDING_ARTIFACT_SCHEMA :: string where
  "EMBEDDING_ARTIFACT_SCHEMA = ''plico.projection.embedding-artifact/v1''"
definition MAX_EMBEDDING_DIMENSION :: nat where "MAX_EMBEDDING_DIMENSION = 65536"
definition MAX_EMBEDDING_ARTIFACT_BYTES :: nat where "MAX_EMBEDDING_ARTIFACT_BYTES = 8 * 1024 * 1024"
definition JCS_SAFE_INTEGER :: nat where "JCS_SAFE_INTEGER = 9007199254740991"
definition PROJECTION_WORKER_ROLE :: string where "PROJECTION_WORKER_ROLE = ''projection-worker''"

record canonical_watermark =
  cw_root_hash :: string
  cw_generation :: nat
  cw_revision_watermark :: nat
  cw_policy_watermark :: nat
  cw_relation_watermark :: nat

record builder_spec =
  bs_schema :: string
  bs_projection_kind :: projection_kind
  bs_builder_id :: string
  bs_builder_version :: string
  bs_provider_family :: string
  bs_provider_compatibility_id :: string
  bs_model_id :: string
  bs_raw_dimension :: nat
  bs_dimension :: nat
  bs_input_contract :: embedding_input_contract
  bs_operation_contract :: embedding_operation_contract
  bs_normalization :: embedding_normalization
  bs_transform_contract_id :: string
  bs_artifact_schema :: string

record artifact_descriptor =
  ad_artifact_hash :: string
  ad_byte_length :: nat
  ad_artifact_schema :: string
  ad_dimension :: nat
  ad_source_revision_id :: string
  ad_source_content_hash :: string
  ad_builder_spec_hash :: string

datatype absent_reason = Superseded | Deleted | UnsupportedTier | UnsupportedContent | BlankText
datatype queue_reason = CanonicalCommit | Reconciliation | Retry | OwnerRebuild | BuilderChanged | LeaseExpired
datatype stale_reason =
    BuilderSpecChanged | ArtifactMissing | ArtifactHashMismatch | ArtifactInvalid | StaleOwnerRebuild
datatype failure_category =
    ProviderUnavailable | ProviderIdentityChanged | InvalidProjection | ArtifactStoreUnavailable

datatype projection_state =
    PAbsent absent_reason
  | PQueued queue_reason
  | PBuilding nat uuid nat
  | PReady nat uuid artifact_descriptor
  | PFailed nat uuid failure_category bool "nat option"
  | PStale stale_reason artifact_descriptor

datatype manifest_event =
    BuilderActivated projection_kind builder_spec string "string option"
  | ProjectionTransition uuid projection_kind nat "nat option" canonical_source_identity string projection_state
  | ReconciliationAdvanced canonical_watermark canonical_watermark nat

record manifest_record =
  mr_schema :: string
  mr_sequence :: nat
  mr_committed_at :: nat
  mr_committed_by_role :: string
  mr_event :: manifest_event

record projection_entry =
  pe_projection_id :: uuid
  pe_projection_kind :: projection_kind
  pe_projection_version :: nat
  pe_last_transition_sequence :: nat
  pe_attempt_count :: nat
  pe_source :: canonical_source_identity
  pe_desired_builder_spec_hash :: string
  pe_state :: projection_state

record active_builder_spec =
  ab_projection_kind :: projection_kind
  ab_builder_spec_hash :: string
  ab_builder_spec :: builder_spec

record projection_current_view =
  pv_schema :: string
  pv_generation :: nat
  pv_event_watermark :: nat
  pv_reconciled_source :: canonical_watermark
  pv_active_builder_specs :: "active_builder_spec list"
  pv_entries :: "projection_entry list"

datatype projection_error =
    PIo io_error
  | PSerialization
  | PInvalid string
  | PUnsupportedFormat string
  | PAllEligibleRequired
  | PHeadConflict
  | PCommitIndeterminate
  | PWriterPoisoned
  | PArtifactRepairRequired nat
  | PArtifactMaintenanceRequired
  | PProjectionMaintenanceRequired
  | PResetPending
  | PManualInterventionRequired
  | PArtifactStoreUnavailable

abbreviation invalid :: "string \<Rightarrow> projection_error" where
  "invalid \<equiv> PInvalid"

section \<open>Hashes and identifiers\<close>

record penv =
  px_parse_uuid :: "string \<Rightarrow> uuid option"
  px_hyphenated :: "uuid \<Rightarrow> string"
  px_new_v5 :: "uuid \<Rightarrow> string \<Rightarrow> uuid"
  px_namespace_url :: uuid
  px_sha256_hex :: "string \<Rightarrow> string"
  px_jcs_builder :: "builder_spec \<Rightarrow> string option"

definition projection_id :: "penv \<Rightarrow> string \<Rightarrow> projection_error + uuid" where
  "projection_id x revision_id =
     res_bind (ok_or (px_parse_uuid x revision_id) (invalid ''invalid_projection_revision_id'')) (\<lambda>revision.
     res_bind (ensure (\<not> (revision = 0 \<or> px_hyphenated x revision \<noteq> revision_id))
                 (invalid ''non_canonical_projection_revision_id'')) (\<lambda>_.
     let namespace = px_new_v5 x (px_namespace_url x) ''https://plico.ai/schema/projection/v1'';
         name = ''memory_embedding'' @ [CHR 0x00] @ px_hyphenated x revision
     in Inr (px_new_v5 x namespace name)))"

definition builder_spec_hash :: "penv \<Rightarrow> builder_spec \<Rightarrow> projection_error + string" where
  "builder_spec_hash x spec =
     res_bind (ok_or (px_jcs_builder x spec) (invalid ''projection_jcs_canonicalization_failed'')) (\<lambda>bytes.
     Inr (px_sha256_hex x (''plico.projection.builder-spec.v1'' @ [CHR 0x00] @ bytes)))"

definition validate_projection_hash :: "string \<Rightarrow> projection_error + unit" where
  "validate_projection_hash value =
     ensure (length value = 64 \<and> list_all is_hex_byte value) (invalid ''invalid_projection_hash'')"

section \<open>Validation\<close>

definition validate_watermark :: "canonical_watermark \<Rightarrow> projection_error + unit" where
  "validate_watermark w =
     res_bind (validate_projection_hash (cw_root_hash w)) (\<lambda>_.
     ensure (\<not> (list_ex (\<lambda>n. JCS_SAFE_INTEGER < n)
                [cw_generation w, cw_revision_watermark w, cw_policy_watermark w, cw_relation_watermark w]
              \<or> cw_revision_watermark w = 0 \<and> (cw_policy_watermark w \<noteq> 0 \<or> cw_relation_watermark w \<noteq> 0)))
       (invalid ''invalid_canonical_watermark''))"

definition is_ascii_graphic :: "char \<Rightarrow> bool" where
  "is_ascii_graphic c = (let b = of_char c :: nat in 33 \<le> b \<and> b \<le> 126)"

definition safe_identifier :: "string \<Rightarrow> bool" where
  "safe_identifier s =
     (s \<noteq> [] \<and> length s \<le> 256 \<and> \<not> sublist ''://'' s
      \<and> list_all (\<lambda>c. is_ascii_graphic c \<and> c \<notin> {CHR 0x22, CHR 0x27, CHR 0x5C}) s)"

fun valid_transform :: "builder_spec \<Rightarrow> bool" where
  "valid_transform s =
     (case bs_normalization s of
        ProviderNative \<Rightarrow> bs_raw_dimension s = bs_dimension s \<and> bs_transform_contract_id s = ''provider-native-document-v1''
      | L2AfterMatryoshkaTruncationV1 \<Rightarrow>
          bs_dimension s < bs_raw_dimension s \<and> bs_transform_contract_id s = ''plico-matryoshka-truncate-l2-v1'')"

definition validate_builder_spec :: "builder_spec \<Rightarrow> projection_error + unit" where
  "validate_builder_spec s =
     ensure (bs_schema s = BUILDER_SPEC_SCHEMA \<and> bs_projection_kind s = MemoryEmbedding
       \<and> safe_identifier (bs_builder_id s) \<and> safe_identifier (bs_builder_version s)
       \<and> safe_identifier (bs_provider_family s) \<and> safe_identifier (bs_provider_compatibility_id s)
       \<and> safe_identifier (bs_model_id s) \<and> bs_raw_dimension s \<noteq> 0 \<and> bs_raw_dimension s \<le> MAX_EMBEDDING_DIMENSION
       \<and> bs_dimension s \<noteq> 0 \<and> bs_dimension s \<le> MAX_EMBEDDING_DIMENSION \<and> bs_dimension s \<le> bs_raw_dimension s
       \<and> bs_input_contract s = MemoryTextUtf8V1 \<and> bs_operation_contract s = DocumentV1
       \<and> valid_transform s \<and> bs_artifact_schema s = EMBEDDING_ARTIFACT_SCHEMA)
       (invalid ''invalid_builder_spec'')"

definition validate_builder_hash :: "penv \<Rightarrow> builder_spec \<Rightarrow> string \<Rightarrow> projection_error + unit" where
  "validate_builder_hash x s expected =
     res_bind (validate_builder_spec s) (\<lambda>_.
     res_bind (validate_projection_hash expected) (\<lambda>_.
     res_bind (builder_spec_hash x s) (\<lambda>h.
     ensure (h = expected) (invalid ''builder_spec_hash_mismatch''))))"

definition projection_uuid :: "penv \<Rightarrow> string \<Rightarrow> projection_error + uuid" where
  "projection_uuid x s =
     res_bind (ok_or (px_parse_uuid x s) (invalid ''invalid_projection_uuid'')) (\<lambda>parsed.
     res_bind (ensure (px_hyphenated x parsed = s) (invalid ''non_canonical_projection_uuid'')) (\<lambda>_. Inr parsed))"

definition validate_source :: "penv \<Rightarrow> canonical_source_identity \<Rightarrow> projection_error + unit" where
  "validate_source x v =
     res_bind (ensure (\<not> (si_canonical_kind v \<noteq> ''memory_revision'' \<or> si_memory_id v = [] \<or> si_revision_id v = []
                 \<or> si_revision_sequence v = 0 \<or> JCS_SAFE_INTEGER < si_revision_sequence v))
                 (invalid ''invalid_projection_source'')) (\<lambda>_.
     res_bind (projection_uuid x (si_memory_id v)) (\<lambda>memory_id.
     res_bind (projection_uuid x (si_revision_id v)) (\<lambda>revision_id.
     res_bind (if memory_id = 0 \<or> revision_id = 0 then Inr True
               else res_bind (projection_id x (si_revision_id v)) (\<lambda>p. Inr (p = 0))) (\<lambda>nil.
     res_bind (ensure (\<not> nil) (invalid ''invalid_projection_source'')) (\<lambda>_.
     validate_projection_hash (si_content_hash v))))))"

definition validate_descriptor :: "penv \<Rightarrow> artifact_descriptor \<Rightarrow> projection_error + unit" where
  "validate_descriptor x d =
     res_bind (validate_projection_hash (ad_artifact_hash d)) (\<lambda>_.
     res_bind (validate_projection_hash (ad_source_content_hash d)) (\<lambda>_.
     res_bind (validate_projection_hash (ad_builder_spec_hash d)) (\<lambda>_.
     ensure (\<not> (ad_byte_length d = 0 \<or> MAX_EMBEDDING_ARTIFACT_BYTES < ad_byte_length d
         \<or> JCS_SAFE_INTEGER < ad_byte_length d \<or> ad_artifact_schema d \<noteq> EMBEDDING_ARTIFACT_SCHEMA
         \<or> ad_dimension d = 0 \<or> MAX_EMBEDDING_DIMENSION < ad_dimension d
         \<or> px_parse_uuid x (ad_source_revision_id d) = None))
       (invalid ''invalid_artifact_descriptor''))))"

fun validate_state_shape :: "penv \<Rightarrow> projection_state \<Rightarrow> nat \<Rightarrow> projection_error + unit" where
  "validate_state_shape x (PBuilding attempt attempt_id lease_expires_at) committed_at =
     ensure (\<not> (attempt = 0 \<or> attempt_id = 0 \<or> lease_expires_at \<le> committed_at \<or> JCS_SAFE_INTEGER < lease_expires_at))
       (invalid ''invalid_building_state'')"
| "validate_state_shape x (PReady attempt attempt_id artifact) committed_at =
     res_bind (ensure (\<not> (attempt = 0 \<or> attempt_id = 0)) (invalid ''invalid_ready_state'')) (\<lambda>_.
     validate_descriptor x artifact)"
| "validate_state_shape x (PFailed attempt attempt_id category retryable retry_not_before) committed_at =
     ensure (\<not> (attempt = 0 \<or> attempt_id = 0
         \<or> retryable \<and> (case retry_not_before of None \<Rightarrow> True | Some t \<Rightarrow> t \<le> committed_at)
         \<or> (case retry_not_before of None \<Rightarrow> False | Some t \<Rightarrow> JCS_SAFE_INTEGER < t)
         \<or> \<not> retryable \<and> retry_not_before \<noteq> None))
       (invalid ''invalid_failed_state'')"
| "validate_state_shape x (PStale reason artifact) committed_at = validate_descriptor x artifact"
| "validate_state_shape x (PAbsent reason) committed_at = Inr ()"
| "validate_state_shape x (PQueued reason) committed_at = Inr ()"

definition validate_source_against_canonical ::
  "canonical_source_identity \<Rightarrow> canonical_projection_snapshot \<Rightarrow> projection_error + unit" where
  "validate_source_against_canonical v snapshot =
     (case find (\<lambda>r. rv_revision_id r = si_revision_id v) (sp_revisions snapshot) of
        None \<Rightarrow> Inl (invalid ''projection_source_not_canonical'')
      | Some r \<Rightarrow> ensure (\<not> (rv_memory_id r \<noteq> si_memory_id v \<or> rv_sequence r \<noteq> si_revision_sequence v
                   \<or> rv_content_hash r \<noteq> si_content_hash v)) (invalid ''projection_source_identity_mismatch''))"

definition validate_reconciled_coverage ::
  "canonical_watermark \<Rightarrow> canonical_projection_snapshot \<Rightarrow> projection_error + unit" where
  "validate_reconciled_coverage w snapshot =
     res_bind (validate_watermark w) (\<lambda>_.
     ensure (\<not> (cw_root_hash w \<noteq> sp_root_hash snapshot
         \<or> cw_generation w \<noteq> rt_generation (sp_root snapshot)
         \<or> cw_revision_watermark w \<noteq> rt_revision_watermark (sp_root snapshot)
         \<or> cw_policy_watermark w \<noteq> rt_policy_watermark (sp_root snapshot)
         \<or> cw_relation_watermark w \<noteq> rt_relation_watermark (sp_root snapshot)))
       (invalid ''canonical_watermark_mismatch''))"

section \<open>The current view\<close>

definition transition_allowed :: "projection_state option \<Rightarrow> projection_state \<Rightarrow> bool" where
  "transition_allowed previous next_state =
     (case previous of
        None \<Rightarrow> (case next_state of PAbsent _ \<Rightarrow> True | PQueued _ \<Rightarrow> True | _ \<Rightarrow> False)
      | Some p \<Rightarrow>
          (case p of
             PAbsent _ \<Rightarrow> (case next_state of PQueued _ \<Rightarrow> True | _ \<Rightarrow> False)
           | PQueued _ \<Rightarrow>
               (case next_state of
                  PQueued r \<Rightarrow> r = BuilderChanged \<or> r = OwnerRebuild
                | PBuilding _ _ _ \<Rightarrow> True | PAbsent _ \<Rightarrow> True | _ \<Rightarrow> False)
           | PBuilding _ _ _ \<Rightarrow>
               (case next_state of
                  PReady _ _ _ \<Rightarrow> True | PFailed _ _ _ _ _ \<Rightarrow> True | PQueued _ \<Rightarrow> True | PAbsent _ \<Rightarrow> True | _ \<Rightarrow> False)
           | PReady _ _ _ \<Rightarrow> (case next_state of PStale _ _ \<Rightarrow> True | PAbsent _ \<Rightarrow> True | _ \<Rightarrow> False)
           | PFailed _ _ _ _ _ \<Rightarrow> (case next_state of PQueued _ \<Rightarrow> True | PAbsent _ \<Rightarrow> True | _ \<Rightarrow> False)
           | PStale _ _ \<Rightarrow> (case next_state of PQueued _ \<Rightarrow> True | PAbsent _ \<Rightarrow> True | _ \<Rightarrow> False)))"

definition next_attempt_count :: "projection_entry option \<Rightarrow> projection_state \<Rightarrow> projection_error + nat" where
  "next_attempt_count previous next_state =
     (let current = (case previous of None \<Rightarrow> 0 | Some e \<Rightarrow> pe_attempt_count e) in
      case next_state of
        PBuilding attempt _ _ \<Rightarrow>
          if current < 2 ^ 32 - 1 \<and> current + 1 = attempt then Inr attempt
          else Inl (invalid ''non_monotonic_projection_attempt'')
      | PReady attempt _ _ \<Rightarrow> if attempt = current then Inr current else Inl (invalid ''projection_attempt_mismatch'')
      | PFailed attempt _ _ _ _ \<Rightarrow>
          if attempt = current then Inr current else Inl (invalid ''projection_attempt_mismatch'')
      | _ \<Rightarrow> Inr current)"

definition validate_state_binding ::
  "projection_entry option \<Rightarrow> projection_state \<Rightarrow> canonical_source_identity \<Rightarrow> string \<Rightarrow> active_builder_spec
   \<Rightarrow> projection_error + unit" where
  "validate_state_binding previous next_state source desired_builder_spec_hash active_builder =
     (case next_state of
        PReady _ _ artifact \<Rightarrow>
          ensure (\<not> (ad_source_revision_id artifact \<noteq> si_revision_id source
              \<or> ad_source_content_hash artifact \<noteq> si_content_hash source
              \<or> ad_builder_spec_hash artifact \<noteq> desired_builder_spec_hash
              \<or> ad_dimension artifact \<noteq> bs_dimension (ab_builder_spec active_builder)))
            (invalid ''ready_artifact_binding_mismatch'')
      | PStale _ artifact \<Rightarrow>
          (case map_option pe_state previous of
             Some (PReady _ _ previous_artifact) \<Rightarrow>
               ensure (\<not> (artifact \<noteq> previous_artifact \<or> ad_source_revision_id artifact \<noteq> si_revision_id source
                   \<or> ad_source_content_hash artifact \<noteq> si_content_hash source))
                 (invalid ''stale_artifact_binding_mismatch'')
           | _ \<Rightarrow> Inl (invalid ''stale_artifact_has_no_ready_source''))
      | _ \<Rightarrow> Inr ())"

fun owner_action :: "projection_state \<Rightarrow> bool" where
  "owner_action (PQueued r) = (r = OwnerRebuild \<or> r = BuilderChanged)"
| "owner_action (PStale r _) = (r = StaleOwnerRebuild \<or> r = BuilderSpecChanged)"
| "owner_action _ = False"

text \<open>A finished attempt must be the one that is being built.\<close>

definition attempt_matches :: "projection_state option \<Rightarrow> projection_state \<Rightarrow> bool" where
  "attempt_matches previous next_state =
     (case (previous, next_state) of
        (Some p, PReady attempt attempt_id _) \<Rightarrow> (case p of PBuilding a i _ \<Rightarrow> a = attempt \<and> i = attempt_id | _ \<Rightarrow> False)
      | (Some p, PFailed attempt attempt_id _ _ _) \<Rightarrow> (case p of PBuilding a i _ \<Rightarrow> a = attempt \<and> i = attempt_id | _ \<Rightarrow> False)
      | _ \<Rightarrow> True)"

text \<open>When a projection may be queued again.\<close>

definition requeue_check :: "projection_state option \<Rightarrow> projection_state \<Rightarrow> nat \<Rightarrow> projection_error + unit" where
  "requeue_check previous next_state committed_at =
     (case (previous, next_state) of
        (Some p, PQueued r) \<Rightarrow>
          (case p of
             PAbsent _ \<Rightarrow> ensure (r \<noteq> OwnerRebuild) (invalid ''owner_rebuild_cannot_revive_absent_projection'')
           | PBuilding _ _ lease_expires_at \<Rightarrow>
               ensure (r = LeaseExpired \<and> lease_expires_at \<le> committed_at \<or> r = BuilderChanged \<or> r = OwnerRebuild)
                 (invalid ''invalid_projection_retry_transition'')
           | PFailed _ _ _ retryable retry_not_before \<Rightarrow>
               ensure (r = Retry \<and> retryable \<and> (case retry_not_before of Some t \<Rightarrow> t \<le> committed_at | None \<Rightarrow> False)
                       \<or> r = BuilderChanged \<or> r = OwnerRebuild)
                 (invalid ''invalid_projection_retry_transition'')
           | _ \<Rightarrow> Inr ())
      | _ \<Rightarrow> Inr ())"

definition validate_actor_and_transition ::
  "projection_entry option \<Rightarrow> projection_state \<Rightarrow> manifest_record \<Rightarrow> projection_error + unit" where
  "validate_actor_and_transition previous next_state r =
     (let expected_actor = (if owner_action next_state then PERSONAL_OWNER_ROLE_ID else PROJECTION_WORKER_ROLE);
          before = map_option pe_state previous in
      res_bind (ensure (mr_committed_by_role r = expected_actor \<and> transition_allowed before next_state)
                  (invalid ''illegal_projection_transition'')) (\<lambda>_.
      res_bind (ensure (attempt_matches before next_state) (invalid ''projection_attempt_mismatch'')) (\<lambda>_.
      requeue_check before next_state (mr_committed_at r))))"

record replay_state =
  rp_builders :: "(projection_kind \<times> active_builder_spec) list"
  rp_entries :: "(uuid \<times> projection_entry) list"
  rp_reconciled :: canonical_watermark

definition active_hash :: "projection_kind \<Rightarrow> replay_state \<Rightarrow> string option" where
  "active_hash k s = map_option ab_builder_spec_hash (map_of (rp_builders s) k)"

definition apply_activation ::
  "penv \<Rightarrow> manifest_record \<Rightarrow> projection_kind \<Rightarrow> builder_spec \<Rightarrow> string \<Rightarrow> string option \<Rightarrow> replay_state
   \<Rightarrow> projection_error + replay_state" where
  "apply_activation x r kind spec spec_hash previous_hash s =
     res_bind (ensure (\<not> (kind \<noteq> MemoryEmbedding \<or> bs_projection_kind spec \<noteq> kind
                 \<or> mr_committed_by_role r \<noteq> PERSONAL_OWNER_ROLE_ID \<or> previous_hash = Some spec_hash
                 \<or> active_hash kind s \<noteq> previous_hash)) (invalid ''invalid_builder_activation'')) (\<lambda>_.
     res_bind (validate_builder_hash x spec spec_hash) (\<lambda>_.
     Inr (s\<lparr>rp_builders := AList.update kind
              \<lparr>ab_projection_kind = kind, ab_builder_spec_hash = spec_hash, ab_builder_spec = spec\<rparr> (rp_builders s)\<rparr>)))"

definition chain_continues ::
  "projection_entry option \<Rightarrow> projection_kind \<Rightarrow> nat \<Rightarrow> nat option \<Rightarrow> canonical_source_identity \<Rightarrow> bool" where
  "chain_continues previous kind version previous_sequence source =
     (map_option pe_last_transition_sequence previous = previous_sequence
      \<and> (case previous of
           None \<Rightarrow> version = 1
         | Some e \<Rightarrow> pe_projection_version e < u64_max \<and> pe_projection_version e + 1 = version
                   \<and> pe_projection_kind e = kind \<and> pe_source e = source))"

definition apply_transition ::
  "penv \<Rightarrow> manifest_record \<Rightarrow> uuid \<Rightarrow> projection_kind \<Rightarrow> nat \<Rightarrow> nat option \<Rightarrow> canonical_source_identity \<Rightarrow> string
   \<Rightarrow> projection_state \<Rightarrow> replay_state \<Rightarrow> projection_error + replay_state" where
  "apply_transition x r pid kind version previous_sequence source desired state s =
     res_bind (validate_source x source) (\<lambda>_.
     res_bind (validate_state_shape x state (mr_committed_at r)) (\<lambda>_.
     res_bind (if kind \<noteq> MemoryEmbedding \<or> JCS_SAFE_INTEGER < version then Inr False
               else res_bind (projection_id x (si_revision_id source)) (\<lambda>p.
                    Inr (p = pid \<and> active_hash kind s = Some desired))) (\<lambda>ok.
     res_bind (ensure ok (invalid ''invalid_projection_transition'')) (\<lambda>_.
     let previous = map_of (rp_entries s) pid in
     res_bind (ensure (chain_continues previous kind version previous_sequence source)
                 (invalid ''broken_projection_transition_chain'')) (\<lambda>_.
     res_bind (ok_or (map_of (rp_builders s) kind) (invalid ''missing_active_builder'')) (\<lambda>builder.
     res_bind (validate_state_binding previous state source desired builder) (\<lambda>_.
     res_bind (validate_actor_and_transition previous state r) (\<lambda>_.
     res_bind (next_attempt_count previous state) (\<lambda>attempt_count.
     Inr (s\<lparr>rp_entries := AList.update pid
              \<lparr>pe_projection_id = pid, pe_projection_kind = kind, pe_projection_version = version,
               pe_last_transition_sequence = mr_sequence r, pe_attempt_count = attempt_count, pe_source = source,
               pe_desired_builder_spec_hash = desired, pe_state = state\<rparr> (rp_entries s)\<rparr>))))))))))"

definition apply_reconciliation ::
  "manifest_record \<Rightarrow> canonical_watermark \<Rightarrow> canonical_watermark \<Rightarrow> nat \<Rightarrow> replay_state \<Rightarrow> projection_error + replay_state" where
  "apply_reconciliation r previous_source next_source classified s =
     res_bind (ensure (\<not> (mr_committed_by_role r \<noteq> PROJECTION_WORKER_ROLE \<or> previous_source \<noteq> rp_reconciled s
                 \<or> next_source = previous_source \<or> classified \<noteq> cw_revision_watermark next_source
                 \<or> cw_generation next_source < cw_generation previous_source
                 \<or> cw_revision_watermark next_source < cw_revision_watermark previous_source
                 \<or> cw_policy_watermark next_source < cw_policy_watermark previous_source
                 \<or> cw_relation_watermark next_source < cw_relation_watermark previous_source))
                 (invalid ''invalid_reconciliation_advance'')) (\<lambda>_.
     res_bind (validate_watermark next_source) (\<lambda>_.
     Inr (s\<lparr>rp_reconciled := next_source\<rparr>)))"

fun apply_event :: "penv \<Rightarrow> manifest_record \<Rightarrow> manifest_event \<Rightarrow> replay_state \<Rightarrow> projection_error + replay_state" where
  "apply_event x r (BuilderActivated kind spec spec_hash previous_hash) s =
     apply_activation x r kind spec spec_hash previous_hash s"
| "apply_event x r (ProjectionTransition pid kind version previous_sequence source desired state) s =
     apply_transition x r pid kind version previous_sequence source desired state s"
| "apply_event x r (ReconciliationAdvanced previous_source next_source classified) s =
     apply_reconciliation r previous_source next_source classified s"

definition replay_record :: "penv \<Rightarrow> replay_state \<Rightarrow> nat \<times> manifest_record \<Rightarrow> projection_error + replay_state" where
  "replay_record x s p =
     (case p of (offset, r) \<Rightarrow>
        res_bind (ensure (\<not> (mr_schema r \<noteq> MANIFEST_RECORD_SCHEMA \<or> mr_sequence r \<noteq> offset + 1
                    \<or> mr_committed_at r = 0 \<or> JCS_SAFE_INTEGER < mr_committed_at r
                    \<or> trim_is_empty (mr_committed_by_role r))) (invalid ''invalid_manifest_record'')) (\<lambda>_.
        apply_event x r (mr_event r) s))"

text \<open>The entries leave a map ordered by UUID and are sorted, stably, by revision.\<close>

definition rebuild_projection_view ::
  "penv \<Rightarrow> nat \<Rightarrow> canonical_watermark \<Rightarrow> manifest_record list \<Rightarrow> projection_error + projection_current_view" where
  "rebuild_projection_view x generation genesis_source records =
     res_bind (validate_watermark genesis_source) (\<lambda>_.
     res_bind (res_foldM (replay_record x)
         \<lparr>rp_builders = [], rp_entries = [], rp_reconciled = genesis_source\<rparr> (enumerate 0 records)) (\<lambda>s.
     let builders = map snd (rp_builders s);
         entries = sort_key (si_revision_id \<circ> pe_source) (map snd (sort_key fst (rp_entries s))) in
     res_bind (ensure (\<not> (0 < generation \<and> length builders \<noteq> 1))
                 (invalid ''missing_active_memory_embedding_builder'')) (\<lambda>_.
     res_bind (ensure (\<not> list_ex (\<lambda>e. (case pe_state e of PAbsent _ \<Rightarrow> False | _ \<Rightarrow> True)
                   \<and> (case find (\<lambda>b. ab_projection_kind b = pe_projection_kind e) builders of
                        None \<Rightarrow> True | Some b \<Rightarrow> ab_builder_spec_hash b \<noteq> pe_desired_builder_spec_hash e)) entries)
                 (invalid ''projection_entry_uses_inactive_builder'')) (\<lambda>_.
     Inr \<lparr>pv_schema = PROJECTION_VIEW_SCHEMA, pv_generation = generation, pv_event_watermark = length records,
          pv_reconciled_source = rp_reconciled s, pv_active_builder_specs = builders, pv_entries = entries\<rparr>))))"

end
