(* ===== verification/Projection_Store.thy ===== *)
theory Projection_Store
  imports Projection_Manifest "HOL-Library.Word"
begin

text \<open>
  The writer of the projection manifest (\<open>src/src/memory/projection/store.rs\<close>, with the rest of
  \<open>hash.rs\<close> and \<open>validate.rs\<close> and the selection and status operations of \<open>coordinator_core.rs\<close>).  A
  commit replays the manifest with the new records, checks it against the canonical ledger, writes the
  artifacts, the segment, the view and the root, and exchanges the pointer.

  Every operation reads a view and a root hash and then commits against that root; readings of the
  clock, fresh identifiers and the faults of the storage are arguments.  A component of a vector is
  the bit pattern of its \<open>f32\<close>; the Euclidean norm of a vector, a double-precision sum, is a parameter,
  as are the JSON library and its encoders.  The errors for poisoned locks need a panic and are left
  out.
\<close>

section \<open>Objects\<close>

definition MANIFEST_SEGMENT_SCHEMA :: string where
  "MANIFEST_SEGMENT_SCHEMA = ''plico.projection.manifest-segment/v1''"
definition MANIFEST_ROOT_SCHEMA :: string where
  "MANIFEST_ROOT_SCHEMA = ''plico.projection.manifest-root/v1''"
definition PROJECTION_POINTER_SCHEMA :: string where
  "PROJECTION_POINTER_SCHEMA = ''plico.projection.root-pointer/v1''"
definition MAX_PROJECTION_POINTER_BYTES :: nat where "MAX_PROJECTION_POINTER_BYTES = 4 * 1024"
definition MAX_PROJECTION_MANIFEST_OBJECT_BYTES :: nat where
  "MAX_PROJECTION_MANIFEST_OBJECT_BYTES = 16 * 1024 * 1024"

definition MANIFEST_SEGMENT_DOMAIN :: string where
  "MANIFEST_SEGMENT_DOMAIN = ''plico.projection.manifest-segment.v1'' @ [CHR 0x00]"
definition MANIFEST_ROOT_DOMAIN :: string where
  "MANIFEST_ROOT_DOMAIN = ''plico.projection.manifest-root.v1'' @ [CHR 0x00]"
definition PROJECTION_VIEW_DOMAIN :: string where
  "PROJECTION_VIEW_DOMAIN = ''plico.projection.current-view.v1'' @ [CHR 0x00]"
definition ARTIFACT_DOMAIN :: string where
  "ARTIFACT_DOMAIN = ''plico.projection.embedding-artifact.v1'' @ [CHR 0x00]"

type_synonym f32 = "32 word"

record projection_segment =
  psg_schema :: string
  psg_first_sequence :: nat
  psg_last_sequence :: nat
  psg_previous_segment_hash :: "string option"
  psg_records :: "manifest_record list"

record projection_root =
  pr_schema :: string
  pr_generation :: nat
  pr_previous_root_hash :: "string option"
  pr_manifest_head :: "string option"
  pr_event_watermark :: nat
  pr_current_view_hash :: string
  pr_reconciled_source :: canonical_watermark
  pr_committed_at :: nat
  pr_committed_by_role :: string

record projection_pointer =
  ppt_schema :: string
  ppt_root_hash :: string

record embedding_artifact =
  ea_schema :: string
  ea_projection_id :: uuid
  ea_source_revision_id :: string
  ea_source_content_hash :: string
  ea_builder_spec_hash :: string
  ea_dimension :: nat
  ea_encoding :: string
  ea_vector :: "f32 list"

text \<open>What the store asks of the JSON library; its values are those of \<open>Memory_Model\<close>.\<close>

fun json_get :: "string \<Rightarrow> json \<Rightarrow> json option" where
  "json_get key (JObject members) = map_of members key"
| "json_get key _ = None"

fun as_str :: "json \<Rightarrow> string option" where
  "as_str (JString s) = Some s"
| "as_str _ = None"

fun as_array :: "json \<Rightarrow> json list option" where
  "as_array (JArray xs) = Some xs"
| "as_array _ = None"

record 'a json_codec =
  j_enc :: "'a \<Rightarrow> string option"
  j_dec :: "json \<Rightarrow> 'a option"

record senv =
  sx_penv :: penv
  sx_from_slice :: "string \<Rightarrow> json option"
  sx_to_vec :: "json \<Rightarrow> string option"
  sx_segment :: "projection_segment json_codec"
  sx_root :: "projection_root json_codec"
  sx_view :: "projection_current_view json_codec"
  sx_pointer :: "projection_pointer json_codec"
  sx_artifact :: "embedding_artifact json_codec"
  sx_unit_norm :: "f32 list \<Rightarrow> bool"

section \<open>Hashes and parsing\<close>

definition projection_bytes :: "('a \<Rightarrow> string option) \<Rightarrow> 'a \<Rightarrow> projection_error + string" where
  "projection_bytes encode v = ok_or (encode v) (invalid ''projection_jcs_canonicalization_failed'')"

definition projection_bytes_and_hash ::
  "penv \<Rightarrow> string \<Rightarrow> ('a \<Rightarrow> string option) \<Rightarrow> 'a \<Rightarrow> projection_error + (string \<times> string)" where
  "projection_bytes_and_hash x domain encode v =
     res_bind (projection_bytes encode v) (\<lambda>bytes. Inr (bytes, px_sha256_hex x (domain @ bytes)))"

definition segment_bytes_and_hash :: "senv \<Rightarrow> projection_segment \<Rightarrow> projection_error + (string \<times> string)" where
  "segment_bytes_and_hash x = projection_bytes_and_hash (sx_penv x) MANIFEST_SEGMENT_DOMAIN (j_enc (sx_segment x))"

definition root_bytes_and_hash :: "senv \<Rightarrow> projection_root \<Rightarrow> projection_error + (string \<times> string)" where
  "root_bytes_and_hash x = projection_bytes_and_hash (sx_penv x) MANIFEST_ROOT_DOMAIN (j_enc (sx_root x))"

definition view_bytes_and_hash :: "senv \<Rightarrow> projection_current_view \<Rightarrow> projection_error + (string \<times> string)" where
  "view_bytes_and_hash x = projection_bytes_and_hash (sx_penv x) PROJECTION_VIEW_DOMAIN (j_enc (sx_view x))"

definition artifact_bytes_and_hash :: "senv \<Rightarrow> embedding_artifact \<Rightarrow> projection_error + (string \<times> string)" where
  "artifact_bytes_and_hash x = projection_bytes_and_hash (sx_penv x) ARTIFACT_DOMAIN (j_enc (sx_artifact x))"

definition require_schema :: "json \<Rightarrow> string \<Rightarrow> string \<Rightarrow> projection_error + unit" where
  "require_schema v expected component =
     (case Option.bind (json_get ''schema'' v) as_str of
        None \<Rightarrow> Inl (invalid ''missing_projection_schema'')
      | Some schema \<Rightarrow> ensure (schema = expected) (PUnsupportedFormat component))"

definition parse_canonical_with_schema ::
  "senv \<Rightarrow> (json \<Rightarrow> 'a option) \<Rightarrow> string \<Rightarrow> string \<Rightarrow> string \<Rightarrow> (json \<Rightarrow> projection_error + unit) \<Rightarrow> projection_error + 'a" where
  "parse_canonical_with_schema x decode bytes expected component nested =
     res_bind (ok_or (sx_from_slice x bytes) PSerialization) (\<lambda>v.
     res_bind (require_schema v expected component) (\<lambda>_.
     res_bind (projection_bytes (sx_to_vec x) v) (\<lambda>canonical.
     res_bind (ensure (canonical = bytes) (invalid ''non_canonical_projection_json'')) (\<lambda>_.
     res_bind (nested v) (\<lambda>_.
     ok_or (decode v) PSerialization)))))"

definition require_named_schema_if_present :: "json \<Rightarrow> string \<Rightarrow> string \<Rightarrow> string \<Rightarrow> projection_error + unit" where
  "require_named_schema_if_present v field expected component =
     (case Option.bind (json_get field v) as_str of
        None \<Rightarrow> Inr ()
      | Some actual \<Rightarrow> ensure (actual = expected) (PUnsupportedFormat component))"

definition validate_builder_schema_tree :: "json \<Rightarrow> projection_error + unit" where
  "validate_builder_schema_tree v =
     res_bind (require_schema v BUILDER_SPEC_SCHEMA ''builder_spec'') (\<lambda>_.
     require_named_schema_if_present v ''artifact_schema'' EMBEDDING_ARTIFACT_SCHEMA ''embedding_artifact'')"

definition validate_state_artifact_schema :: "json \<Rightarrow> projection_error + unit" where
  "validate_state_artifact_schema v =
     (case json_get ''artifact'' v of
        None \<Rightarrow> Inr ()
      | Some artifact \<Rightarrow>
          require_named_schema_if_present artifact ''artifact_schema'' EMBEDDING_ARTIFACT_SCHEMA ''embedding_artifact'')"

text \<open>The check of one optional field, the shape of all the checks below.\<close>

definition if_present :: "string \<Rightarrow> (json \<Rightarrow> projection_error + unit) \<Rightarrow> json \<Rightarrow> projection_error + unit" where
  "if_present key f v = (case json_get key v of None \<Rightarrow> Inr () | Some w \<Rightarrow> f w)"

definition validate_record_schema_tree :: "json \<Rightarrow> projection_error + unit" where
  "validate_record_schema_tree v =
     res_bind (require_schema v MANIFEST_RECORD_SCHEMA ''manifest_record'') (\<lambda>_.
     if_present ''event'' (\<lambda>event.
       if Option.bind (json_get ''type'' event) as_str = Some ''builder_activated''
       then if_present ''builder_spec'' validate_builder_schema_tree event
       else if Option.bind (json_get ''type'' event) as_str = Some ''projection_transition''
       then if_present ''state'' validate_state_artifact_schema event
       else Inr ()) v)"

definition validate_segment_schema_tree :: "json \<Rightarrow> projection_error + unit" where
  "validate_segment_schema_tree v =
     (case Option.bind (json_get ''records'' v) as_array of
        None \<Rightarrow> Inr ()
      | Some records \<Rightarrow> res_foldM (\<lambda>_. validate_record_schema_tree) () records)"

definition validate_current_view_schema_tree :: "json \<Rightarrow> projection_error + unit" where
  "validate_current_view_schema_tree v =
     res_bind (case Option.bind (json_get ''active_builder_specs'' v) as_array of
                 None \<Rightarrow> Inr ()
               | Some builders \<Rightarrow>
                   res_foldM (\<lambda>_. if_present ''builder_spec'' validate_builder_schema_tree) () builders) (\<lambda>_.
     case Option.bind (json_get ''entries'' v) as_array of
       None \<Rightarrow> Inr ()
     | Some entries \<Rightarrow> res_foldM (\<lambda>_. if_present ''state'' validate_state_artifact_schema) () entries)"

definition verify_hash :: "('a \<Rightarrow> projection_error + (string \<times> string)) \<Rightarrow> 'a \<Rightarrow> string \<Rightarrow> projection_error + unit" where
  "verify_hash bytes_and_hash v expected =
     res_bind (validate_projection_hash expected) (\<lambda>_.
     res_bind (bytes_and_hash v) (\<lambda>(_, actual).
     ensure (actual = expected) (invalid ''projection_hash_mismatch'')))"

definition projection_require_size :: "string \<Rightarrow> nat \<Rightarrow> projection_error + unit" where
  "projection_require_size bytes maximum_bytes =
     ensure (length bytes \<le> maximum_bytes) (invalid ''projection_object_exceeds_size_limit'')"

section \<open>Artifacts\<close>

definition f32_is_zero :: "f32 \<Rightarrow> bool" where
  "f32_is_zero bits \<longleftrightarrow> unat bits mod 2 ^ 31 = 0"

definition validate_embedding_output :: "senv \<Rightarrow> builder_spec \<Rightarrow> f32 list \<Rightarrow> projection_error + unit" where
  "validate_embedding_output x builder vector =
     res_bind (ensure (\<not> (length vector \<noteq> bs_dimension builder \<or> list_ex (\<lambda>c. \<not> f32_is_finite c) vector
                 \<or> list_all f32_is_zero vector)) (invalid ''invalid_embedding_output'')) (\<lambda>_.
     ensure (\<not> (bs_normalization builder = L2AfterMatryoshkaTruncationV1 \<and> \<not> sx_unit_norm x vector))
       (invalid ''artifact_normalization_mismatch''))"

definition validate_artifact ::
  "senv \<Rightarrow> embedding_artifact \<Rightarrow> artifact_descriptor \<Rightarrow> builder_spec \<Rightarrow> projection_error + string" where
  "validate_artifact x a d builder =
     res_bind (validate_builder_hash (sx_penv x) builder (ea_builder_spec_hash a)) (\<lambda>_.
     res_bind (if ea_schema a \<noteq> EMBEDDING_ARTIFACT_SCHEMA \<or> ea_encoding a \<noteq> ''f32-json/v1'' \<or> ea_dimension a = 0
                  \<or> ad_artifact_schema d \<noteq> EMBEDDING_ARTIFACT_SCHEMA \<or> ad_dimension d \<noteq> ea_dimension a
                  \<or> ad_source_revision_id d \<noteq> ea_source_revision_id a
                  \<or> ad_source_content_hash d \<noteq> ea_source_content_hash a
                  \<or> ad_builder_spec_hash d \<noteq> ea_builder_spec_hash a then Inr False
               else res_bind (builder_spec_hash (sx_penv x) builder) (\<lambda>hash.
                    if ea_builder_spec_hash a \<noteq> hash \<or> ad_byte_length d = 0 then Inr False
                    else res_bind (projection_id (sx_penv x) (ea_source_revision_id a)) (\<lambda>pid.
                         Inr (ea_projection_id a = pid \<and> ea_dimension a = bs_dimension builder)))) (\<lambda>ok.
     res_bind (ensure ok (invalid ''invalid_embedding_artifact'')) (\<lambda>_.
     res_bind (validate_embedding_output x builder (ea_vector a)) (\<lambda>_.
     res_bind (validate_projection_hash (ea_builder_spec_hash a)) (\<lambda>_.
     res_bind (artifact_bytes_and_hash x a) (\<lambda>(bytes, hash).
     res_bind (ensure (\<not> (ad_artifact_hash d \<noteq> hash \<or> ad_byte_length d \<noteq> length bytes))
                 (invalid ''artifact_descriptor_mismatch'')) (\<lambda>_.
     Inr bytes)))))))"

definition parse_embedding_artifact :: "senv \<Rightarrow> string \<Rightarrow> projection_error + embedding_artifact" where
  "parse_embedding_artifact x bytes =
     parse_canonical_with_schema x (j_dec (sx_artifact x)) bytes EMBEDDING_ARTIFACT_SCHEMA ''embedding_artifact'' (\<lambda>_. Inr ())"

section \<open>Storage\<close>

text \<open>
  The manifest is an immutable ledger store of its own; the artifacts lie in a second object directory,
  written and read the same way, whose pointer slots are not used.
\<close>

record projection_storage =
  pb_manifest :: ledger_storage
  pb_artifacts :: ledger_storage

record projection_faults =
  pf_artifact_put :: "string \<Rightarrow> put_fault"
  pf_artifact_read :: "string \<Rightarrow> bool"
  pf_artifact_flush :: bool
  pf_manifest_put :: "string \<Rightarrow> put_fault"
  pf_manifest_flush :: bool
  pf_publish :: publish_fault

definition read_artifact_bounded :: "projection_faults \<Rightarrow> projection_storage \<Rightarrow> string \<Rightarrow> io_error + string" where
  "read_artifact_bounded f st hash =
     (if pf_artifact_read f hash then Inl IoError
      else get_immutable_bounded (pb_artifacts st) hash MAX_EMBEDDING_ARTIFACT_BYTES)"

text \<open>The artifact that a record makes ready, with the source and the builder of the record.\<close>

fun ready_artifact :: "manifest_event \<Rightarrow> (canonical_source_identity \<times> string \<times> artifact_descriptor) option" where
  "ready_artifact (ProjectionTransition _ _ _ _ source desired (PReady _ _ artifact)) = Some (source, desired, artifact)"
| "ready_artifact _ = None"

definition persist_artifact ::
  "senv \<Rightarrow> projection_faults \<Rightarrow> projection_current_view \<Rightarrow> (string \<times> embedding_artifact) list
   \<Rightarrow> canonical_source_identity \<times> string \<times> artifact_descriptor \<Rightarrow> projection_storage
   \<Rightarrow> projection_storage \<times> (projection_error + unit)" where
  "persist_artifact x f view supplied = (\<lambda>(source, desired, d) st.
     (case res_bind (ok_or (map_of supplied (ad_artifact_hash d)) (invalid ''missing_ready_artifact'')) (\<lambda>a.
           res_bind (ensure (\<not> (ea_source_revision_id a \<noteq> si_revision_id source
                       \<or> ea_source_content_hash a \<noteq> si_content_hash source \<or> ea_builder_spec_hash a \<noteq> desired))
                       (invalid ''ready_artifact_binding_mismatch'')) (\<lambda>_.
           res_bind (ok_or (find (\<lambda>b. ab_builder_spec_hash b = ad_builder_spec_hash d) (pv_active_builder_specs view))
                       (invalid ''ready_artifact_builder_missing'')) (\<lambda>builder.
           res_bind (validate_artifact x a d (ab_builder_spec builder)) (\<lambda>bytes. Inr (ab_builder_spec builder, bytes))))) of
        Inl e \<Rightarrow> (st, Inl e)
      | Inr (builder, bytes) \<Rightarrow>
          (case put_immutable (pf_artifact_put f (ad_artifact_hash d)) (ad_artifact_hash d) bytes (pb_artifacts st) of
             (artifacts, Inl _) \<Rightarrow> (st\<lparr>pb_artifacts := artifacts\<rparr>, Inl PArtifactStoreUnavailable)
           | (artifacts, Inr _) \<Rightarrow>
               (let st' = st\<lparr>pb_artifacts := artifacts\<rparr> in
                (st',
                 res_bind (map_err (\<lambda>_. PArtifactStoreUnavailable) (read_artifact_bounded f st' (ad_artifact_hash d))) (\<lambda>b.
                 res_bind (parse_embedding_artifact x b) (\<lambda>restored.
                 res_bind (validate_artifact x restored d builder) (\<lambda>_. Inr ()))))))))"

fun persist_loop ::
  "senv \<Rightarrow> projection_faults \<Rightarrow> projection_current_view \<Rightarrow> manifest_record list \<Rightarrow> (string \<times> embedding_artifact) list
   \<Rightarrow> projection_storage \<Rightarrow> projection_storage \<times> (projection_error + unit)" where
  "persist_loop x f view [] supplied st =
     (st, if supplied \<noteq> [] then Inl (invalid ''unused_projection_artifact'')
          else if pf_artifact_flush f then Inl PArtifactStoreUnavailable else Inr ())"
| "persist_loop x f view (r # rs) supplied st =
     (case ready_artifact (mr_event r) of
        None \<Rightarrow> persist_loop x f view rs supplied st
      | Some (source, desired, d) \<Rightarrow>
          (case persist_artifact x f view supplied (source, desired, d) st of
             (st', Inl e) \<Rightarrow> (st', Inl e)
           | (st', Inr _) \<Rightarrow> persist_loop x f view rs (AList.delete (ad_artifact_hash d) supplied) st'))"

definition supplied_artifacts ::
  "senv \<Rightarrow> embedding_artifact list \<Rightarrow> projection_error + (string \<times> embedding_artifact) list" where
  "supplied_artifacts x artifacts =
     res_foldM (\<lambda>supplied a.
       res_bind (artifact_bytes_and_hash x a) (\<lambda>(_, hash).
       res_bind (ensure (hash \<notin> fst ` set supplied) (invalid ''duplicate_projection_artifact'')) (\<lambda>_.
       Inr (supplied @ [(hash, a)])))) [] artifacts"

definition required_artifacts :: "manifest_record list \<Rightarrow> projection_error + string list" where
  "required_artifacts records =
     res_foldM (\<lambda>required r.
       case ready_artifact (mr_event r) of
         None \<Rightarrow> Inr required
       | Some (_, _, d) \<Rightarrow>
           res_bind (ensure (ad_artifact_hash d \<notin> set required) (invalid ''duplicate_ready_artifact'')) (\<lambda>_.
           Inr (required @ [ad_artifact_hash d]))) [] records"

definition persist_ready_artifacts ::
  "senv \<Rightarrow> projection_faults \<Rightarrow> projection_current_view \<Rightarrow> manifest_record list \<Rightarrow> embedding_artifact list
   \<Rightarrow> projection_storage \<Rightarrow> projection_storage \<times> (projection_error + unit)" where
  "persist_ready_artifacts x f view records artifacts st =
     (case res_bind (supplied_artifacts x artifacts) (\<lambda>supplied.
           res_bind (required_artifacts records) (\<lambda>required.
           res_bind (ensure (fst ` set supplied = set required) (invalid ''ready_artifact_set_mismatch'')) (\<lambda>_.
           Inr supplied))) of
        Inl e \<Rightarrow> (st, Inl e)
      | Inr supplied \<Rightarrow> persist_loop x f view records supplied st)"

section \<open>Candidates\<close>

definition projection_watermark :: "string \<Rightarrow> ledger_root \<Rightarrow> canonical_watermark" where
  "projection_watermark hash root =
     \<lparr>cw_root_hash = hash, cw_generation = rt_generation root, cw_revision_watermark = rt_revision_watermark root,
      cw_policy_watermark = rt_policy_watermark root, cw_relation_watermark = rt_relation_watermark root\<rparr>"

definition canonical_source :: "canonical_revision \<Rightarrow> canonical_source_identity" where
  "canonical_source r =
     \<lparr>si_canonical_kind = ''memory_revision'', si_memory_id = rv_memory_id r, si_revision_id = rv_revision_id r,
      si_revision_sequence = rv_sequence r, si_content_hash = rv_content_hash r\<rparr>"

definition expected_absent_reason :: "canonical_revision \<Rightarrow> canonical_revision list \<Rightarrow> absent_reason option" where
  "expected_absent_reason r revisions =
     (if list_ex (\<lambda>candidate. rv_parent_revision_id candidate = Some (rv_revision_id r)) revisions then Some Superseded
      else if rv_deleted_at r \<noteq> None then Some Deleted
      else if rv_cognitive_tier r \<notin> {Working, LongTerm} then Some UnsupportedTier
      else case rv_content r of
             Text text \<Rightarrow> if trim_is_empty text then Some BlankText else None
           | _ \<Rightarrow> Some UnsupportedContent)"

definition check_entry_against_canonical ::
  "canonical_watermark \<Rightarrow> canonical_projection_snapshot \<Rightarrow> unit \<Rightarrow> projection_entry \<Rightarrow> projection_error + unit" where
  "check_entry_against_canonical source canonical = (\<lambda>_ e.
     if cw_revision_watermark source < si_revision_sequence (pe_source e)
     then ensure (pe_state e = PQueued CanonicalCommit) (invalid ''invalid_write_through_projection_state'')
     else
       res_bind (ok_or (find (\<lambda>r. rv_revision_id r = si_revision_id (pe_source e)) (sp_revisions canonical))
                   (invalid ''projection_source_not_canonical'')) (\<lambda>revision.
       case (pe_state e, expected_absent_reason revision
               (filter (\<lambda>c. rv_sequence c \<le> cw_revision_watermark source) (sp_revisions canonical))) of
         (PAbsent reason, Some expected) \<Rightarrow>
           ensure (reason = expected) (invalid ''ineligible_revision_has_projection_state'')
       | (PAbsent _, None) \<Rightarrow> Inl (invalid ''eligible_revision_marked_absent'')
       | (_, Some _) \<Rightarrow> Inl (invalid ''ineligible_revision_has_projection_state'')
       | (_, None) \<Rightarrow> Inr ()))"

definition validate_candidate ::
  "projection_current_view \<Rightarrow> manifest_record list \<Rightarrow> canonical_projection_snapshot \<Rightarrow> projection_error + unit" where
  "validate_candidate view records canonical =
     res_bind (res_foldM (\<lambda>_ r. case mr_event r of
                   ProjectionTransition _ _ _ _ source _ _ \<Rightarrow> validate_source_against_canonical source canonical
                 | _ \<Rightarrow> Inr ()) () records) (\<lambda>_.
     let source = pv_reconciled_source view;
         covered = filter (\<lambda>r. rv_sequence r \<le> cw_revision_watermark source) (sp_revisions canonical) in
     res_bind (ensure (list_ex (\<lambda>(hash, root). source = projection_watermark hash root) (sp_root_chain canonical))
                 (invalid ''projection_reconciliation_not_canonical_ancestor'')) (\<lambda>_.
     res_bind (ensure (\<not> (length covered \<noteq> cw_revision_watermark source
                 \<or> list_ex (\<lambda>r. \<not> list_ex (\<lambda>e. si_revision_id (pe_source e) = rv_revision_id r) (pv_entries view)) covered))
                 (invalid ''projection_reconciliation_incomplete'')) (\<lambda>_.
     res_bind (res_foldM (check_entry_against_canonical source canonical) () (pv_entries view)) (\<lambda>_.
     if cw_root_hash source = sp_root_hash canonical then validate_reconciled_coverage source canonical else Inr ()))))"

section \<open>The commit\<close>

record artifact_issue =
  ai_projection_id :: uuid
  ai_reason :: stale_reason

record projection_store_state =
  ps_poisoned :: bool
  ps_root_hash :: string
  ps_root :: projection_root
  ps_view :: projection_current_view
  ps_records :: "manifest_record list"
  ps_genesis_source :: canonical_watermark
  ps_artifact_issues :: "artifact_issue list"

record projection_store =
  pm_storage :: projection_storage
  pm_state :: projection_store_state

datatype projection_commit_actor = PersonalOwner | Worker

fun actor_role_id :: "projection_commit_actor \<Rightarrow> string" where
  "actor_role_id PersonalOwner = PERSONAL_OWNER_ROLE_ID"
| "actor_role_id Worker = ''projection-worker''"

definition stamp_records :: "nat \<Rightarrow> nat \<Rightarrow> string \<Rightarrow> manifest_event list \<Rightarrow> projection_error + manifest_record list" where
  "stamp_records first_sequence committed_at role events =
     res_bind (ensure (\<not> list_ex (\<lambda>(sequence, _). u64_max < sequence) (enumerate first_sequence events))
                 (invalid ''projection_sequence_overflow'')) (\<lambda>_.
     Inr (map (\<lambda>(sequence, event).
       \<lparr>mr_schema = MANIFEST_RECORD_SCHEMA, mr_sequence = sequence, mr_committed_at = committed_at,
        mr_committed_by_role = role, mr_event = event\<rparr>) (enumerate first_sequence events)))"

text \<open>What the checks of a commit produce, before anything is written.\<close>

record projection_candidate =
  pcd_committed_at :: nat
  pcd_records :: "manifest_record list"
  pcd_view :: projection_current_view

definition commit_boundary ::
  "string \<Rightarrow> manifest_event list \<Rightarrow> bool \<Rightarrow> projection_store_state \<Rightarrow> projection_error + unit" where
  "commit_boundary expected_root_hash events repairing s =
     res_bind (ensure (\<not> ps_poisoned s) PWriterPoisoned) (\<lambda>_.
     res_bind (ensure (\<not> (ps_artifact_issues s \<noteq> [] \<and> \<not> repairing))
                 (PArtifactRepairRequired (length (ps_artifact_issues s)))) (\<lambda>_.
     res_bind (ensure (ps_root_hash s = expected_root_hash) PHeadConflict) (\<lambda>_.
     ensure (events \<noteq> []) (invalid ''invalid_projection_commit_boundary''))))"

definition candidate ::
  "senv \<Rightarrow> nat \<Rightarrow> string \<Rightarrow> projection_commit_actor \<Rightarrow> manifest_event list \<Rightarrow> canonical_projection_snapshot \<Rightarrow> bool
   \<Rightarrow> projection_store_state \<Rightarrow> projection_error + projection_candidate" where
  "candidate x now expected_root_hash actor events canonical repairing s =
     res_bind (commit_boundary expected_root_hash events repairing s) (\<lambda>_.
     res_bind (ensure (pr_committed_at (ps_root s) < u64_max) (invalid ''projection_commit_time_overflow'')) (\<lambda>_.
     let committed_at = max now (pr_committed_at (ps_root s) + 1) in
     res_bind (ensure (committed_at \<le> JCS_SAFE_INTEGER) (invalid ''projection_commit_time_overflow'')) (\<lambda>_.
     res_bind (ensure (length (ps_records s) < u64_max) (invalid ''projection_sequence_overflow'')) (\<lambda>_.
     res_bind (stamp_records (length (ps_records s) + 1) committed_at (actor_role_id actor) events) (\<lambda>records.
     res_bind (ensure (pr_generation (ps_root s) < u64_max) (invalid ''projection_generation_overflow'')) (\<lambda>_.
     res_bind (rebuild_projection_view (sx_penv x) (pr_generation (ps_root s) + 1) (ps_genesis_source s)
                 (ps_records s @ records)) (\<lambda>view.
     res_bind (validate_candidate view (ps_records s @ records) canonical) (\<lambda>_.
     Inr \<lparr>pcd_committed_at = committed_at, pcd_records = records, pcd_view = view\<rparr>))))))))"

definition manifest_objects ::
  "senv \<Rightarrow> projection_commit_actor \<Rightarrow> projection_store_state \<Rightarrow> projection_candidate
   \<Rightarrow> projection_error + (projection_root \<times> string \<times> (string \<times> string) list)" where
  "manifest_objects x actor s c =
     (let segment = \<lparr>psg_schema = MANIFEST_SEGMENT_SCHEMA, psg_first_sequence = length (ps_records s) + 1,
            psg_last_sequence = length (ps_records s @ pcd_records c),
            psg_previous_segment_hash = pr_manifest_head (ps_root s), psg_records = pcd_records c\<rparr> in
     res_bind (segment_bytes_and_hash x segment) (\<lambda>(segment_bytes, segment_hash).
     res_bind (view_bytes_and_hash x (pcd_view c)) (\<lambda>(view_bytes, view_hash).
     let root = \<lparr>pr_schema = MANIFEST_ROOT_SCHEMA, pr_generation = pr_generation (ps_root s) + 1,
            pr_previous_root_hash = Some (ps_root_hash s), pr_manifest_head = Some segment_hash,
            pr_event_watermark = length (ps_records s @ pcd_records c), pr_current_view_hash = view_hash,
            pr_reconciled_source = pv_reconciled_source (pcd_view c), pr_committed_at = pcd_committed_at c,
            pr_committed_by_role = actor_role_id actor\<rparr> in
     res_bind (root_bytes_and_hash x root) (\<lambda>(root_bytes, root_hash).
     res_bind (projection_require_size segment_bytes MAX_PROJECTION_MANIFEST_OBJECT_BYTES) (\<lambda>_.
     res_bind (projection_require_size view_bytes MAX_PROJECTION_MANIFEST_OBJECT_BYTES) (\<lambda>_.
     res_bind (projection_require_size root_bytes MAX_PROJECTION_MANIFEST_OBJECT_BYTES) (\<lambda>_.
     Inr (root, root_hash, [(segment_hash, segment_bytes), (view_hash, view_bytes), (root_hash, root_bytes)]))))))))"

definition pointer_bytes :: "senv \<Rightarrow> string \<Rightarrow> projection_error + string" where
  "pointer_bytes x root_hash =
     res_bind (projection_bytes (j_enc (sx_pointer x)) \<lparr>ppt_schema = PROJECTION_POINTER_SCHEMA, ppt_root_hash = root_hash\<rparr>) (\<lambda>bytes.
     res_bind (projection_require_size bytes MAX_PROJECTION_POINTER_BYTES) (\<lambda>_. Inr bytes))"

definition put_manifest_objects ::
  "projection_faults \<Rightarrow> (string \<times> string) list \<Rightarrow> projection_storage \<Rightarrow> projection_storage \<times> (projection_error + unit)" where
  "put_manifest_objects f objects st =
     (case put_seq (\<lambda>h. put_immutable (pf_manifest_put f h) h) objects (pb_manifest st) of
        (manifest, Inl e) \<Rightarrow> (st\<lparr>pb_manifest := manifest\<rparr>, Inl (PIo e))
      | (manifest, Inr _) \<Rightarrow> (st\<lparr>pb_manifest := manifest\<rparr>, if pf_manifest_flush f then Inl (PIo IoError) else Inr ()))"

text \<open>The exchange of the pointer, and what each outcome leaves in memory.\<close>

definition publish_root ::
  "projection_faults \<Rightarrow> string \<Rightarrow> projection_store_state \<Rightarrow> projection_store \<Rightarrow> projection_store \<times> (projection_error + string)" where
  "publish_root f bytes published p =
     (case publish_active (pf_publish f) bytes (pb_manifest (pm_storage p)) of
        (manifest, r) \<Rightarrow>
          (let p' = p\<lparr>pm_storage := (pm_storage p)\<lparr>pb_manifest := manifest\<rparr>\<rparr> in
           case r of
             Inl StorageIo \<Rightarrow> (p', Inl (PIo IoError))
           | Inl PublishedButUnsynced \<Rightarrow> (p'\<lparr>pm_state := (pm_state p')\<lparr>ps_poisoned := True\<rparr>\<rparr>, Inl PCommitIndeterminate)
           | Inr _ \<Rightarrow> (p'\<lparr>pm_state := published\<rparr>, Inr (ps_root_hash published))))"

definition projection_commit ::
  "senv \<Rightarrow> projection_faults \<Rightarrow> nat \<Rightarrow> string \<Rightarrow> projection_commit_actor \<Rightarrow> manifest_event list \<Rightarrow> embedding_artifact list
   \<Rightarrow> canonical_projection_snapshot \<Rightarrow> bool \<Rightarrow> projection_store \<Rightarrow> projection_store \<times> (projection_error + string)" where
  "projection_commit x f now expected_root_hash actor events artifacts canonical repairing p =
     (let s = pm_state p in
      case candidate x now expected_root_hash actor events canonical repairing s of
        Inl e \<Rightarrow> (p, Inl e)
      | Inr c \<Rightarrow>
          (case persist_ready_artifacts x f (pcd_view c) (pcd_records c) artifacts (pm_storage p) of
             (st1, Inl e) \<Rightarrow> (p\<lparr>pm_storage := st1\<rparr>, Inl e)
           | (st1, Inr _) \<Rightarrow>
               (case manifest_objects x actor s c of
                  Inl e \<Rightarrow> (p\<lparr>pm_storage := st1\<rparr>, Inl e)
                | Inr (root, root_hash, objects) \<Rightarrow>
                    (case put_manifest_objects f objects st1 of
                       (st2, Inl e) \<Rightarrow> (p\<lparr>pm_storage := st2\<rparr>, Inl e)
                     | (st2, Inr _) \<Rightarrow>
                         (case pointer_bytes x root_hash of
                            Inl e \<Rightarrow> (p\<lparr>pm_storage := st2\<rparr>, Inl e)
                          | Inr bytes \<Rightarrow>
                              publish_root f bytes
                                (s\<lparr>ps_root_hash := root_hash, ps_root := root, ps_view := pcd_view c,
                                   ps_records := ps_records s @ pcd_records c\<rparr>) (p\<lparr>pm_storage := st2\<rparr>))))))"

definition projection_commit_expected ::
  "senv \<Rightarrow> projection_faults \<Rightarrow> nat \<Rightarrow> string \<Rightarrow> projection_commit_actor \<Rightarrow> manifest_event list \<Rightarrow> embedding_artifact list
   \<Rightarrow> canonical_projection_snapshot \<Rightarrow> projection_store \<Rightarrow> projection_store \<times> (projection_error + string)" where
  "projection_commit_expected x f now expected_root_hash actor events artifacts canonical =
     projection_commit x f now expected_root_hash actor events artifacts canonical False"

section \<open>Operations\<close>

definition projection_current_view_of :: "projection_store_state \<Rightarrow> projection_error + projection_current_view" where
  "projection_current_view_of s =
     res_bind (ensure (\<not> ps_poisoned s) PWriterPoisoned) (\<lambda>_.
     res_bind (ensure (ps_artifact_issues s = []) (PArtifactRepairRequired (length (ps_artifact_issues s)))) (\<lambda>_.
     Inr (ps_view s)))"

definition projection_root_hash :: "projection_store_state \<Rightarrow> projection_error + string" where
  "projection_root_hash s =
     res_bind (ensure (\<not> ps_poisoned s) PWriterPoisoned) (\<lambda>_.
     res_bind (ensure (ps_artifact_issues s = []) (PArtifactRepairRequired (length (ps_artifact_issues s)))) (\<lambda>_.
     Inr (ps_root_hash s)))"

definition transition_event :: "projection_entry \<Rightarrow> string \<Rightarrow> projection_state \<Rightarrow> projection_error + manifest_event" where
  "transition_event e desired state =
     res_bind (ensure (pe_projection_version e < u64_max) (invalid ''projection_version_overflow'')) (\<lambda>_.
     Inr (ProjectionTransition (pe_projection_id e) (pe_projection_kind e) (pe_projection_version e + 1)
            (Some (pe_last_transition_sequence e)) (pe_source e) desired state))"

definition embedding_builder :: "projection_current_view \<Rightarrow> active_builder_spec option" where
  "embedding_builder view = find (\<lambda>b. ab_projection_kind b = MemoryEmbedding) (pv_active_builder_specs view)"

text \<open>Changing the builder: what is ready goes stale, everything else is queued again.\<close>

definition builder_change_state :: "projection_state \<Rightarrow> projection_state option" where
  "builder_change_state state =
     (case state of
        PAbsent _ \<Rightarrow> None
      | PReady _ _ artifact \<Rightarrow> Some (PStale BuilderSpecChanged artifact)
      | _ \<Rightarrow> Some (PQueued BuilderChanged))"

definition builder_change_events ::
  "string \<Rightarrow> projection_current_view \<Rightarrow> projection_error + manifest_event list" where
  "builder_change_events spec_hash view =
     res_foldM (\<lambda>events e.
       case builder_change_state (pe_state e) of
         None \<Rightarrow> Inr events
       | Some state \<Rightarrow> res_bind (transition_event e spec_hash state) (\<lambda>event. Inr (events @ [event]))) [] (pv_entries view)"

definition activation_plan ::
  "senv \<Rightarrow> builder_spec \<Rightarrow> projection_store_state \<Rightarrow> projection_error + (string \<times> manifest_event list)" where
  "activation_plan x spec s =
     res_bind (builder_spec_hash (sx_penv x) spec) (\<lambda>spec_hash.
     res_bind (validate_builder_hash (sx_penv x) spec spec_hash) (\<lambda>_.
     res_bind (projection_current_view_of s) (\<lambda>view.
     res_bind (projection_root_hash s) (\<lambda>root_hash.
     let previous = embedding_builder view in
     if map_option ab_builder_spec_hash previous = Some spec_hash then Inr (root_hash, [])
     else
       res_bind (if previous = None then Inr [] else builder_change_events spec_hash view) (\<lambda>events.
       Inr (root_hash, BuilderActivated MemoryEmbedding spec spec_hash (map_option ab_builder_spec_hash previous) # events))))))"

definition activate_builder ::
  "senv \<Rightarrow> projection_faults \<Rightarrow> nat \<Rightarrow> builder_spec \<Rightarrow> canonical_projection_snapshot \<Rightarrow> projection_store
   \<Rightarrow> projection_store \<times> (projection_error + string)" where
  "activate_builder x f now spec canonical p =
     (case activation_plan x spec (pm_state p) of
        Inl e \<Rightarrow> (p, Inl e)
      | Inr (root_hash, events) \<Rightarrow>
          if events = [] then (p, Inr root_hash)
          else projection_commit_expected x f now root_hash PersonalOwner events [] canonical p)"

record rebuild_receipt =
  rr_manifest_generation :: nat
  rr_event_watermark :: nat
  rr_reconciled_source :: canonical_watermark

text \<open>The next state of a revision: what it should be now, and whether that needs a transition.\<close>

definition reconcile_next :: "nat \<Rightarrow> projection_state option \<Rightarrow> absent_reason option \<Rightarrow> projection_state option" where
  "reconcile_next now existing absent =
     (case absent of
        Some expected \<Rightarrow>
          (case existing of
             Some (PAbsent reason) \<Rightarrow> if reason = expected then None else Some (PAbsent expected)
           | _ \<Rightarrow> Some (PAbsent expected))
      | None \<Rightarrow>
          (case existing of
             None \<Rightarrow> Some (PQueued Reconciliation)
           | Some state \<Rightarrow>
               (case state of
                  PAbsent _ \<Rightarrow> Some (PQueued Reconciliation)
                | PBuilding _ _ lease_expires_at \<Rightarrow>
                    if lease_expires_at \<le> now then Some (PQueued LeaseExpired) else None
                | PFailed _ _ _ retryable retry_not_before \<Rightarrow>
                    (case retry_not_before of
                       Some retry_at \<Rightarrow> if retryable \<and> retry_at \<le> now then Some (PQueued Retry) else None
                     | None \<Rightarrow> None)
                | PStale _ _ \<Rightarrow> Some (PQueued BuilderChanged)
                | _ \<Rightarrow> None)))"

definition reconcile_revision ::
  "senv \<Rightarrow> nat \<Rightarrow> string \<Rightarrow> projection_current_view \<Rightarrow> canonical_projection_snapshot \<Rightarrow> canonical_revision
   \<Rightarrow> projection_error + manifest_event option" where
  "reconcile_revision x now spec_hash view canonical r =
     res_bind (projection_id (sx_penv x) (rv_revision_id r)) (\<lambda>pid.
     let existing = find (\<lambda>e. pe_projection_id e = pid) (pv_entries view) in
     case reconcile_next now (map_option pe_state existing) (expected_absent_reason r (sp_revisions canonical)) of
       None \<Rightarrow> Inr None
     | Some state \<Rightarrow>
         res_bind (case existing of
                     Some e \<Rightarrow> transition_event e spec_hash state
                   | None \<Rightarrow> Inr (ProjectionTransition pid MemoryEmbedding 1 None (canonical_source r) spec_hash state))
           (\<lambda>event. Inr (Some event)))"

definition reconcile_events ::
  "senv \<Rightarrow> nat \<Rightarrow> string \<Rightarrow> projection_current_view \<Rightarrow> canonical_projection_snapshot
   \<Rightarrow> projection_error + manifest_event list" where
  "reconcile_events x now spec_hash view canonical =
     res_foldM (\<lambda>events r.
       res_bind (reconcile_revision x now spec_hash view canonical r) (\<lambda>event.
       Inr (events @ (case event of None \<Rightarrow> [] | Some e \<Rightarrow> [e])))) [] (sp_revisions canonical)"

definition reconcile_plan ::
  "senv \<Rightarrow> nat \<Rightarrow> canonical_projection_snapshot \<Rightarrow> projection_store_state
   \<Rightarrow> projection_error + (string \<times> manifest_event list \<times> rebuild_receipt)" where
  "reconcile_plan x now canonical s =
     res_bind (projection_current_view_of s) (\<lambda>view.
     res_bind (projection_root_hash s) (\<lambda>root_hash.
     res_bind (ok_or (embedding_builder view) (invalid ''missing_active_memory_embedding_builder'')) (\<lambda>builder.
     res_bind (reconcile_events x now (ab_builder_spec_hash builder) view canonical) (\<lambda>transitions.
     let target = projection_watermark (sp_root_hash canonical) (sp_root canonical);
         events = transitions @
           (if pv_reconciled_source view \<noteq> target
            then [ReconciliationAdvanced (pv_reconciled_source view) target (rt_revision_watermark (sp_root canonical))]
            else []) in
     if events = [] then
       Inr (root_hash, [], \<lparr>rr_manifest_generation = pv_generation view, rr_event_watermark = pv_event_watermark view,
                           rr_reconciled_source = pv_reconciled_source view\<rparr>)
     else
       res_bind (ensure (pv_generation view < u64_max) (invalid ''projection_generation_overflow'')) (\<lambda>_.
       res_bind (ensure (pv_event_watermark view + length events \<le> u64_max) (invalid ''projection_sequence_overflow'')) (\<lambda>_.
       Inr (root_hash, events,
            \<lparr>rr_manifest_generation = pv_generation view + 1, rr_event_watermark = pv_event_watermark view + length events,
             rr_reconciled_source = target\<rparr>)))))))"

definition reconcile_with_receipt ::
  "senv \<Rightarrow> projection_faults \<Rightarrow> nat \<Rightarrow> nat \<Rightarrow> canonical_projection_snapshot \<Rightarrow> projection_store
   \<Rightarrow> projection_store \<times> (projection_error + (string \<times> rebuild_receipt))" where
  "reconcile_with_receipt x f now commit_now canonical p =
     (case reconcile_plan x now canonical (pm_state p) of
        Inl e \<Rightarrow> (p, Inl e)
      | Inr (root_hash, events, receipt) \<Rightarrow>
          if events = [] then (p, Inr (root_hash, receipt))
          else (case projection_commit_expected x f commit_now root_hash Worker events [] canonical p of
                  (p', r) \<Rightarrow> (p', res_bind r (\<lambda>published. Inr (published, receipt)))))"

text \<open>A rebuild by the owner: what is ready becomes stale and is queued in the same commit.\<close>

definition rebuild_target ::
  "projection_current_view \<Rightarrow> projection_entry list \<Rightarrow> string \<Rightarrow> projection_error + projection_entry list" where
  "rebuild_target view entries revision_id =
     res_bind (ok_or (find (\<lambda>e. si_revision_id (pe_source e) = revision_id) (pv_entries view))
                 (invalid ''projection_rebuild_target_unreconciled'')) (\<lambda>e.
     res_bind (ensure (case pe_state e of PAbsent _ \<Rightarrow> False | _ \<Rightarrow> True)
                 (invalid ''projection_rebuild_target_not_eligible'')) (\<lambda>_.
     Inr (entries @ [e])))"

definition rebuild_entry ::
  "projection_current_view \<Rightarrow> manifest_event list \<Rightarrow> projection_entry \<Rightarrow> projection_error + manifest_event list" where
  "rebuild_entry view events e =
     (case pe_state e of
        PReady _ _ artifact \<Rightarrow>
          (let stale_sequence = pv_event_watermark view + length events + 1 in
           res_bind (ensure (stale_sequence \<le> u64_max) (invalid ''projection_sequence_overflow'')) (\<lambda>_.
           res_bind (transition_event e (pe_desired_builder_spec_hash e) (PStale StaleOwnerRebuild artifact)) (\<lambda>stale.
           res_bind (ensure (pe_projection_version e + 2 \<le> u64_max) (invalid ''projection_version_overflow'')) (\<lambda>_.
           Inr (events @ [stale,
             ProjectionTransition (pe_projection_id e) (pe_projection_kind e) (pe_projection_version e + 2)
               (Some stale_sequence) (pe_source e) (pe_desired_builder_spec_hash e) (PQueued OwnerRebuild)])))))
      | _ \<Rightarrow>
          res_bind (transition_event e (pe_desired_builder_spec_hash e) (PQueued OwnerRebuild)) (\<lambda>event.
          Inr (events @ [event])))"

definition rebuild_plan ::
  "string list \<Rightarrow> projection_store_state \<Rightarrow> projection_error + (string \<times> manifest_event list \<times> rebuild_receipt)" where
  "rebuild_plan selected s =
     res_bind (ensure (selected \<noteq> []) (invalid ''projection_rebuild_requires_target'')) (\<lambda>_.
     res_bind (projection_current_view_of s) (\<lambda>view.
     res_bind (projection_root_hash s) (\<lambda>root_hash.
     res_bind (ensure (card (set selected) = length selected) (invalid ''duplicate_projection_rebuild_target'')) (\<lambda>_.
     res_bind (res_foldM (rebuild_target view) [] selected) (\<lambda>entries.
     res_bind (res_foldM (rebuild_entry view) [] (sort_key (si_revision_sequence \<circ> pe_source) entries)) (\<lambda>events.
     res_bind (ensure (pv_generation view < u64_max) (invalid ''projection_generation_overflow'')) (\<lambda>_.
     res_bind (ensure (pv_event_watermark view + length events \<le> u64_max) (invalid ''projection_sequence_overflow'')) (\<lambda>_.
     Inr (root_hash, events,
          \<lparr>rr_manifest_generation = pv_generation view + 1, rr_event_watermark = pv_event_watermark view + length events,
           rr_reconciled_source = pv_reconciled_source view\<rparr>)))))))))"

definition owner_rebuild ::
  "senv \<Rightarrow> projection_faults \<Rightarrow> nat \<Rightarrow> string list \<Rightarrow> canonical_projection_snapshot \<Rightarrow> projection_store
   \<Rightarrow> projection_store \<times> (projection_error + rebuild_receipt)" where
  "owner_rebuild x f now selected canonical p =
     (case rebuild_plan selected (pm_state p) of
        Inl e \<Rightarrow> (p, Inl e)
      | Inr (root_hash, events, receipt) \<Rightarrow>
          (case projection_commit_expected x f now root_hash PersonalOwner events [] canonical p of
             (p', r) \<Rightarrow> (p', res_bind r (\<lambda>_. Inr receipt))))"

text \<open>Claims.  A worker claims the first queued entry and later completes the attempt it was given.\<close>

record build_guard =
  bg_entry :: projection_entry
  bg_attempt :: nat
  bg_attempt_id :: uuid
  bg_claim_event_watermark :: nat
  bg_canonical_watermark :: canonical_watermark

definition is_queued :: "projection_entry \<Rightarrow> bool" where
  "is_queued e = (case pe_state e of PQueued _ \<Rightarrow> True | _ \<Rightarrow> False)"

definition claim_plan ::
  "nat \<Rightarrow> uuid \<Rightarrow> projection_store_state \<Rightarrow> projection_error + (projection_entry \<times> string \<times> manifest_event) option" where
  "claim_plan now attempt_id s =
     res_bind (projection_current_view_of s) (\<lambda>view.
     case find is_queued (pv_entries view) of
       None \<Rightarrow> Inr None
     | Some e \<Rightarrow>
         res_bind (projection_root_hash s) (\<lambda>root_hash.
         res_bind (ensure (pe_attempt_count e < 2 ^ 32 - 1) (invalid ''projection_attempt_overflow'')) (\<lambda>_.
         res_bind (ensure (pr_committed_at (ps_root s) < u64_max) (invalid ''projection_commit_time_overflow'')) (\<lambda>_.
         let lease_expires_at = max now (pr_committed_at (ps_root s) + 1) + 60000 in
         res_bind (ensure (lease_expires_at \<le> u64_max) (invalid ''projection_lease_overflow'')) (\<lambda>_.
         res_bind (transition_event e (pe_desired_builder_spec_hash e)
                     (PBuilding (pe_attempt_count e + 1) attempt_id lease_expires_at)) (\<lambda>event.
         Inr (Some (e, root_hash, event))))))))"

definition claimed_guard ::
  "projection_entry \<Rightarrow> uuid \<Rightarrow> canonical_projection_snapshot \<Rightarrow> projection_store_state \<Rightarrow> projection_error + build_guard" where
  "claimed_guard e attempt_id canonical s =
     res_bind (projection_current_view_of s) (\<lambda>view.
     res_bind (ok_or (find (\<lambda>c. pe_projection_id c = pe_projection_id e) (pv_entries view))
                 (invalid ''claimed_projection_missing'')) (\<lambda>claimed.
     Inr \<lparr>bg_entry = claimed, bg_attempt = pe_attempt_count e + 1, bg_attempt_id = attempt_id,
          bg_claim_event_watermark = pv_event_watermark view,
          bg_canonical_watermark = projection_watermark (sp_root_hash canonical) (sp_root canonical)\<rparr>))"

definition claim_next ::
  "senv \<Rightarrow> projection_faults \<Rightarrow> nat \<Rightarrow> nat \<Rightarrow> uuid \<Rightarrow> canonical_projection_snapshot \<Rightarrow> projection_store
   \<Rightarrow> projection_store \<times> (projection_error + build_guard option)" where
  "claim_next x f now commit_now attempt_id canonical p =
     (case claim_plan now attempt_id (pm_state p) of
        Inl e \<Rightarrow> (p, Inl e)
      | Inr None \<Rightarrow> (p, Inr None)
      | Inr (Some (e, root_hash, event)) \<Rightarrow>
          (case projection_commit_expected x f commit_now root_hash Worker [event] [] canonical p of
             (p', Inl err) \<Rightarrow> (p', Inl err)
           | (p', Inr _) \<Rightarrow> (p', res_bind (claimed_guard e attempt_id canonical (pm_state p')) (\<lambda>g. Inr (Some g)))))"

definition guard_matches :: "build_guard \<Rightarrow> projection_entry \<Rightarrow> bool" where
  "guard_matches g e =
     (pe_projection_version e = pe_projection_version (bg_entry g)
      \<and> pe_last_transition_sequence e = pe_last_transition_sequence (bg_entry g)
      \<and> pe_source e = pe_source (bg_entry g)
      \<and> pe_desired_builder_spec_hash e = pe_desired_builder_spec_hash (bg_entry g)
      \<and> (case pe_state e of PBuilding attempt attempt_id _ \<Rightarrow> attempt = bg_attempt g \<and> attempt_id = bg_attempt_id g
                         | _ \<Rightarrow> False))"

definition guard_is_current :: "build_guard \<Rightarrow> projection_store_state \<Rightarrow> projection_error + bool" where
  "guard_is_current g s =
     res_bind (ensure (\<not> ps_poisoned s) PWriterPoisoned) (\<lambda>_.
     Inr (case find (\<lambda>e. pe_projection_id e = pe_projection_id (bg_entry g)) (pv_entries (ps_view s)) of
            None \<Rightarrow> False | Some e \<Rightarrow> guard_matches g e))"

definition current_guarded_builder ::
  "build_guard \<Rightarrow> projection_store_state \<Rightarrow> projection_error + (string \<times> active_builder_spec)" where
  "current_guarded_builder g s =
     res_bind (ensure (\<not> ps_poisoned s) PWriterPoisoned) (\<lambda>_.
     res_bind (ok_or (find (\<lambda>e. pe_projection_id e = pe_projection_id (bg_entry g)) (pv_entries (ps_view s))) PHeadConflict) (\<lambda>e.
     res_bind (ensure (guard_matches g e) PHeadConflict) (\<lambda>_.
     case embedding_builder (ps_view s) of
       None \<Rightarrow> Inl PHeadConflict
     | Some active \<Rightarrow>
         if ab_builder_spec_hash active = pe_desired_builder_spec_hash (bg_entry g)
         then Inr (ps_root_hash s, active) else Inl PHeadConflict)))"

definition worker_output_is_valid :: "senv \<Rightarrow> build_guard \<Rightarrow> f32 list \<Rightarrow> projection_store_state \<Rightarrow> projection_error + bool" where
  "worker_output_is_valid x g vector s =
     res_bind (current_guarded_builder g s) (\<lambda>(_, active).
     Inr (validate_embedding_output x (ab_builder_spec active) vector = Inr ()))"

text \<open>The proof that a source is current: a source and the snapshot under which it was checked.\<close>

record projection_guard =
  pg_source :: canonical_source_identity
  pg_snapshot :: canonical_projection_snapshot

definition authorizes :: "projection_guard \<Rightarrow> canonical_source_identity \<Rightarrow> bool" where
  "authorizes g source = (pg_source g = source)"

definition ready_plan ::
  "senv \<Rightarrow> build_guard \<Rightarrow> f32 list \<Rightarrow> projection_guard \<Rightarrow> projection_store_state
   \<Rightarrow> projection_error + (string \<times> manifest_event \<times> embedding_artifact)" where
  "ready_plan x g vector canonical s =
     res_bind (ensure (authorizes canonical (pe_source (bg_entry g))) PHeadConflict) (\<lambda>_.
     res_bind (current_guarded_builder g s) (\<lambda>(root_hash, active).
     let artifact = \<lparr>ea_schema = EMBEDDING_ARTIFACT_SCHEMA, ea_projection_id = pe_projection_id (bg_entry g),
           ea_source_revision_id = si_revision_id (pe_source (bg_entry g)),
           ea_source_content_hash = si_content_hash (pe_source (bg_entry g)),
           ea_builder_spec_hash = pe_desired_builder_spec_hash (bg_entry g),
           ea_dimension = bs_dimension (ab_builder_spec active), ea_encoding = ''f32-json/v1'', ea_vector = vector\<rparr> in
     res_bind (artifact_bytes_and_hash x artifact) (\<lambda>(bytes, artifact_hash).
     res_bind (transition_event (bg_entry g) (pe_desired_builder_spec_hash (bg_entry g))
                 (PReady (bg_attempt g) (bg_attempt_id g)
                   \<lparr>ad_artifact_hash = artifact_hash, ad_byte_length = length bytes,
                    ad_artifact_schema = EMBEDDING_ARTIFACT_SCHEMA, ad_dimension = bs_dimension (ab_builder_spec active),
                    ad_source_revision_id = si_revision_id (pe_source (bg_entry g)),
                    ad_source_content_hash = si_content_hash (pe_source (bg_entry g)),
                    ad_builder_spec_hash = pe_desired_builder_spec_hash (bg_entry g)\<rparr>)) (\<lambda>event.
     Inr (root_hash, event, artifact)))))"

definition complete_ready ::
  "senv \<Rightarrow> projection_faults \<Rightarrow> nat \<Rightarrow> build_guard \<Rightarrow> f32 list \<Rightarrow> projection_guard \<Rightarrow> projection_store
   \<Rightarrow> projection_store \<times> (projection_error + string)" where
  "complete_ready x f now g vector canonical p =
     (case ready_plan x g vector canonical (pm_state p) of
        Inl e \<Rightarrow> (p, Inl e)
      | Inr (root_hash, event, artifact) \<Rightarrow>
          projection_commit x f now root_hash Worker [event] [artifact] (pg_snapshot canonical) False p)"

definition retry_delay_ms :: "nat \<Rightarrow> nat" where
  "retry_delay_ms attempt = min (1000 * 2 ^ min attempt 8) 300000"

definition failed_plan ::
  "nat \<Rightarrow> build_guard \<Rightarrow> failure_category \<Rightarrow> projection_guard \<Rightarrow> projection_store_state
   \<Rightarrow> projection_error + (string \<times> manifest_event)" where
  "failed_plan now g category canonical s =
     res_bind (ensure (authorizes canonical (pe_source (bg_entry g))) PHeadConflict) (\<lambda>_.
     res_bind (current_guarded_builder g s) (\<lambda>(root_hash, _).
     let retryable = (category \<noteq> InvalidProjection \<and> category \<noteq> ProviderIdentityChanged);
         retry_at = max (pr_committed_at (ps_root s)) now + max (retry_delay_ms (bg_attempt g)) 1 in
     res_bind (ensure (\<not> retryable \<or> retry_at \<le> u64_max) (invalid ''projection_retry_time_overflow'')) (\<lambda>_.
     res_bind (transition_event (bg_entry g) (pe_desired_builder_spec_hash (bg_entry g))
                 (PFailed (bg_attempt g) (bg_attempt_id g) category retryable (if retryable then Some retry_at else None)))
       (\<lambda>event.
     Inr (root_hash, event)))))"

definition complete_failed ::
  "senv \<Rightarrow> projection_faults \<Rightarrow> nat \<Rightarrow> nat \<Rightarrow> build_guard \<Rightarrow> failure_category \<Rightarrow> projection_guard \<Rightarrow> projection_store
   \<Rightarrow> projection_store \<times> (projection_error + string)" where
  "complete_failed x f now commit_now g category canonical p =
     (case failed_plan now g category canonical (pm_state p) of
        Inl e \<Rightarrow> (p, Inl e)
      | Inr (root_hash, event) \<Rightarrow>
          projection_commit x f commit_now root_hash Worker [event] [] (pg_snapshot canonical) False p)"

end
