(* ===== verification/Projection_Lifecycle.thy ===== *)
theory Projection_Lifecycle
  imports Projection_Manifest
begin

text \<open>
  What a manifest guarantees once its replay succeeds: the history of every projection is sound, and
  the current view shows where each history stands.
\<close>

section \<open>Histories\<close>

text \<open>The transitions of one projection: source, builder and state of each, in the order of the log.\<close>

type_synonym transition = "canonical_source_identity \<times> string \<times> projection_state"

definition transition_of :: "uuid \<Rightarrow> manifest_record \<Rightarrow> transition option" where
  "transition_of pid r =
     (case mr_event r of
        ProjectionTransition p _ _ _ source desired state \<Rightarrow> if p = pid then Some (source, desired, state) else None
      | _ \<Rightarrow> None)"

definition history :: "uuid \<Rightarrow> manifest_record list \<Rightarrow> transition list" where
  "history pid rs = List.map_filter (transition_of pid) rs"

fun is_building :: "transition \<Rightarrow> bool" where
  "is_building (_, _, PBuilding _ _ _) = True"
| "is_building _ = False"

definition last_state :: "transition list \<Rightarrow> projection_state option" where
  "last_state h = (if h = [] then None else Some (snd (snd (last h))))"

definition builds :: "transition list \<Rightarrow> nat" where
  "builds h = length (filter is_building h)"

text \<open>
  A sound next transition: a build carries the next attempt number; a build ends, well or badly,
  only as the attempt that is running; a finished artifact was made from the content and by the
  builder of the projection; and only a finished artifact goes stale.
\<close>

definition sound_step :: "transition list \<Rightarrow> transition \<Rightarrow> bool" where
  "sound_step h t =
     (case t of (source, desired, state) \<Rightarrow>
        (\<forall>t' \<in> set h. fst t' = source)
        \<and> (case state of
             PBuilding a _ _ \<Rightarrow> a = builds h + 1
           | PReady a i art \<Rightarrow>
               (\<exists>lease. last_state h = Some (PBuilding a i lease))
               \<and> ad_source_revision_id art = si_revision_id source
               \<and> ad_source_content_hash art = si_content_hash source \<and> ad_builder_spec_hash art = desired
           | PFailed a i _ _ _ \<Rightarrow> (\<exists>lease. last_state h = Some (PBuilding a i lease))
           | PStale _ art \<Rightarrow> (\<exists>a i. last_state h = Some (PReady a i art))
           | PAbsent _ \<Rightarrow> True
           | PQueued _ \<Rightarrow> True))"

definition sound_history :: "transition list \<Rightarrow> bool" where
  "sound_history h = (\<forall>k < length h. sound_step (take k h) (h ! k))"

lemma sound_history_Nil [simp]: "sound_history []"
  by (simp add: sound_history_def)

lemma sound_history_snoc [simp]: "sound_history (h @ [t]) \<longleftrightarrow> sound_history h \<and> sound_step h t"
  by (auto simp: sound_history_def nth_append less_Suc_eq)

lemma history_snoc:
  "history pid (rs @ [r]) = history pid rs @ (case transition_of pid r of None \<Rightarrow> [] | Some t \<Rightarrow> [t])"
  by (simp add: history_def List.map_filter_def split: option.split)

section \<open>The invariant of the replay\<close>

definition entry_tells :: "penv \<Rightarrow> uuid \<Rightarrow> projection_entry \<Rightarrow> transition list \<Rightarrow> bool" where
  "entry_tells x pid e h =
     (h \<noteq> [] \<and> last h = (pe_source e, pe_desired_builder_spec_hash e, pe_state e) \<and> pe_projection_id e = pid
      \<and> pe_projection_version e = length h \<and> pe_attempt_count e = builds h \<and> sound_history h
      \<and> projection_id x (si_revision_id (pe_source e)) = Inr pid)"

definition replay_tells :: "penv \<Rightarrow> manifest_record list \<Rightarrow> replay_state \<Rightarrow> bool" where
  "replay_tells x rs s =
     (distinct (map fst (rp_entries s))
      \<and> (\<forall>pid. case map_of (rp_entries s) pid of
            None \<Rightarrow> history pid rs = [] | Some e \<Rightarrow> entry_tells x pid e (history pid rs)))"

lemma sound_history_sources:
  assumes "sound_history h" "h \<noteq> []" "t \<in> set h"
  shows "fst t = fst (last h)"
proof -
  obtain g l where "h = g @ [l]" using assms(2) by (metis append_butlast_last_id)
  then show ?thesis using assms by (auto simp: sound_step_def split: prod.splits)
qed

lemma builds_snoc [simp]: "builds (h @ [t]) = builds h + (if is_building t then 1 else 0)"
  by (simp add: builds_def)

lemma transition_step:
  assumes before: "case previous of None \<Rightarrow> h = [] | Some e \<Rightarrow> entry_tells x pid e h"
    and chain: "chain_continues previous kind version previous_sequence source"
    and binding: "validate_state_binding previous state source desired builder = Inr ()"
    and actor: "validate_actor_and_transition previous state r = Inr ()"
    and attempts: "next_attempt_count previous state = Inr n"
  shows "sound_step h (source, desired, state) \<and> version = length h + 1
    \<and> n = builds h + (if is_building (source, desired, state) then 1 else 0)"
proof -
  have last: "map_option pe_state previous = last_state h"
    using before by (auto simp: last_state_def entry_tells_def split: option.splits)
  have count: "(case previous of None \<Rightarrow> 0 | Some e \<Rightarrow> pe_attempt_count e) = builds h"
    using before by (auto simp: entry_tells_def builds_def split: option.splits)
  have version: "version = length h + 1"
    using before chain by (auto simp: chain_continues_def entry_tells_def split: option.splits)
  have sources: "\<forall>t' \<in> set h. fst t' = source"
  proof (cases previous)
    case None
    then show ?thesis using before by simp
  next
    case (Some e)
    then have "sound_history h" "h \<noteq> []" "fst (last h) = source"
      using before chain by (auto simp: chain_continues_def entry_tells_def)
    then show ?thesis using sound_history_sources by metis
  qed
  have n: "n = builds h + (if is_building (source, desired, state) then 1 else 0)"
    and a: "\<And>a i l. state = PBuilding a i l \<Longrightarrow> a = builds h + 1"
    using attempts by (cases state; simp add: next_attempt_count_def count Let_def split: if_splits)+
  have allowed: "transition_allowed (last_state h) state" "attempt_matches (last_state h) state"
    using actor by (simp_all add: validate_actor_and_transition_def last res_simps Let_def)
  have "sound_step h (source, desired, state)"
  proof (cases state)
    case (PReady b i art)
    then show ?thesis
      using allowed binding sources
      by (auto simp: sound_step_def transition_allowed_def attempt_matches_def validate_state_binding_def
          split: option.splits projection_state.splits)
  next
    case (PFailed b i c d e)
    then show ?thesis
      using allowed sources
      by (auto simp: sound_step_def transition_allowed_def attempt_matches_def
          split: option.splits projection_state.splits)
  next
    case (PStale c art)
    then show ?thesis
      using binding sources
      by (auto simp: sound_step_def validate_state_binding_def last split: option.splits projection_state.splits)
  qed (use a sources in \<open>auto simp: sound_step_def\<close>)
  then show ?thesis using version n by blast
qed

lemma apply_transition_tells:
  assumes inv: "replay_tells x rs s"
    and step: "apply_transition x r pid kind version previous_sequence source desired state s = Inr s'"
    and event: "mr_event r = ProjectionTransition pid kind version previous_sequence source desired state"
  shows "replay_tells x (rs @ [r]) s'"
proof -
  define previous where "previous = map_of (rp_entries s) pid"
  obtain builder n where
    ok: "projection_id x (si_revision_id source) = Inr pid"
      "chain_continues previous kind version previous_sequence source"
      "validate_state_binding previous state source desired builder = Inr ()"
      "validate_actor_and_transition previous state r = Inr ()"
      "next_attempt_count previous state = Inr n"
    and s': "s' = s\<lparr>rp_entries := AList.update pid
        \<lparr>pe_projection_id = pid, pe_projection_kind = kind, pe_projection_version = version,
         pe_last_transition_sequence = mr_sequence r, pe_attempt_count = n, pe_source = source,
         pe_desired_builder_spec_hash = desired, pe_state = state\<rparr> (rp_entries s)\<rparr>"
    using step by (auto simp: apply_transition_def previous_def [symmetric] res_simps Let_def split: if_splits)
  have before: "case previous of None \<Rightarrow> history pid rs = [] | Some e \<Rightarrow> entry_tells x pid e (history pid rs)"
    using inv by (simp add: replay_tells_def previous_def)
  then have sound: "sound_history (history pid rs)"
    by (auto simp: entry_tells_def split: option.splits)
  have same: "history pid (rs @ [r]) = history pid rs @ [(source, desired, state)]"
    by (simp add: history_snoc transition_of_def event)
  have other: "history q (rs @ [r]) = history q rs" if "q \<noteq> pid" for q
    using that by (simp add: history_snoc transition_of_def event)
  have "distinct (map fst (rp_entries s'))" using inv by (simp add: replay_tells_def s' distinct_update)
  moreover have "case map_of (rp_entries s') q of None \<Rightarrow> history q (rs @ [r]) = []
    | Some e \<Rightarrow> entry_tells x q e (history q (rs @ [r]))" for q
  proof (cases "q = pid")
    case True
    then show ?thesis
      using transition_step [OF before ok(2-5)] ok(1) sound by (simp add: s' update_conv' same entry_tells_def)
  next
    case False
    then show ?thesis using inv by (simp add: s' update_conv' other replay_tells_def cong: option.case_cong)
  qed
  ultimately show ?thesis by (simp add: replay_tells_def)
qed

lemma replay_record_tells:
  assumes "replay_tells x rs s" "replay_record x s (k, r) = Inr s'"
  shows "replay_tells x (rs @ [r]) s'"
proof (cases "mr_event r")
  case (ProjectionTransition pid kind version previous_sequence source desired state)
  then show ?thesis
    using assms(2) apply_transition_tells [OF assms(1) _ ProjectionTransition, of s']
    by (simp add: replay_record_def res_simps)
next
  case (BuilderActivated kind spec spec_hash previous_hash)
  then have "rp_entries s' = rp_entries s" "\<And>pid. history pid (rs @ [r]) = history pid rs"
    using assms(2)
    by (auto simp: replay_record_def apply_activation_def res_simps history_snoc transition_of_def)
  then show ?thesis using assms(1) by (simp add: replay_tells_def cong: option.case_cong)
next
  case (ReconciliationAdvanced previous_source next_source classified)
  then have "rp_entries s' = rp_entries s" "\<And>pid. history pid (rs @ [r]) = history pid rs"
    using assms(2)
    by (auto simp: replay_record_def apply_reconciliation_def res_simps history_snoc transition_of_def)
  then show ?thesis using assms(1) by (simp add: replay_tells_def cong: option.case_cong)
qed

lemma replay_tells_all:
  assumes "res_foldM (replay_record x) \<lparr>rp_builders = [], rp_entries = [], rp_reconciled = g\<rparr> (enumerate 0 rs) = Inr s"
  shows "replay_tells x rs s"
proof -
  have "replay_tells x (map snd (enumerate 0 rs)) s"
  proof (rule res_foldM_invariant [OF assms])
    show "replay_tells x (map snd []) \<lparr>rp_builders = [], rp_entries = [], rp_reconciled = g\<rparr>"
      by (simp add: replay_tells_def history_def List.map_filter_def)
    show "replay_tells x (map snd (ys @ [y])) t'" if "replay_tells x (map snd ys) t" "replay_record x t y = Inr t'" for ys y t t'
      using replay_record_tells [of x "map snd ys" t "fst y" "snd y" t'] that by simp
  qed
  then show ?thesis by simp
qed

lemma distinct_map_sort_key [simp]: "distinct (map f (sort_key k xs)) \<longleftrightarrow> distinct (map f xs)"
  by (metis mset_eq_imp_distinct_iff mset_map mset_sort)

text \<open>What the invariant says of one entry, of the keys and of a ready entry.\<close>

lemma replay_tells_entry:
  assumes "replay_tells x rs s" "(pid, e) \<in> set (rp_entries s)"
  shows "entry_tells x pid e (history pid rs)"
proof -
  have "map_of (rp_entries s) pid = Some e" using assms by (simp add: replay_tells_def)
  then show ?thesis using assms(1) unfolding replay_tells_def by (metis option.simps(5))
qed

lemma replay_tells_keys:
  assumes "replay_tells x rs s"
  shows "map (pe_projection_id \<circ> snd) (rp_entries s) = map fst (rp_entries s)"
  using replay_tells_entry [OF assms] by (auto simp: entry_tells_def)

lemma replay_tells_listed:
  assumes "replay_tells x rs s"
  shows "pid \<in> fst ` set (rp_entries s) \<longleftrightarrow> history pid rs \<noteq> []"
  using assms
  by (cases "map_of (rp_entries s) pid")
    (auto simp: replay_tells_def entry_tells_def map_of_eq_None_iff split: option.splits intro: map_of_SomeD rev_image_eqI)

lemma replay_tells_sound: "replay_tells x rs s \<Longrightarrow> sound_history (history pid rs)"
  by (cases "map_of (rp_entries s) pid") (auto simp: replay_tells_def entry_tells_def split: option.splits)

lemma ready_entry_bound:
  assumes "entry_tells x pid e h" "pe_state e = PReady a i art"
  shows "ad_source_revision_id art = si_revision_id (pe_source e)
    \<and> ad_source_content_hash art = si_content_hash (pe_source e)
    \<and> ad_builder_spec_hash art = pe_desired_builder_spec_hash e"
proof -
  obtain g where "h = g @ [(pe_source e, pe_desired_builder_spec_hash e, pe_state e)]"
    using assms(1) unfolding entry_tells_def by (metis append_butlast_last_id)
  then have "sound_step g (pe_source e, pe_desired_builder_spec_hash e, pe_state e)"
    using assms(1) by (simp add: entry_tells_def)
  then show ?thesis by (simp add: sound_step_def assms(2))
qed

text \<open>
  What a successful rebuild gives: one entry per projection, each telling its history, and a builder
  for every entry that is not absent.
\<close>

lemma rebuild_replays:
  assumes "rebuild_projection_view x generation genesis_source records = Inr v"
  obtains s where "replay_tells x records s"
    "res_foldM (replay_record x) \<lparr>rp_builders = [], rp_entries = [], rp_reconciled = genesis_source\<rparr> (enumerate 0 records) = Inr s"
    "pv_entries v = sort_key (si_revision_id \<circ> pe_source) (map snd (sort_key fst (rp_entries s)))"
    "pv_active_builder_specs v = map snd (rp_builders s)" "pv_reconciled_source v = rp_reconciled s"
proof -
  obtain s where s: "res_foldM (replay_record x)
         \<lparr>rp_builders = [], rp_entries = [], rp_reconciled = genesis_source\<rparr> (enumerate 0 records) = Inr s"
    and v: "pv_entries v = sort_key (si_revision_id \<circ> pe_source) (map snd (sort_key fst (rp_entries s)))"
      "pv_active_builder_specs v = map snd (rp_builders s)" "pv_reconciled_source v = rp_reconciled s"
    using assms unfolding rebuild_projection_view_def Let_def by (auto simp: res_simps)
  from replay_tells_all [OF s] s v show thesis by (rule that)
qed

lemma rebuilt_entry_tells:
  assumes "rebuild_projection_view x generation genesis_source records = Inr v" "e \<in> set (pv_entries v)"
  shows "entry_tells x (pe_projection_id e) e (history (pe_projection_id e) records)"
proof -
  obtain s where s: "replay_tells x records s"
    "pv_entries v = sort_key (si_revision_id \<circ> pe_source) (map snd (sort_key fst (rp_entries s)))"
    by (rule rebuild_replays [OF assms(1)])
  obtain pid where "(pid, e) \<in> set (rp_entries s)" using assms(2) by (auto simp: s(2))
  from replay_tells_entry [OF s(1) this] show ?thesis by (simp add: entry_tells_def)
qed

lemma rebuilt_keys:
  assumes "rebuild_projection_view x generation genesis_source records = Inr v"
  shows "distinct (map pe_projection_id (pv_entries v))"
    and "pid \<in> pe_projection_id ` set (pv_entries v) \<longleftrightarrow> history pid records \<noteq> []"
proof -
  obtain s where s: "replay_tells x records s"
    "pv_entries v = sort_key (si_revision_id \<circ> pe_source) (map snd (sort_key fst (rp_entries s)))"
    by (rule rebuild_replays [OF assms])
  show "distinct (map pe_projection_id (pv_entries v))"
    using s(1) by (simp add: s(2) replay_tells_keys [OF s(1)]) (simp add: replay_tells_def)
  have "pe_projection_id ` set (pv_entries v) = fst ` set (rp_entries s)"
    using arg_cong [OF replay_tells_keys [OF s(1)], of set] by (simp add: s(2) image_comp)
  then show "pid \<in> pe_projection_id ` set (pv_entries v) \<longleftrightarrow> history pid records \<noteq> []"
    using replay_tells_listed [OF s(1), of pid] by simp
qed

lemma rebuilt_sound:
  assumes "rebuild_projection_view x generation genesis_source records = Inr v"
  shows "sound_history (history pid records)"
proof -
  obtain s where "replay_tells x records s" by (rule rebuild_replays [OF assms])
  then show ?thesis by (rule replay_tells_sound)
qed

lemma rebuilt_builder_active:
  assumes "rebuild_projection_view x generation genesis_source records = Inr v"
    and "e \<in> set (pv_entries v)" "\<And>reason. pe_state e \<noteq> PAbsent reason"
  shows "pe_desired_builder_spec_hash e \<in> ab_builder_spec_hash ` set (pv_active_builder_specs v)"
proof -
  have "\<not> list_ex (\<lambda>e. (case pe_state e of PAbsent _ \<Rightarrow> False | _ \<Rightarrow> True)
       \<and> (case find (\<lambda>b. ab_projection_kind b = pe_projection_kind e) (pv_active_builder_specs v) of
            None \<Rightarrow> True | Some b \<Rightarrow> ab_builder_spec_hash b \<noteq> pe_desired_builder_spec_hash e)) (pv_entries v)"
    using assms(1) unfolding rebuild_projection_view_def Let_def by (auto simp: res_simps)
  then have "\<not> ((case pe_state e of PAbsent _ \<Rightarrow> False | _ \<Rightarrow> True)
       \<and> (case find (\<lambda>b. ab_projection_kind b = pe_projection_kind e) (pv_active_builder_specs v) of
            None \<Rightarrow> True | Some b \<Rightarrow> ab_builder_spec_hash b \<noteq> pe_desired_builder_spec_hash e))"
    using assms(2) by (simp add: list_ex_iff)
  moreover have "case pe_state e of PAbsent _ \<Rightarrow> False | _ \<Rightarrow> True"
    using assms(3) by (cases "pe_state e") auto
  ultimately obtain b where
    b: "find (\<lambda>b. ab_projection_kind b = pe_projection_kind e) (pv_active_builder_specs v) = Some b"
      "ab_builder_spec_hash b = pe_desired_builder_spec_hash e"
    by (auto split: option.splits)
  show ?thesis using find_Some_in [OF b(1)] b(2) by (auto simp: image_iff intro!: bexI [of _ b])
qed

section \<open>The property\<close>

text \<open>
  C12: an accepted manifest has sound histories, and its view tells where they stand.  When the
  replay succeeds, every projection went through sound steps only: attempts numbered one after the
  other, results only for the attempt in progress, artifacts made from the content and by the
  builder of the projection, stale only what was ready.  The view has exactly one entry for every
  projection of the log, with the state of its last transition, the number of its transitions as
  version and the number of its builds as attempts; and the artifact of a ready entry was made from
  the entry's content by the builder that is active.
\<close>

theorem accepted_manifest_is_sound:
  assumes "rebuild_projection_view x generation genesis_source records = Inr v"
  shows "(\<forall>pid. sound_history (history pid records))
    \<and> distinct (map pe_projection_id (pv_entries v))
    \<and> (\<forall>pid. (\<exists>e \<in> set (pv_entries v). pe_projection_id e = pid) \<longleftrightarrow> history pid records \<noteq> [])
    \<and> (\<forall>e \<in> set (pv_entries v).
         (let h = history (pe_projection_id e) records in
            last h = (pe_source e, pe_desired_builder_spec_hash e, pe_state e)
            \<and> pe_projection_version e = length h \<and> pe_attempt_count e = builds h)
         \<and> (\<forall>a i art. pe_state e = PReady a i art \<longrightarrow>
              ad_source_revision_id art = si_revision_id (pe_source e)
              \<and> ad_source_content_hash art = si_content_hash (pe_source e)
              \<and> ad_builder_spec_hash art \<in> ab_builder_spec_hash ` set (pv_active_builder_specs v)))"
proof -
  note view = assms
  have "(\<exists>e \<in> set (pv_entries v). pe_projection_id e = pid) \<longleftrightarrow> history pid records \<noteq> []" for pid
    using rebuilt_keys(2) [OF view, of pid] by auto
  moreover have "(let h = history (pe_projection_id e) records in
            last h = (pe_source e, pe_desired_builder_spec_hash e, pe_state e)
            \<and> pe_projection_version e = length h \<and> pe_attempt_count e = builds h)" if "e \<in> set (pv_entries v)" for e
    using rebuilt_entry_tells [OF view that] by (simp add: entry_tells_def Let_def)
  moreover have "ad_source_revision_id art = si_revision_id (pe_source e)
      \<and> ad_source_content_hash art = si_content_hash (pe_source e)
      \<and> ad_builder_spec_hash art \<in> ab_builder_spec_hash ` set (pv_active_builder_specs v)"
    if "e \<in> set (pv_entries v)" "pe_state e = PReady a i art" for e a i art
    using ready_entry_bound [OF rebuilt_entry_tells [OF view that(1)] that(2)] rebuilt_builder_active [OF view that(1)] that(2)
    by simp
  ultimately show ?thesis using rebuilt_sound [OF view] rebuilt_keys(1) [OF view] by blast
qed

text \<open>A manifest that activates a builder and brings one revision to a ready artifact.\<close>

definition sample_penv :: penv where
  "sample_penv =
     \<lparr>px_parse_uuid = map_of [(''m'', 1), (''r'', 2)], px_hyphenated = (\<lambda>u. if u = 1 then ''m'' else ''r''),
      px_new_v5 = (\<lambda>n s. n + 1), px_namespace_url = 1, px_sha256_hex = (\<lambda>s. replicate 64 CHR ''a''),
      px_jcs_builder = (\<lambda>b. Some ''b'')\<rparr>"

definition sample_builder :: builder_spec where
  "sample_builder =
     \<lparr>bs_schema = BUILDER_SPEC_SCHEMA, bs_projection_kind = MemoryEmbedding, bs_builder_id = ''b'',
      bs_builder_version = ''1'', bs_provider_family = ''f'', bs_provider_compatibility_id = ''c'',
      bs_model_id = ''e'', bs_raw_dimension = 2, bs_dimension = 2, bs_input_contract = MemoryTextUtf8V1,
      bs_operation_contract = DocumentV1, bs_normalization = ProviderNative,
      bs_transform_contract_id = ''provider-native-document-v1'', bs_artifact_schema = EMBEDDING_ARTIFACT_SCHEMA\<rparr>"

definition sample_source :: canonical_source_identity where
  "sample_source = \<lparr>si_canonical_kind = ''memory_revision'', si_memory_id = ''m'', si_revision_id = ''r'',
      si_revision_sequence = 1, si_content_hash = replicate 64 CHR ''c''\<rparr>"

definition sample_artifact :: artifact_descriptor where
  "sample_artifact = \<lparr>ad_artifact_hash = replicate 64 CHR ''d'', ad_byte_length = 8,
      ad_artifact_schema = EMBEDDING_ARTIFACT_SCHEMA, ad_dimension = 2, ad_source_revision_id = ''r'',
      ad_source_content_hash = replicate 64 CHR ''c'', ad_builder_spec_hash = replicate 64 CHR ''a''\<rparr>"

definition sample_record :: "nat \<Rightarrow> string \<Rightarrow> manifest_event \<Rightarrow> manifest_record" where
  "sample_record n role event =
     \<lparr>mr_schema = MANIFEST_RECORD_SCHEMA, mr_sequence = n, mr_committed_at = n, mr_committed_by_role = role, mr_event = event\<rparr>"

definition sample_transition :: "nat \<Rightarrow> nat option \<Rightarrow> projection_state \<Rightarrow> manifest_event" where
  "sample_transition version previous state =
     ProjectionTransition 3 MemoryEmbedding version previous sample_source (replicate 64 CHR ''a'') state"

definition sample_manifest :: "manifest_record list" where
  "sample_manifest =
     [sample_record 1 PERSONAL_OWNER_ROLE_ID (BuilderActivated MemoryEmbedding sample_builder (replicate 64 CHR ''a'') None),
      sample_record 2 PROJECTION_WORKER_ROLE (sample_transition 1 None (PQueued CanonicalCommit)),
      sample_record 3 PROJECTION_WORKER_ROLE (sample_transition 2 (Some 2) (PBuilding 1 9 10)),
      sample_record 4 PROJECTION_WORKER_ROLE (sample_transition 3 (Some 3) (PReady 1 9 sample_artifact))]"

definition sample_genesis :: canonical_watermark where
  "sample_genesis = \<lparr>cw_root_hash = replicate 64 CHR ''a'', cw_generation = 0, cw_revision_watermark = 1,
      cw_policy_watermark = 0, cw_relation_watermark = 0\<rparr>"

lemma sample_hash [simp]:
  "validate_projection_hash (replicate 64 CHR ''a'') = Inr ()"
  "validate_projection_hash (replicate 64 CHR ''c'') = Inr ()"
  "validate_projection_hash (replicate 64 CHR ''d'') = Inr ()"
  by code_simp+

lemma sample_genesis_valid: "validate_watermark sample_genesis = Inr ()"
  by (simp add: validate_watermark_def sample_genesis_def res_simps JCS_SAFE_INTEGER_def)

lemma sample_builder_valid: "validate_builder_hash sample_penv sample_builder (replicate 64 CHR ''a'') = Inr ()"
proof -
  have "safe_identifier ''b''" "safe_identifier ''1''" "safe_identifier ''f''" "safe_identifier ''c''" "safe_identifier ''e''"
    by code_simp+
  then show ?thesis
    by (simp add: validate_builder_hash_def validate_builder_spec_def builder_spec_hash_def sample_builder_def sample_penv_def
        res_simps MAX_EMBEDDING_DIMENSION_def)
qed

lemma sample_source_valid: "validate_source sample_penv sample_source = Inr ()"
  by (simp add: validate_source_def projection_uuid_def projection_id_def sample_source_def sample_penv_def res_simps
      JCS_SAFE_INTEGER_def Let_def)

lemma sample_artifact_valid: "validate_descriptor sample_penv sample_artifact = Inr ()"
  by (simp add: validate_descriptor_def sample_artifact_def sample_penv_def res_simps JCS_SAFE_INTEGER_def
      MAX_EMBEDDING_ARTIFACT_BYTES_def MAX_EMBEDDING_DIMENSION_def)

lemma sample_projection_id: "projection_id sample_penv ''r'' = Inr 3"
  by (simp add: projection_id_def sample_penv_def res_simps Let_def)

lemmas sample_valid = sample_genesis_valid sample_builder_valid sample_source_valid sample_artifact_valid sample_projection_id

definition sample_replayed :: "nat \<Rightarrow> nat \<Rightarrow> nat \<Rightarrow> projection_state \<Rightarrow> replay_state" where
  "sample_replayed version at attempts state =
     \<lparr>rp_builders = [(MemoryEmbedding, \<lparr>ab_projection_kind = MemoryEmbedding, ab_builder_spec_hash = replicate 64 CHR ''a'',
         ab_builder_spec = sample_builder\<rparr>)],
      rp_entries = [(3, \<lparr>pe_projection_id = 3, pe_projection_kind = MemoryEmbedding, pe_projection_version = version,
         pe_last_transition_sequence = at, pe_attempt_count = attempts, pe_source = sample_source,
         pe_desired_builder_spec_hash = replicate 64 CHR ''a'', pe_state = state\<rparr>)],
      rp_reconciled = sample_genesis\<rparr>"

lemma sample_trim: "\<not> trim_is_empty PERSONAL_OWNER_ROLE_ID" "\<not> trim_is_empty PROJECTION_WORKER_ROLE"
  "PROJECTION_WORKER_ROLE \<noteq> PERSONAL_OWNER_ROLE_ID"
  by code_simp+

lemma sample_fields:
  "bs_projection_kind sample_builder = MemoryEmbedding" "bs_dimension sample_builder = 2" "si_revision_id sample_source = ''r''"
  "si_content_hash sample_source = replicate 64 CHR ''c''" "ad_source_revision_id sample_artifact = ''r''"
  "ad_source_content_hash sample_artifact = replicate 64 CHR ''c''"
  "ad_builder_spec_hash sample_artifact = replicate 64 CHR ''a''" "ad_dimension sample_artifact = 2"
  by (simp_all add: sample_builder_def sample_source_def sample_artifact_def)

lemma sample_replay:
  "res_foldM (replay_record sample_penv) \<lparr>rp_builders = [], rp_entries = [], rp_reconciled = sample_genesis\<rparr>
     (enumerate 0 sample_manifest) = Inr (sample_replayed 3 4 1 (PReady 1 9 sample_artifact))"
  by (simp add: sample_manifest_def sample_record_def sample_transition_def sample_replayed_def replay_record_def
      apply_activation_def apply_transition_def active_hash_def chain_continues_def validate_state_binding_def
      validate_actor_and_transition_def requeue_check_def attempt_matches_def transition_allowed_def
      next_attempt_count_def sample_valid sample_trim sample_fields res_simps Let_def u64_max_def JCS_SAFE_INTEGER_def)

theorem accepted_manifest_is_sound_witness:
  "\<exists>v e. rebuild_projection_view sample_penv 1 sample_genesis sample_manifest = Inr v \<and> pv_entries v = [e]
     \<and> pe_state e = PReady 1 9 sample_artifact \<and> sound_history (history 3 sample_manifest)
     \<and> pe_projection_version e = length (history 3 sample_manifest) \<and> pe_attempt_count e = builds (history 3 sample_manifest)"
proof -
  let ?s = "sample_replayed 3 4 1 (PReady 1 9 sample_artifact)"
  have "\<exists>v. rebuild_projection_view sample_penv 1 sample_genesis sample_manifest = Inr v
      \<and> pv_entries v = map snd (rp_entries ?s)"
    by (simp add: rebuild_projection_view_def sample_replay sample_valid res_simps)
      (simp add: sample_replayed_def)
  then obtain v where v: "rebuild_projection_view sample_penv 1 sample_genesis sample_manifest = Inr v"
    "pv_entries v = map snd (rp_entries ?s)" by blast
  obtain e where e: "pv_entries v = [e]" "pe_projection_id e = 3" "pe_state e = PReady 1 9 sample_artifact"
    using v(2) by (simp add: sample_replayed_def)
  have "sound_history (history 3 sample_manifest)" "pe_projection_version e = length (history 3 sample_manifest)"
    "pe_attempt_count e = builds (history 3 sample_manifest)"
    using accepted_manifest_is_sound [OF v(1)] unfolding e(1) Let_def by (simp_all add: e(2))
  then show ?thesis using v(1) e by blast
qed

end
