(* ===== verification/Projection_Writer.thy ===== *)
theory Projection_Writer
  imports Projection_Store Projection_Lifecycle
begin

text \<open>
  Facts about the writer of the projection manifest: the outcomes of a commit, the invariant of the
  store, and how the histories of projections grow.
\<close>

section \<open>The outcomes of a commit\<close>

definition committed_state ::
  "projection_store_state \<Rightarrow> projection_candidate \<Rightarrow> projection_root \<Rightarrow> string \<Rightarrow> projection_store_state" where
  "committed_state s c root root_hash =
     s\<lparr>ps_root_hash := root_hash, ps_root := root, ps_view := pcd_view c, ps_records := ps_records s @ pcd_records c\<rparr>"

lemma publish_root_cases:
  assumes "publish_root f bytes published p = (p', r)"
  shows "(\<exists>e. r = Inl e \<and> pm_state p' = pm_state p)
    \<or> r = Inl PCommitIndeterminate \<and> pm_state p' = (pm_state p)\<lparr>ps_poisoned := True\<rparr>
    \<or> r = Inr (ps_root_hash published) \<and> pm_state p' = published"
  using assms
  by (cases "pf_publish f") (auto simp: publish_root_def publish_active_def Let_def)

lemma commit_outcome:
  assumes "projection_commit x f now expected actor events artifacts canonical repairing p = (p', r)"
  shows "(\<exists>e. r = Inl e \<and> pm_state p' = pm_state p)
    \<or> r = Inl PCommitIndeterminate \<and> pm_state p' = (pm_state p)\<lparr>ps_poisoned := True\<rparr>
    \<or> (\<exists>c root root_hash objects.
         candidate x now expected actor events canonical repairing (pm_state p) = Inr c
         \<and> manifest_objects x actor (pm_state p) c = Inr (root, root_hash, objects)
         \<and> r = Inr root_hash \<and> pm_state p' = committed_state (pm_state p) c root root_hash)"
proof (cases "candidate x now expected actor events canonical repairing (pm_state p)")
  case (Inl e)
  then show ?thesis using assms by (auto simp: projection_commit_def)
next
  case c: (Inr c)
  obtain st1 q where q: "persist_ready_artifacts x f (pcd_view c) (pcd_records c) artifacts (pm_storage p) = (st1, q)"
    by force
  show ?thesis
  proof (cases q)
    case (Inl e)
    then show ?thesis using assms c q by (auto simp: projection_commit_def)
  next
    case u: (Inr u)
    show ?thesis
    proof (cases "manifest_objects x actor (pm_state p) c")
      case (Inl e)
      then show ?thesis using assms c q u by (auto simp: projection_commit_def)
    next
      case m: (Inr m)
      obtain root root_hash objects where tuple: "m = (root, root_hash, objects)" by (cases m)
      obtain st2 q2 where q2: "put_manifest_objects f objects st1 = (st2, q2)" by force
      show ?thesis
      proof (cases q2)
        case (Inl e)
        then show ?thesis using assms c q u m tuple q2 by (auto simp: projection_commit_def)
      next
        case w: (Inr w)
        show ?thesis
        proof (cases "pointer_bytes x root_hash")
          case (Inl e)
          then have "p' = p\<lparr>pm_storage := st2\<rparr> \<and> r = Inl e"
            using assms c q u m tuple q2 w by (simp add: projection_commit_def)
          then show ?thesis by simp
        next
          case (Inr bytes)
          then have "publish_root f bytes (committed_state (pm_state p) c root root_hash) (p\<lparr>pm_storage := st2\<rparr>) = (p', r)"
            using assms c q u m tuple q2 w by (simp add: projection_commit_def committed_state_def Let_def)
          from publish_root_cases [OF this] c m tuple show ?thesis by (auto simp: committed_state_def)
        qed
      qed
    qed
  qed
qed

lemma commit_success:
  assumes "projection_commit x f now expected actor events artifacts canonical repairing p = (p', Inr h)"
  obtains c root objects where
    "candidate x now expected actor events canonical repairing (pm_state p) = Inr c"
    "manifest_objects x actor (pm_state p) c = Inr (root, h, objects)"
    "pm_state p' = committed_state (pm_state p) c root h"
  using commit_outcome [OF assms] by auto

section \<open>The invariant\<close>

text \<open>The view in memory is the replay of the records, and the root describes it.\<close>

definition store_ok :: "senv \<Rightarrow> projection_store_state \<Rightarrow> bool" where
  "store_ok x s =
     (rebuild_projection_view (sx_penv x) (pr_generation (ps_root s)) (ps_genesis_source s) (ps_records s) = Inr (ps_view s)
      \<and> pr_event_watermark (ps_root s) = length (ps_records s)
      \<and> pr_reconciled_source (ps_root s) = pv_reconciled_source (ps_view s))"

lemma candidate_facts:
  assumes "candidate x now expected actor events canonical repairing s = Inr c"
  shows "\<not> ps_poisoned s" "ps_root_hash s = expected" "events \<noteq> []"
    "rebuild_projection_view (sx_penv x) (pr_generation (ps_root s) + 1) (ps_genesis_source s) (ps_records s @ pcd_records c)
       = Inr (pcd_view c)"
    "validate_candidate (pcd_view c) (ps_records s @ pcd_records c) canonical = Inr ()"
    "pcd_records c = map (\<lambda>(sequence, event).
       \<lparr>mr_schema = MANIFEST_RECORD_SCHEMA, mr_sequence = sequence, mr_committed_at = pcd_committed_at c,
        mr_committed_by_role = actor_role_id actor, mr_event = event\<rparr>) (enumerate (length (ps_records s) + 1) events)"
    "pr_committed_at (ps_root s) < pcd_committed_at c"
  using assms by (auto simp: candidate_def commit_boundary_def stamp_records_def Let_def res_simps)

lemma manifest_objects_root:
  assumes "manifest_objects x actor s c = Inr (root, root_hash, objects)"
  shows "pr_generation root = pr_generation (ps_root s) + 1" "pr_event_watermark root = length (ps_records s @ pcd_records c)"
    "pr_reconciled_source root = pv_reconciled_source (pcd_view c)" "pr_previous_root_hash root = Some (ps_root_hash s)"
    "pr_committed_at root = pcd_committed_at c"
  using assms by (auto simp: manifest_objects_def Let_def res_simps)

lemma committed_ok:
  assumes "candidate x now expected actor events canonical repairing s = Inr c"
    and "manifest_objects x actor s c = Inr (root, root_hash, objects)"
  shows "store_ok x (committed_state s c root root_hash)"
  using candidate_facts(4) [OF assms(1)] manifest_objects_root [OF assms(2)]
  by (simp add: store_ok_def committed_state_def)

section \<open>Runs\<close>

text \<open>
  Every operation of \<open>Projection_Store\<close> is a commit or leaves the state as it is.  A run is a sequence
  of commits with arbitrary arguments, so it covers every interleaving of these operations, also when
  one commits what it planned on an older view.  The repair of artifacts, which clears the list of
  issues after its commit, and the cleanup of a genesis store are not among them.
\<close>

inductive projection_run :: "senv \<Rightarrow> projection_store \<Rightarrow> projection_store \<Rightarrow> bool" for x :: senv where
  idle: "projection_run x p p"
| commits: "projection_run x p q \<Longrightarrow>
    projection_commit x f now expected actor events artifacts canonical repairing q = (q', r) \<Longrightarrow> projection_run x p q'"

lemma commit_is_run:
  "projection_commit x f now expected actor events artifacts canonical repairing p = (p', r) \<Longrightarrow> projection_run x p p'"
  by (rule commits [OF idle])

lemma activate_is_run: "activate_builder x f now spec canonical p = (p', r) \<Longrightarrow> projection_run x p p'"
  by (auto simp: activate_builder_def projection_commit_expected_def split: sum.splits prod.splits if_splits
      intro: idle commit_is_run)

lemma reconcile_is_run: "reconcile_with_receipt x f now commit_now canonical p = (p', r) \<Longrightarrow> projection_run x p p'"
  by (auto simp: reconcile_with_receipt_def projection_commit_expected_def split: sum.splits prod.splits if_splits
      intro: idle commit_is_run)

lemma rebuild_is_run: "owner_rebuild x f now selected canonical p = (p', r) \<Longrightarrow> projection_run x p p'"
  by (auto simp: owner_rebuild_def projection_commit_expected_def split: sum.splits prod.splits
      intro: idle commit_is_run)

lemma claim_is_run: "claim_next x f now commit_now attempt_id canonical p = (p', r) \<Longrightarrow> projection_run x p p'"
  by (auto simp: claim_next_def projection_commit_expected_def split: sum.splits prod.splits option.splits
      intro: idle commit_is_run)

lemma ready_is_run: "complete_ready x f now g vector canonical p = (p', r) \<Longrightarrow> projection_run x p p'"
  by (auto simp: complete_ready_def split: sum.splits prod.splits intro: idle commit_is_run)

lemma failed_is_run: "complete_failed x f now commit_now g category canonical p = (p', r) \<Longrightarrow> projection_run x p p'"
  by (auto simp: complete_failed_def split: sum.splits prod.splits intro: idle commit_is_run)

lemma commit_keeps_store_ok:
  assumes "projection_commit x f now expected actor events artifacts canonical repairing p = (p', r)"
    and "store_ok x (pm_state p)"
  shows "store_ok x (pm_state p')"
  using commit_outcome [OF assms(1)] committed_ok assms(2) by (fastforce simp: store_ok_def)

lemma run_keeps_store_ok: "projection_run x p q \<Longrightarrow> store_ok x (pm_state p) \<Longrightarrow> store_ok x (pm_state q)"
  by (induction rule: projection_run.induct) (auto dest: commit_keeps_store_ok)

lemma commit_extends_records:
  assumes "projection_commit x f now expected actor events artifacts canonical repairing p = (p', r)"
  shows "\<exists>new. ps_records (pm_state p') = ps_records (pm_state p) @ new"
  using commit_outcome [OF assms] by (fastforce simp: committed_state_def)

lemma run_extends_records: "projection_run x p q \<Longrightarrow> \<exists>new. ps_records (pm_state q) = ps_records (pm_state p) @ new"
  by (induction rule: projection_run.induct) (fastforce dest: commit_extends_records)+

lemma history_append: "history pid (rs @ new) = history pid rs @ history pid new"
  by (simp add: history_def List.map_filter_def)

section \<open>Guards\<close>

lemma view_entry_tells:
  assumes "store_ok x s" "e \<in> set (pv_entries (ps_view s))"
  shows "entry_tells (sx_penv x) (pe_projection_id e) e (history (pe_projection_id e) (ps_records s))"
  using assms rebuilt_entry_tells unfolding store_ok_def by blast

text \<open>A guard is for one version of its projection; once the history is longer, it is for nothing.\<close>

lemma guard_outlived:
  assumes "store_ok x s"
    and "pe_projection_version (bg_entry g) < length (history (pe_projection_id (bg_entry g)) (ps_records s))"
  shows "guard_is_current g s \<in> {Inr False, Inl PWriterPoisoned}"
    and "current_guarded_builder g s \<in> {Inl PHeadConflict, Inl PWriterPoisoned}"
proof -
  have outdated: "\<not> guard_matches g e"
    if "find (\<lambda>e. pe_projection_id e = pe_projection_id (bg_entry g)) (pv_entries (ps_view s)) = Some e" for e
    using view_entry_tells [OF assms(1), of e] find_Some_in [OF that] assms(2)
    by (auto simp: guard_matches_def entry_tells_def)
  show "guard_is_current g s \<in> {Inr False, Inl PWriterPoisoned}"
    using outdated by (auto simp: guard_is_current_def ensure_def res_simps split: option.splits if_splits)
  show "current_guarded_builder g s \<in> {Inl PHeadConflict, Inl PWriterPoisoned}"
    using outdated
    by (cases "find (\<lambda>e. pe_projection_id e = pe_projection_id (bg_entry g)) (pv_entries (ps_view s))")
      (auto simp: current_guarded_builder_def ensure_def res_simps)
qed

text \<open>A completion is accepted for the current version, and lengthens the history by its transition.\<close>

lemma guarded_version:
  assumes "store_ok x s" "current_guarded_builder g s = Inr a"
  shows "pe_projection_version (bg_entry g) = length (history (pe_projection_id (bg_entry g)) (ps_records s))"
proof -
  obtain e where e: "find (\<lambda>e. pe_projection_id e = pe_projection_id (bg_entry g)) (pv_entries (ps_view s)) = Some e"
    "guard_matches g e"
    using assms(2) by (auto simp: current_guarded_builder_def res_simps)
  then show ?thesis
    using view_entry_tells [OF assms(1), of e] find_Some_in [OF e(1)] by (auto simp: guard_matches_def entry_tells_def)
qed

lemma ready_plan_facts:
  assumes "ready_plan x g vector canonical s = Inr (root_hash, event, artifact)"
  shows "\<exists>a. current_guarded_builder g s = Inr a"
    "\<exists>kind version previous source desired state.
       event = ProjectionTransition (pe_projection_id (bg_entry g)) kind version previous source desired state"
  using assms by (auto simp: ready_plan_def transition_event_def Let_def res_simps)

lemma failed_plan_facts:
  assumes "failed_plan now g category canonical s = Inr (root_hash, event)"
  shows "\<exists>a. current_guarded_builder g s = Inr a"
    "\<exists>kind version previous source desired state.
       event = ProjectionTransition (pe_projection_id (bg_entry g)) kind version previous source desired state"
  using assms by (auto simp: failed_plan_def transition_event_def Let_def res_simps)

lemma transition_commit_lengthens:
  assumes "projection_commit x f now expected actor [ProjectionTransition pid kind version previous source desired state]
      artifacts canonical repairing p = (p', Inr h)"
  shows "length (history pid (ps_records (pm_state p'))) = length (history pid (ps_records (pm_state p))) + 1"
proof -
  obtain c root objects where
    c: "candidate x now expected actor [ProjectionTransition pid kind version previous source desired state] canonical
      repairing (pm_state p) = Inr c" and p': "pm_state p' = committed_state (pm_state p) c root h"
    by (rule commit_success [OF assms])
  have "history pid (pcd_records c) = [(source, desired, state)]"
    using candidate_facts(6) [OF c] by (simp add: history_def transition_of_def)
  then show ?thesis by (simp add: p' committed_state_def history_append)
qed

lemma completed_guard_outlived:
  assumes "store_ok x (pm_state p)"
    and "complete_ready x f now g vector canonical p = (p1, Inr h)
      \<or> complete_failed x f now commit_now g category canonical p = (p1, Inr h)"
    and "projection_run x p1 q"
  shows "store_ok x (pm_state q)"
    and "pe_projection_version (bg_entry g) < length (history (pe_projection_id (bg_entry g)) (ps_records (pm_state q)))"
proof -
  have p1: "projection_run x p p1" using assms(2) ready_is_run failed_is_run by blast
  show "store_ok x (pm_state q)"
    using run_keeps_store_ok [OF assms(3)] run_keeps_store_ok [OF p1 assms(1)] by blast
  obtain a expected event artifacts canonical' commit_now' kind version previous source desired state where
    guarded: "current_guarded_builder g (pm_state p) = Inr a"
    and event: "event = ProjectionTransition (pe_projection_id (bg_entry g)) kind version previous source desired state"
    and commit: "projection_commit x f commit_now' expected Worker [event] artifacts canonical' False p = (p1, Inr h)"
  proof -
    from assms(2) show thesis
    proof
      assume "complete_ready x f now g vector canonical p = (p1, Inr h)"
      then obtain expected event artifact where
        plan: "ready_plan x g vector canonical (pm_state p) = Inr (expected, event, artifact)"
        and commit: "projection_commit x f now expected Worker [event] [artifact] (pg_snapshot canonical) False p = (p1, Inr h)"
        by (auto simp: complete_ready_def split: sum.splits)
      from ready_plan_facts [OF plan] commit show thesis by (blast intro: that)
    next
      assume "complete_failed x f now commit_now g category canonical p = (p1, Inr h)"
      then obtain expected event where
        plan: "failed_plan now g category canonical (pm_state p) = Inr (expected, event)"
        and commit: "projection_commit x f commit_now expected Worker [event] [] (pg_snapshot canonical) False p = (p1, Inr h)"
        by (auto simp: complete_failed_def split: sum.splits)
      from failed_plan_facts [OF plan] commit show thesis by (blast intro: that)
    qed
  qed
  have "pe_projection_version (bg_entry g) < length (history (pe_projection_id (bg_entry g)) (ps_records (pm_state p1)))"
    using guarded_version [OF assms(1) guarded] transition_commit_lengthens [OF commit [unfolded event]] by simp
  moreover obtain new where "ps_records (pm_state q) = ps_records (pm_state p1) @ new"
    using run_extends_records [OF assms(3)] by blast
  ultimately show "pe_projection_version (bg_entry g) < length (history (pe_projection_id (bg_entry g)) (ps_records (pm_state q)))"
    by (simp add: history_append)
qed

lemma outlived_completions:
  assumes "current_guarded_builder g (pm_state q) \<in> {Inl PHeadConflict, Inl PWriterPoisoned}"
  shows "\<exists>e \<in> {PHeadConflict, PWriterPoisoned}. complete_ready x f now g vector canonical q = (q, Inl e)"
    and "\<exists>e \<in> {PHeadConflict, PWriterPoisoned}. complete_failed x f now commit_now g category canonical q = (q, Inl e)"
  using assms
  by (auto simp: complete_ready_def ready_plan_def complete_failed_def failed_plan_def ensure_def)

section \<open>What a reconciliation plans\<close>

text \<open>A loop that collects optional results stops at the first error and otherwise keeps them in order.\<close>

lemma collect_options:
  assumes "res_foldM (\<lambda>events r. res_bind (g r) (\<lambda>event.
      Inr (events @ (case event of None \<Rightarrow> [] | Some e \<Rightarrow> [e])))) acc rs = Inr events"
  shows "(\<forall>r \<in> set rs. \<exists>event. g r = Inr event) \<and> set events = set acc \<union> {e. \<exists>r \<in> set rs. g r = Inr (Some e)}"
  using assms
proof (induction rs arbitrary: acc)
  case Nil
  then show ?case by simp
next
  case (Cons r rs)
  then obtain event where event: "g r = Inr event"
    and rest: "res_foldM (\<lambda>events r. res_bind (g r) (\<lambda>event.
      Inr (events @ (case event of None \<Rightarrow> [] | Some e \<Rightarrow> [e])))) (acc @ (case event of None \<Rightarrow> [] | Some e \<Rightarrow> [e])) rs
      = Inr events"
    by (auto simp: res_simps)
  from Cons.IH [OF rest] event show ?case by (cases event) auto
qed

lemma reconcile_events_exact:
  assumes "reconcile_events x now spec_hash view canonical = Inr events"
  shows "(\<forall>r \<in> set (sp_revisions canonical). \<exists>event. reconcile_revision x now spec_hash view canonical r = Inr event)
    \<and> set events = {e. \<exists>r \<in> set (sp_revisions canonical). reconcile_revision x now spec_hash view canonical r = Inr (Some e)}"
  using collect_options [OF assms [unfolded reconcile_events_def]] by simp

lemma reconcile_plan_facts:
  assumes "reconcile_plan x now canonical s = Inr (root_hash, events, receipt)"
  obtains builder transitions where
    "\<not> ps_poisoned s" "embedding_builder (ps_view s) = Some builder"
    "reconcile_events x now (ab_builder_spec_hash builder) (ps_view s) canonical = Inr transitions"
    "events = transitions @
       (if pv_reconciled_source (ps_view s) \<noteq> projection_watermark (sp_root_hash canonical) (sp_root canonical)
        then [ReconciliationAdvanced (pv_reconciled_source (ps_view s))
                (projection_watermark (sp_root_hash canonical) (sp_root canonical)) (rt_revision_watermark (sp_root canonical))]
        else [])"
  using assms
  by (auto simp: reconcile_plan_def projection_current_view_of_def projection_root_hash_def Let_def res_simps split: if_splits)

text \<open>The entry of a projection, found by its identifier.\<close>

lemma find_by_key: "distinct (map k es) \<Longrightarrow> e \<in> set es \<Longrightarrow> find (\<lambda>e'. k e' = k e) es = Some e"
  by (induction es) (auto simp: image_iff)

lemma find_entry:
  assumes "store_ok x s" "e \<in> set (pv_entries (ps_view s))"
  shows "find (\<lambda>e'. pe_projection_id e' = pe_projection_id e) (pv_entries (ps_view s)) = Some e"
proof -
  have "distinct (map pe_projection_id (pv_entries (ps_view s)))"
    using assms(1) rebuilt_keys(1) unfolding store_ok_def by blast
  then show ?thesis using assms(2) by (rule find_by_key)
qed

section \<open>A transition in the middle of a replay\<close>

lemma replay_at:
  assumes "res_foldM (replay_record x) s0 (enumerate 0 (before @ r # after)) = Inr s"
    and "s0 = \<lparr>rp_builders = [], rp_entries = [], rp_reconciled = g\<rparr>"
  obtains t t' where "replay_tells x before t" "replay_record x t (length before, r) = Inr t'"
proof -
  have "enumerate 0 (before @ r # after) = enumerate 0 before @ (length before, r) # enumerate (Suc (length before)) after"
    by (simp add: enumerate_append_eq)
  then obtain t t' where "res_foldM (replay_record x) s0 (enumerate 0 before) = Inr t"
    "replay_record x t (length before, r) = Inr t'"
    using assms(1) by (auto simp: res_foldM_append res_simps)
  then show thesis using replay_tells_all [of x g before t] assms(2) that by blast
qed

text \<open>What an accepted transition says about the entry it follows.\<close>

lemma accepted_transition:
  assumes "rebuild_projection_view x generation genesis (before @ r # after) = Inr v"
    and "mr_event r = ProjectionTransition pid kind version (Some previous) source desired state"
  obtains e where "entry_tells x pid e (history pid before)" "pe_projection_version e + 1 = version"
    "mr_committed_by_role r = (if owner_action state then PERSONAL_OWNER_ROLE_ID else PROJECTION_WORKER_ROLE)"
    "transition_allowed (Some (pe_state e)) state"
proof -
  obtain s where "res_foldM (replay_record x) \<lparr>rp_builders = [], rp_entries = [], rp_reconciled = genesis\<rparr>
      (enumerate 0 (before @ r # after)) = Inr s"
    by (rule rebuild_replays [OF assms(1)])
  then obtain t t' where tells: "replay_tells x before t" and step: "replay_record x t (length before, r) = Inr t'"
    by (rule replay_at) simp
  have "apply_transition x r pid kind version (Some previous) source desired state t = Inr t'"
    using step assms(2) by (simp add: replay_record_def res_simps)
  then have chain: "chain_continues (map_of (rp_entries t) pid) kind version (Some previous) source"
    and actor: "validate_actor_and_transition (map_of (rp_entries t) pid) state r = Inr ()"
    by (auto simp: apply_transition_def Let_def res_simps)
  obtain e where e: "map_of (rp_entries t) pid = Some e" "pe_projection_version e + 1 = version"
    using chain by (auto simp: chain_continues_def split: option.splits)
  have "entry_tells x pid e (history pid before)" using replay_tells_entry [OF tells map_of_SomeD [OF e(1)]] .
  moreover have "mr_committed_by_role r = (if owner_action state then PERSONAL_OWNER_ROLE_ID else PROJECTION_WORKER_ROLE)"
    "transition_allowed (Some (pe_state e)) state"
    using actor by (simp_all add: e(1) validate_actor_and_transition_def Let_def res_simps)
  ultimately show thesis using that e(2) by blast
qed

text \<open>A transition planned on the view of the store meets the entry it was planned for.\<close>

lemma accepted_planned_transition:
  assumes ok: "store_ok x s" and e: "e \<in> set (pv_entries (ps_view s))"
    and rebuilt: "rebuild_projection_view (sx_penv x) generation (ps_genesis_source s) (ps_records s @ new) = Inr v"
    and r: "r \<in> set new" "mr_event r = ProjectionTransition (pe_projection_id e) kind (pe_projection_version e + 1)
      (Some previous) source desired state"
  shows "mr_committed_by_role r = (if owner_action state then PERSONAL_OWNER_ROLE_ID else PROJECTION_WORKER_ROLE)
    \<and> transition_allowed (Some (pe_state e)) state"
proof -
  obtain pre post where new: "new = pre @ r # post" using r(1) by (meson split_list)
  obtain e' where e': "entry_tells (sx_penv x) (pe_projection_id e) e' (history (pe_projection_id e) (ps_records s @ pre))"
    "pe_projection_version e' + 1 = pe_projection_version e + 1"
    "mr_committed_by_role r = (if owner_action state then PERSONAL_OWNER_ROLE_ID else PROJECTION_WORKER_ROLE)"
    "transition_allowed (Some (pe_state e')) state"
    using accepted_transition [of "sx_penv x" generation "ps_genesis_source s" "ps_records s @ pre" r post v, OF _ r(2)]
      rebuilt by (auto simp: new)
  have before: "entry_tells (sx_penv x) (pe_projection_id e) e (history (pe_projection_id e) (ps_records s))"
    by (rule view_entry_tells [OF ok e])
  have "history (pe_projection_id e) pre = []"
    using before e'(1,2) by (simp add: entry_tells_def history_append)
  then have "pe_state e' = pe_state e" using before e'(1) by (simp add: entry_tells_def history_append)
  then show ?thesis using e'(3,4) by simp
qed

end
