(* ===== verification/Projection_Guarantees.thy ===== *)
theory Projection_Guarantees
  imports Projection_Writer
begin

text \<open>
  The guarantees of the projection store: what a run keeps, that an attempt ends once, what a
  reconciliation establishes, and when it cannot succeed.
\<close>

section \<open>Reconciliation\<close>

lemma res_foldM_checks: "res_foldM check () xs = Inr u \<longleftrightarrow> (\<forall>y \<in> set xs. check () y = Inr ())"
  by (induction xs) (auto simp: res_simps)

lemma candidate_record:
  assumes c: "candidate x now expected actor events canonical repairing s = Inr c" and "event \<in> set events"
  obtains r where "r \<in> set (pcd_records c)" "mr_event r = event" "mr_committed_by_role r = actor_role_id actor"
proof -
  let ?numbered = "enumerate (length (ps_records s) + 1) events"
  have "event \<in> snd ` set ?numbered" using assms(2) by (metis list.set_map map_snd_enumerate)
  then obtain k where "(k, event) \<in> set ?numbered" by auto
  then have "(\<lambda>(sequence, event). \<lparr>mr_schema = MANIFEST_RECORD_SCHEMA, mr_sequence = sequence,
      mr_committed_at = pcd_committed_at c, mr_committed_by_role = actor_role_id actor, mr_event = event\<rparr>) (k, event)
    \<in> set (pcd_records c)"
    unfolding candidate_facts(6) [OF c] set_map by (rule imageI)
  then show thesis by (rule that) simp_all
qed

lemma blocked_state:
  assumes "(\<exists>reason art. state = PStale reason art) \<and> absent = None
      \<or> (\<exists>old new. state = PAbsent old \<and> absent = Some new \<and> new \<noteq> old)"
  obtains planned where "reconcile_next now (Some state) absent = Some planned"
    "\<not> (actor_role_id Worker = (if owner_action planned then PERSONAL_OWNER_ROLE_ID else PROJECTION_WORKER_ROLE)
      \<and> transition_allowed (Some state) planned)"
proof -
  have worker: "''projection-worker'' \<noteq> PERSONAL_OWNER_ROLE_ID" by code_simp
  from assms show thesis
  proof (elim disjE conjE exE)
    fix reason art assume "state = PStale reason art" "absent = None"
    then show thesis using that [of "PQueued BuilderChanged"] worker by (simp add: reconcile_next_def)
  next
    fix old new assume "state = PAbsent old" "absent = Some new" "new \<noteq> old"
    then show thesis using that [of "PAbsent new"] by (simp add: reconcile_next_def transition_allowed_def)
  qed
qed

lemma blocked_event:
  assumes ok: "store_ok x s" and e: "e \<in> set (pv_entries (ps_view s))"
    and pid: "projection_id (sx_penv x) (rv_revision_id r) = Inr (pe_projection_id e)"
    and next_state: "reconcile_next now (Some (pe_state e)) (expected_absent_reason r (sp_revisions canonical)) = Some state"
    and event: "reconcile_revision x now spec_hash (ps_view s) canonical r = Inr event"
  shows "event = Some (ProjectionTransition (pe_projection_id e) (pe_projection_kind e) (pe_projection_version e + 1)
    (Some (pe_last_transition_sequence e)) (pe_source e) spec_hash state)"
  using event unfolding reconcile_revision_def pid
  by (simp add: find_entry [OF ok e] next_state transition_event_def Let_def res_simps)

text \<open>
  Where the code parts from its design, which has stale projections queued again: when the projection of a revision is stale although the
  revision is eligible, or absent for another reason than the one that now holds, every reconciliation
  fails and changes nothing: the worker plans a transition that the replay accepts from the owner
  only, or one from absent to absent that it never accepts.
\<close>

lemma reconcile_stays_blocked:
  assumes "store_ok x (pm_state p)" "e \<in> set (pv_entries (ps_view (pm_state p)))"
    and "r \<in> set (sp_revisions canonical)"
    and "projection_id (sx_penv x) (rv_revision_id r) = Inr (pe_projection_id e)"
    and "(\<exists>reason art. pe_state e = PStale reason art) \<and> expected_absent_reason r (sp_revisions canonical) = None
      \<or> (\<exists>old new. pe_state e = PAbsent old \<and> expected_absent_reason r (sp_revisions canonical) = Some new \<and> new \<noteq> old)"
  shows "\<exists>error. reconcile_with_receipt x f now commit_now canonical p = (p, Inl error)"
proof (cases "reconcile_plan x now canonical (pm_state p)")
  case (Inl error)
  then show ?thesis by (simp add: reconcile_with_receipt_def)
next
  case (Inr plan)
  obtain root_hash events receipt where plan: "plan = (root_hash, events, receipt)" by (cases plan)
  obtain state where next_state:
    "reconcile_next now (Some (pe_state e)) (expected_absent_reason r (sp_revisions canonical)) = Some state"
    and refused: "\<not> (actor_role_id Worker = (if owner_action state then PERSONAL_OWNER_ROLE_ID else PROJECTION_WORKER_ROLE)
      \<and> transition_allowed (Some (pe_state e)) state)"
    by (rule blocked_state [OF assms(5)])
  obtain builder transitions where
    "\<not> ps_poisoned (pm_state p)" "embedding_builder (ps_view (pm_state p)) = Some builder"
    and transitions: "reconcile_events x now (ab_builder_spec_hash builder) (ps_view (pm_state p)) canonical = Inr transitions"
    and split: "events = transitions @
       (if pv_reconciled_source (ps_view (pm_state p)) \<noteq> projection_watermark (sp_root_hash canonical) (sp_root canonical)
        then [ReconciliationAdvanced (pv_reconciled_source (ps_view (pm_state p)))
                (projection_watermark (sp_root_hash canonical) (sp_root canonical)) (rt_revision_watermark (sp_root canonical))]
        else [])"
    by (rule reconcile_plan_facts [OF Inr [unfolded plan]])
  have events: "set transitions \<subseteq> set events" by (simp add: split)
  define event where "event = ProjectionTransition (pe_projection_id e) (pe_projection_kind e) (pe_projection_version e + 1)
    (Some (pe_last_transition_sequence e)) (pe_source e) (ab_builder_spec_hash builder) state"
  obtain planned where "reconcile_revision x now (ab_builder_spec_hash builder) (ps_view (pm_state p)) canonical r = Inr planned"
    using reconcile_events_exact [OF transitions] assms(3) by blast
  then have "reconcile_revision x now (ab_builder_spec_hash builder) (ps_view (pm_state p)) canonical r = Inr (Some event)"
    using blocked_event [OF assms(1,2,4) next_state] unfolding event_def by simp
  then have "event \<in> set events"
    using reconcile_events_exact [OF transitions] assms(3) events by auto
  have "candidate x commit_now root_hash Worker events canonical False (pm_state p) \<noteq> Inr c" for c
  proof
    assume c: "candidate x commit_now root_hash Worker events canonical False (pm_state p) = Inr c"
    obtain rec where rec: "rec \<in> set (pcd_records c)" "mr_event rec = event" "mr_committed_by_role rec = actor_role_id Worker"
      by (rule candidate_record [OF c \<open>event \<in> set events\<close>])
    from accepted_planned_transition [OF assms(1,2) candidate_facts(4) [OF c] rec(1)] rec refused show False
      unfolding event_def by auto
  qed
  then obtain error where "candidate x commit_now root_hash Worker events canonical False (pm_state p) = Inl error"
    by (meson sum.exhaust)
  then show ?thesis
    using Inr plan \<open>event \<in> set events\<close>
    by (auto simp: reconcile_with_receipt_def projection_commit_expected_def projection_commit_def res_simps)
qed

text \<open>Where the replay of a reconciliation ends.\<close>

lemma transition_keeps_reconciled:
  assumes "replay_record x s (k, r) = Inr s'"
    and "mr_event r = ProjectionTransition pid kind version previous source desired state"
  shows "rp_reconciled s' = rp_reconciled s"
  using assms by (auto simp: replay_record_def apply_transition_def Let_def res_simps)

lemma transitions_keep_reconciled:
  assumes "res_foldM (replay_record x) s rs = Inr s'"
    and "\<forall>r \<in> set rs. \<exists>pid kind version previous source desired state.
      mr_event (snd r) = ProjectionTransition pid kind version previous source desired state"
  shows "rp_reconciled s' = rp_reconciled s"
proof (rule res_foldM_invariant [OF assms(1), where I = "\<lambda>_ t. rp_reconciled t = rp_reconciled s"])
  fix ys y t t' assume "rp_reconciled t = rp_reconciled s" "replay_record x t y = Inr t'" "y \<in> set rs"
  then show "rp_reconciled t' = rp_reconciled s"
    using assms(2) transition_keeps_reconciled [of x t "fst y" "snd y" t'] by fastforce
qed simp

lemma reconciled_after:
  assumes old: "rebuild_projection_view x generation genesis rs = Inr v0"
    and new: "rebuild_projection_view x generation' genesis (rs @ tr @ adv) = Inr v"
    and transitions: "\<forall>r \<in> set tr. \<exists>pid kind version previous source desired state.
      mr_event r = ProjectionTransition pid kind version previous source desired state"
    and advance: "if pv_reconciled_source v0 = target then adv = []
      else \<exists>r n. adv = [r] \<and> mr_event r = ReconciliationAdvanced (pv_reconciled_source v0) target n"
  shows "pv_reconciled_source v = target"
proof -
  let ?s0 = "\<lparr>rp_builders = [], rp_entries = [], rp_reconciled = genesis\<rparr>"
  obtain s where s: "res_foldM (replay_record x) ?s0 (enumerate 0 rs) = Inr s" "pv_reconciled_source v0 = rp_reconciled s"
    by (rule rebuild_replays [OF old]) blast
  obtain u where u: "res_foldM (replay_record x) ?s0 (enumerate 0 (rs @ tr @ adv)) = Inr u" "pv_reconciled_source v = rp_reconciled u"
    by (rule rebuild_replays [OF new]) blast
  obtain t where t: "res_foldM (replay_record x) s (enumerate (length rs) tr) = Inr t"
    "res_foldM (replay_record x) t (enumerate (length rs + length tr) adv) = Inr u"
    using u(1) s(1) by (auto simp: enumerate_append_eq res_foldM_append res_simps)
  have t_s: "rp_reconciled t = rp_reconciled s"
    by (rule transitions_keep_reconciled [OF t(1)]) (use transitions in \<open>auto simp: enumerate_eq_zip dest: set_zip_rightD\<close>)
  show ?thesis
  proof (cases "pv_reconciled_source v0 = target")
    case True
    then show ?thesis using advance t(2) t_s s(2) u(2) by simp
  next
    case False
    then obtain r n where r: "adv = [r]" "mr_event r = ReconciliationAdvanced (pv_reconciled_source v0) target n"
      using advance by auto
    then have "apply_reconciliation r (pv_reconciled_source v0) target n t = Inr u"
      using t(2) by (simp add: replay_record_def res_simps)
    then show ?thesis using u(2) by (auto simp: apply_reconciliation_def res_simps)
  qed
qed

text \<open>
  What the classification of a revision means, and what it needs of the canonical snapshot: revisions
  have distinct identifiers and lie below the watermark of the root.
\<close>

definition classified :: "projection_entry \<Rightarrow> absent_reason option \<Rightarrow> bool" where
  "classified e absent =
     (case absent of Some reason \<Rightarrow> pe_state e = PAbsent reason | None \<Rightarrow> (case pe_state e of PAbsent _ \<Rightarrow> False | _ \<Rightarrow> True))"

definition snapshot_ok :: "canonical_projection_snapshot \<Rightarrow> bool" where
  "snapshot_ok canonical =
     (distinct (map rv_revision_id (sp_revisions canonical))
      \<and> list_all (\<lambda>r. rv_sequence r \<le> rt_revision_watermark (sp_root canonical)) (sp_revisions canonical))"

text \<open>Every snapshot of a loaded ledger is of this kind.\<close>

lemma loaded_snapshot_ok:
  assumes "load_state lx lc st = Inr ls" "projection_snapshot lx lc st ls = Some (Inr canonical)"
  shows "snapshot_ok canonical"
proof -
  obtain ptr root view rs ps rels where l: "loaded lx lc st ptr root view rs ps rels"
    and ls: "ls = state_of ptr root view rs ps rels"
    using assms(1) unfolding load_state_Inr by blast
  have canonical: "sp_revisions canonical = rs" "sp_root canonical = root"
    using assms(2) by (auto simp: ls projection_snapshot_def projection_snapshot_from_state_def Let_def res_simps
        split: option.splits bind_splits)
  have wf: "revision_log_wf lx rs" and len: "length rs = rt_revision_watermark root"
    using l load_segment_chain_length by (auto simp: loaded_def validate_logs_Inr logs_wf_def load_logs_Inr)
  have "rv_sequence r \<le> length rs" if "r \<in> set rs" for r
    using that wf by (auto simp: in_set_conv_nth revision_log_wf_def well_identified_def)
  then show ?thesis using wf len by (simp add: snapshot_ok_def canonical list_all_iff revision_log_wf_def)
qed

lemma source_of_entry:
  assumes "entry_tells x pid e (history pid rs)"
  shows "\<exists>r \<in> set rs. \<exists>kind version previous desired state.
    mr_event r = ProjectionTransition pid kind version previous (pe_source e) desired state"
proof -
  have "(pe_source e, pe_desired_builder_spec_hash e, pe_state e) \<in> set (history pid rs)"
    using assms by (metis entry_tells_def last_in_set)
  then obtain r where "r \<in> set rs" "transition_of pid r = Some (pe_source e, pe_desired_builder_spec_hash e, pe_state e)"
    by (auto simp: history_def List.map_filter_def)
  then show ?thesis
    by (intro bexI [of _ r]) (auto simp: transition_of_def split: manifest_event.splits if_splits)
qed

lemma checked_entry_classified:
  assumes "check_entry_against_canonical source canonical () e = Inr ()"
    and "si_revision_sequence (pe_source e) \<le> cw_revision_watermark source"
    and "find (\<lambda>r. rv_revision_id r = si_revision_id (pe_source e)) (sp_revisions canonical) = Some r"
    and "filter (\<lambda>c. rv_sequence c \<le> cw_revision_watermark source) (sp_revisions canonical) = sp_revisions canonical"
  shows "classified e (expected_absent_reason r (sp_revisions canonical))"
  using assms
  by (cases "expected_absent_reason r (sp_revisions canonical)"; cases "pe_state e")
    (auto simp: check_entry_against_canonical_def classified_def res_simps)

lemma validated_classification:
  assumes valid: "validate_candidate v rs canonical = Inr ()"
    and rebuilt: "rebuild_projection_view x generation genesis rs = Inr v"
    and target: "pv_reconciled_source v = projection_watermark (sp_root_hash canonical) (sp_root canonical)"
    and ok: "snapshot_ok canonical" and r: "r \<in> set (sp_revisions canonical)"
  shows "\<exists>e \<in> set (pv_entries v). projection_id x (rv_revision_id r) = Inr (pe_projection_id e)
    \<and> classified e (expected_absent_reason r (sp_revisions canonical))"
proof -
  let ?source = "pv_reconciled_source v"
  have all: "filter (\<lambda>c. rv_sequence c \<le> cw_revision_watermark ?source) (sp_revisions canonical) = sp_revisions canonical"
    using ok by (simp add: snapshot_ok_def target projection_watermark_def list_all_iff)
  have checks: "\<forall>r \<in> set rs. (case mr_event r of
      ProjectionTransition _ _ _ _ source _ _ \<Rightarrow> validate_source_against_canonical source canonical | _ \<Rightarrow> Inr ()) = Inr ()"
    and covered: "list_all (\<lambda>r. list_ex (\<lambda>e. si_revision_id (pe_source e) = rv_revision_id r) (pv_entries v)) (sp_revisions canonical)"
    and entries: "\<forall>e \<in> set (pv_entries v). check_entry_against_canonical ?source canonical () e = Inr ()"
    using valid unfolding validate_candidate_def Let_def
    by (auto simp: all res_simps res_foldM_checks list_all_iff list_ex_iff)
  obtain e where e: "e \<in> set (pv_entries v)" "si_revision_id (pe_source e) = rv_revision_id r"
    using covered r by (auto simp: list_all_iff list_ex_iff)
  have tells: "entry_tells x (pe_projection_id e) e (history (pe_projection_id e) rs)"
    by (rule rebuilt_entry_tells [OF rebuilt e(1)])
  have found: "find (\<lambda>r'. rv_revision_id r' = si_revision_id (pe_source e)) (sp_revisions canonical) = Some r"
    using find_by_key [of rv_revision_id, OF _ r] ok e(2) by (simp add: snapshot_ok_def)
  have "validate_source_against_canonical (pe_source e) canonical = Inr ()"
    using source_of_entry [OF tells] checks by force
  then have "si_revision_sequence (pe_source e) = rv_sequence r"
    by (simp add: validate_source_against_canonical_def found res_simps)
  then have "si_revision_sequence (pe_source e) \<le> cw_revision_watermark ?source"
    using ok r by (simp add: snapshot_ok_def target projection_watermark_def list_all_iff)
  from checked_entry_classified [OF _ this found all] entries e(1)
  have "classified e (expected_absent_reason r (sp_revisions canonical))" by blast
  then show ?thesis using e tells by (auto simp: entry_tells_def intro!: bexI [of _ e])
qed

text \<open>Nothing planned for a revision means that its entry is already as it should be.\<close>

lemma nothing_planned:
  assumes "reconcile_revision x now spec_hash view canonical r = Inr None"
  shows "\<exists>e \<in> set (pv_entries view). projection_id (sx_penv x) (rv_revision_id r) = Inr (pe_projection_id e)
    \<and> classified e (expected_absent_reason r (sp_revisions canonical))"
proof -
  obtain pid where pid: "projection_id (sx_penv x) (rv_revision_id r) = Inr pid"
    and settled: "reconcile_next now (map_option pe_state (find (\<lambda>e. pe_projection_id e = pid) (pv_entries view)))
      (expected_absent_reason r (sp_revisions canonical)) = None"
    using assms by (auto simp: reconcile_revision_def Let_def res_simps split: option.splits)
  obtain e where e: "find (\<lambda>e. pe_projection_id e = pid) (pv_entries view) = Some e"
    using settled by (cases "find (\<lambda>e. pe_projection_id e = pid) (pv_entries view)")
      (auto simp: reconcile_next_def split: option.splits)
  have "classified e (expected_absent_reason r (sp_revisions canonical))"
    using settled unfolding e
    by (cases "pe_state e"; cases "expected_absent_reason r (sp_revisions canonical)")
      (auto simp: reconcile_next_def classified_def split: if_splits)
  then show ?thesis using find_Some_in [OF e] pid by auto
qed

lemma planned_transition:
  assumes "reconcile_revision x now spec_hash view canonical r = Inr (Some event)"
  shows "\<exists>pid kind version previous source desired state.
    event = ProjectionTransition pid kind version previous source desired state"
proof -
  obtain pid where pid: "projection_id (sx_penv x) (rv_revision_id r) = Inr pid"
    using assms by (auto simp: reconcile_revision_def res_simps)
  show ?thesis
    using assms
    by (cases "find (\<lambda>e. pe_projection_id e = pid) (pv_entries view)")
      (auto simp: reconcile_revision_def pid transition_event_def Let_def res_simps split: option.splits)
qed

text \<open>The target of a committed reconciliation is the root of the snapshot.\<close>

lemma committed_reconciliation:
  assumes ok: "store_ok x s"
    and plan: "reconcile_plan x now canonical s = Inr (root_hash, events, receipt)"
    and c: "candidate x commit_now root_hash Worker events canonical False s = Inr c"
  shows "pv_reconciled_source (pcd_view c) = projection_watermark (sp_root_hash canonical) (sp_root canonical)"
proof -
  let ?target = "projection_watermark (sp_root_hash canonical) (sp_root canonical)"
  obtain builder transitions where
    "\<not> ps_poisoned s" "embedding_builder (ps_view s) = Some builder"
    and transitions: "reconcile_events x now (ab_builder_spec_hash builder) (ps_view s) canonical = Inr transitions"
    and events: "events = transitions @
       (if pv_reconciled_source (ps_view s) \<noteq> ?target
        then [ReconciliationAdvanced (pv_reconciled_source (ps_view s)) ?target (rt_revision_watermark (sp_root canonical))]
        else [])"
    by (rule reconcile_plan_facts [OF plan])
  define stamped where "stamped = (\<lambda>(sequence, event).
       \<lparr>mr_schema = MANIFEST_RECORD_SCHEMA, mr_sequence = sequence, mr_committed_at = pcd_committed_at c,
        mr_committed_by_role = actor_role_id Worker, mr_event = event\<rparr>)"
  have stamped_event: "mr_event (stamped p) = snd p" for p by (simp add: stamped_def case_prod_beta)
  let ?tr = "map stamped (enumerate (length (ps_records s) + 1) transitions)"
  let ?adv = "map stamped (enumerate (length (ps_records s) + 1 + length transitions)
      (if pv_reconciled_source (ps_view s) \<noteq> ?target
       then [ReconciliationAdvanced (pv_reconciled_source (ps_view s)) ?target (rt_revision_watermark (sp_root canonical))]
       else []))"
  have records: "pcd_records c = ?tr @ ?adv"
    using candidate_facts(6) [OF c] unfolding events stamped_def by (simp only: enumerate_append_eq map_append)
  have "\<forall>r \<in> set ?tr. \<exists>pid kind version previous source desired state.
      mr_event r = ProjectionTransition pid kind version previous source desired state"
    using reconcile_events_exact [OF transitions] planned_transition
    by (fastforce simp: stamped_event enumerate_eq_zip dest: set_zip_rightD)
  then show ?thesis
    using ok candidate_facts(4) [OF c] unfolding store_ok_def records
    by (elim conjE, intro reconciled_after [where tr = ?tr and adv = ?adv]) (auto simp: stamped_event)
qed

text \<open>
  C15: a reconciliation classifies every revision.  After a reconciliation with a canonical snapshot
  succeeded, the view is reconciled with the root of the snapshot, and every revision of the snapshot
  has a projection that is absent, with the reason that holds, exactly when the revision is not
  eligible.
\<close>

theorem reconcile_classifies:
  assumes "store_ok x (pm_state p)" "snapshot_ok canonical"
    and "reconcile_with_receipt x f now commit_now canonical p = (p', Inr (root_hash, receipt))"
  shows "pv_reconciled_source (ps_view (pm_state p')) = projection_watermark (sp_root_hash canonical) (sp_root canonical)
    \<and> (\<forall>r \<in> set (sp_revisions canonical). \<exists>e \<in> set (pv_entries (ps_view (pm_state p'))).
         projection_id (sx_penv x) (rv_revision_id r) = Inr (pe_projection_id e)
         \<and> classified e (expected_absent_reason r (sp_revisions canonical)))"
proof -
  obtain root_hash' events receipt' where
    plan: "reconcile_plan x now canonical (pm_state p) = Inr (root_hash', events, receipt')"
    using assms(3) by (auto simp: reconcile_with_receipt_def split: sum.splits)
  show ?thesis
  proof (cases "events = []")
    case True
    obtain builder transitions where
      "\<not> ps_poisoned (pm_state p)" "embedding_builder (ps_view (pm_state p)) = Some builder"
      and transitions: "reconcile_events x now (ab_builder_spec_hash builder) (ps_view (pm_state p)) canonical = Inr transitions"
      and events: "events = transitions @
         (if pv_reconciled_source (ps_view (pm_state p)) \<noteq> projection_watermark (sp_root_hash canonical) (sp_root canonical)
          then [ReconciliationAdvanced (pv_reconciled_source (ps_view (pm_state p)))
                  (projection_watermark (sp_root_hash canonical) (sp_root canonical)) (rt_revision_watermark (sp_root canonical))]
          else [])"
      by (rule reconcile_plan_facts [OF plan])
    have same: "p' = p" using assms(3) True plan by (simp add: reconcile_with_receipt_def)
    have "reconcile_revision x now (ab_builder_spec_hash builder) (ps_view (pm_state p)) canonical r = Inr None"
      if r: "r \<in> set (sp_revisions canonical)" for r
    proof -
      obtain event where event: "reconcile_revision x now (ab_builder_spec_hash builder) (ps_view (pm_state p)) canonical r = Inr event"
        using reconcile_events_exact [OF transitions] r by blast
      moreover have "event = None"
        using reconcile_events_exact [OF transitions] r event events True by (cases event) auto
      ultimately show ?thesis by simp
    qed
    from nothing_planned [OF this] show ?thesis
      using events True unfolding same by (auto split: if_splits)
  next
    case False
    then obtain h where commit: "projection_commit x f commit_now root_hash' Worker events [] canonical False p = (p', Inr h)"
      using assms(3) plan
      by (auto simp: reconcile_with_receipt_def projection_commit_expected_def res_simps split: prod.splits)
    obtain c root objects where c: "candidate x commit_now root_hash' Worker events canonical False (pm_state p) = Inr c"
      and "manifest_objects x Worker (pm_state p) c = Inr (root, h, objects)"
      and p': "pm_state p' = committed_state (pm_state p) c root h"
      by (rule commit_success [OF commit])
    have target: "pv_reconciled_source (pcd_view c) = projection_watermark (sp_root_hash canonical) (sp_root canonical)"
      by (rule committed_reconciliation [OF assms(1) plan c])
    from validated_classification [OF candidate_facts(5) [OF c] candidate_facts(4) [OF c] target assms(2)] target show ?thesis
      by (simp add: p' committed_state_def)
  qed
qed

section \<open>Attempts and histories\<close>

text \<open>
  C14: an attempt ends once.  After a completion of a claimed build was accepted, as ready or as failed,
  the guard of the claim is never current again, whatever is committed afterwards, and every further
  completion with it is refused and changes nothing.
\<close>

theorem attempt_ends_once:
  assumes "store_ok x (pm_state p)"
    and "complete_ready x f now g vector canonical p = (p1, Inr h)
      \<or> complete_failed x f now commit_now g category canonical p = (p1, Inr h)"
    and "projection_run x p1 q"
  shows "guard_is_current g (pm_state q) \<in> {Inr False, Inl PWriterPoisoned}
    \<and> (\<exists>e \<in> {PHeadConflict, PWriterPoisoned}. complete_ready x f' now' g vector' canonical' q = (q, Inl e))
    \<and> (\<exists>e \<in> {PHeadConflict, PWriterPoisoned}. complete_failed x f' now' commit_now' g category' canonical' q = (q, Inl e))"
proof (intro conjI)
  note outlived = guard_outlived [OF completed_guard_outlived [OF assms]]
  show "guard_is_current g (pm_state q) \<in> {Inr False, Inl PWriterPoisoned}" by (rule outlived(1))
  show "\<exists>e \<in> {PHeadConflict, PWriterPoisoned}. complete_ready x f' now' g vector' canonical' q = (q, Inl e)"
    by (rule outlived_completions(1) [OF outlived(2)])
  show "\<exists>e \<in> {PHeadConflict, PWriterPoisoned}. complete_failed x f' now' commit_now' g category' canonical' q = (q, Inl e)"
    by (rule outlived_completions(2) [OF outlived(2)])
qed

text \<open>
  C13: the store tells its manifest.  Whatever is committed, and however commits fail, the view in memory
  is the replay of the records and the root describes it; the records only grow; and a commit that
  fails leaves the state as it was, except that the one with an unknown outcome poisons the writer.
\<close>

theorem projection_store_tells_manifest:
  assumes "store_ok x (pm_state p)" "projection_run x p q"
    and "projection_commit x f now expected actor events artifacts canonical repairing q = (q', r)"
  shows "store_ok x (pm_state q') \<and> (\<exists>new. ps_records (pm_state q') = ps_records (pm_state p) @ new)
    \<and> (case r of
         Inr h \<Rightarrow> ps_root_hash (pm_state q) = expected \<and> ps_root_hash (pm_state q') = h
           \<and> map mr_event (drop (length (ps_records (pm_state q))) (ps_records (pm_state q'))) = events
       | Inl e \<Rightarrow> pm_state q' = pm_state q
           \<or> e = PCommitIndeterminate \<and> pm_state q' = (pm_state q)\<lparr>ps_poisoned := True\<rparr>)"
proof -
  have run: "projection_run x p q'" by (rule projection_run.commits [OF assms(2,3)])
  have "case r of
         Inr h \<Rightarrow> ps_root_hash (pm_state q) = expected \<and> ps_root_hash (pm_state q') = h
           \<and> map mr_event (drop (length (ps_records (pm_state q))) (ps_records (pm_state q'))) = events
       | Inl e \<Rightarrow> pm_state q' = pm_state q
           \<or> e = PCommitIndeterminate \<and> pm_state q' = (pm_state q)\<lparr>ps_poisoned := True\<rparr>"
  proof (cases r)
    case (Inl e)
    then show ?thesis using commit_outcome [OF assms(3)] by auto
  next
    case (Inr h)
    obtain c root objects where c: "candidate x now expected actor events canonical repairing (pm_state q) = Inr c"
      and "manifest_objects x actor (pm_state q) c = Inr (root, h, objects)"
      and q': "pm_state q' = committed_state (pm_state q) c root h"
      by (rule commit_success [OF assms(3) [unfolded Inr]])
    have "map mr_event (pcd_records c) = events"
      unfolding candidate_facts(6) [OF c] by (simp add: case_prod_beta comp_def)
    then show ?thesis using Inr candidate_facts(2) [OF c] by (simp add: q' committed_state_def)
  qed
  then show ?thesis using run_keeps_store_ok [OF run assms(1)] run_extends_records [OF run] by blast
qed

section \<open>A concrete store\<close>

text \<open>
  The manifest of \<open>Projection_Lifecycle\<close> in a store whose encoders give every object the same bytes, so
  that every object has the same hash.
\<close>

definition sample_codec :: "'a json_codec" where
  "sample_codec = \<lparr>j_enc = (\<lambda>_. Some ''x''), j_dec = (\<lambda>_. None)\<rparr>"

definition sample_senv :: senv where
  "sample_senv = \<lparr>sx_penv = sample_penv, sx_from_slice = (\<lambda>_. None), sx_to_vec = (\<lambda>_. None), sx_segment = sample_codec,
     sx_root = sample_codec, sx_view = sample_codec, sx_pointer = sample_codec, sx_artifact = sample_codec,
     sx_unit_norm = (\<lambda>_. True)\<rparr>"

definition sample_faults :: projection_faults where
  "sample_faults = \<lparr>pf_artifact_put = (\<lambda>_. NoPutFault), pf_artifact_read = (\<lambda>_. False), pf_artifact_flush = False,
     pf_manifest_put = (\<lambda>_. NoPutFault), pf_manifest_flush = False, pf_publish = NoPublishFault\<rparr>"

definition sample_storage :: projection_storage where
  "sample_storage =
     \<lparr>pb_manifest = \<lparr>ls_objects = [], ls_active = [], ls_candidate = []\<rparr>,
      pb_artifacts = \<lparr>ls_objects = [], ls_active = [], ls_candidate = []\<rparr>\<rparr>"

definition sample_state :: "manifest_record list \<Rightarrow> replay_state \<Rightarrow> projection_store_state" where
  "sample_state rs t =
     \<lparr>ps_poisoned = False, ps_root_hash = replicate 64 CHR ''a'',
      ps_root = \<lparr>pr_schema = MANIFEST_ROOT_SCHEMA, pr_generation = 1, pr_previous_root_hash = None, pr_manifest_head = None,
        pr_event_watermark = length rs, pr_current_view_hash = replicate 64 CHR ''a'',
        pr_reconciled_source = rp_reconciled t, pr_committed_at = length rs,
        pr_committed_by_role = PERSONAL_OWNER_ROLE_ID\<rparr>,
      ps_view = \<lparr>pv_schema = PROJECTION_VIEW_SCHEMA, pv_generation = 1, pv_event_watermark = length rs,
        pv_reconciled_source = rp_reconciled t, pv_active_builder_specs = map snd (rp_builders t),
        pv_entries = map snd (rp_entries t)\<rparr>,
      ps_records = rs, ps_genesis_source = sample_genesis, ps_artifact_issues = []\<rparr>"

definition sample_store :: "manifest_record list \<Rightarrow> replay_state \<Rightarrow> projection_store" where
  "sample_store rs t = \<lparr>pm_storage = sample_storage, pm_state = sample_state rs t\<rparr>"

definition sample_root :: ledger_root where
  "sample_root = (genesis_root [])\<lparr>rt_revision_watermark := 1\<rparr>"

definition sample_revision :: "string \<Rightarrow> string option \<Rightarrow> string \<Rightarrow> canonical_revision" where
  "sample_revision revision_id parent text =
     \<lparr>rv_schema = REVISION_SCHEMA, rv_sequence = 1, rv_memory_id = ''m'', rv_revision_id = revision_id,
      rv_parent_revision_id = parent, rv_content = Text text, rv_content_hash = replicate 64 CHR ''c'', rv_tags = [],
      rv_memory_type = Untyped, rv_cognitive_tier = Working, rv_deleted_at = None, rv_committed_at = 1,
      rv_committed_by_role = ''agent''\<rparr>"

definition sample_canonical :: "canonical_revision list \<Rightarrow> canonical_projection_snapshot" where
  "sample_canonical revisions =
     \<lparr>sp_genesis_root_hash = replicate 64 CHR ''a'', sp_genesis_root = sample_root, sp_root_hash = replicate 64 CHR ''a'',
      sp_root = sample_root, sp_root_chain = [(replicate 64 CHR ''a'', sample_root)], sp_revisions = revisions\<rparr>"

definition sample_activated :: replay_state where
  "sample_activated = (sample_replayed 0 0 0 (PAbsent Superseded))\<lparr>rp_entries := []\<rparr>"

text \<open>The replay of three prefixes, and the stores they make.\<close>

lemmas sample_step = sample_record_def sample_transition_def sample_replayed_def replay_record_def
  apply_activation_def apply_transition_def active_hash_def chain_continues_def validate_state_binding_def
  validate_actor_and_transition_def requeue_check_def attempt_matches_def transition_allowed_def
  next_attempt_count_def sample_valid sample_trim sample_fields res_simps Let_def u64_max_def JCS_SAFE_INTEGER_def

definition sample_absent_manifest :: "manifest_record list" where
  "sample_absent_manifest =
     take 1 sample_manifest @ [sample_record 2 PROJECTION_WORKER_ROLE (sample_transition 1 None (PAbsent BlankText))]"

abbreviation sample_start :: replay_state where
  "sample_start \<equiv> \<lparr>rp_builders = [], rp_entries = [], rp_reconciled = sample_genesis\<rparr>"

lemma sample_replays:
  "res_foldM (replay_record sample_penv) sample_start (enumerate 0 (take 1 sample_manifest)) = Inr sample_activated"
  "res_foldM (replay_record sample_penv) sample_start (enumerate 0 (take 3 sample_manifest))
     = Inr (sample_replayed 2 3 1 (PBuilding 1 9 10))"
  "res_foldM (replay_record sample_penv) sample_start (enumerate 0 sample_absent_manifest)
     = Inr (sample_replayed 1 2 0 (PAbsent BlankText))"
  by (simp_all add: sample_manifest_def sample_absent_manifest_def sample_activated_def sample_step)

lemma sample_store_ok:
  assumes "res_foldM (replay_record sample_penv) sample_start (enumerate 0 rs) = Inr t"
    and "t = sample_activated \<or> t = sample_replayed version at attempts state"
  shows "store_ok sample_senv (pm_state (sample_store rs t))"
  using assms(2)
  by (auto simp: store_ok_def sample_store_def sample_state_def sample_senv_def rebuild_projection_view_def assms(1)
      sample_valid res_simps Let_def sample_activated_def sample_replayed_def)

text \<open>Commits of this store succeed once their candidate is accepted.\<close>

lemma persist_none_ready:
  "list_all (\<lambda>r. ready_artifact (mr_event r) = None) rs \<Longrightarrow> \<not> pf_artifact_flush f
    \<Longrightarrow> persist_loop x f view rs [] st = (st, Inr ())"
  by (induction rs) simp_all

lemma required_none_ready:
  "list_all (\<lambda>r. ready_artifact (mr_event r) = None) rs \<Longrightarrow> required_artifacts rs = Inr []"
  by (induction rs) (simp_all add: required_artifacts_def res_simps)

lemma sample_validate_hash: "validate_hash (replicate 64 CHR ''a'') = Inr ()"
  by code_simp

lemma sample_commit:
  assumes "candidate sample_senv now (replicate 64 CHR ''a'') actor events canonical repairing (sample_state rs t) = Inr c"
    and "list_all (\<lambda>r. ready_artifact (mr_event r) = None) (pcd_records c)"
  shows "\<exists>p'. projection_commit sample_senv sample_faults now (replicate 64 CHR ''a'') actor events [] canonical repairing
      (sample_store rs t) = (p', Inr (replicate 64 CHR ''a''))"
proof -
  have persist: "persist_ready_artifacts sample_senv sample_faults (pcd_view c) (pcd_records c) [] st = (st, Inr ())" for st
    by (simp add: persist_ready_artifacts_def supplied_artifacts_def required_none_ready [OF assms(2)] res_simps)
      (rule persist_none_ready [OF assms(2)], simp add: sample_faults_def)
  obtain root where objects: "manifest_objects sample_senv actor (sample_state rs t) c
      = Inr (root, replicate 64 CHR ''a'', replicate 3 (replicate 64 CHR ''a'', ''x''))"
    by (simp add: manifest_objects_def segment_bytes_and_hash_def root_bytes_and_hash_def view_bytes_and_hash_def
        projection_bytes_and_hash_def projection_bytes_def projection_require_size_def sample_senv_def sample_codec_def
        sample_penv_def MAX_PROJECTION_MANIFEST_OBJECT_BYTES_def res_simps Let_def numeral_3_eq_3)
  obtain st where put: "put_manifest_objects sample_faults (replicate 3 (replicate 64 CHR ''a'', ''x'')) sample_storage = (st, Inr ())"
    by (simp add: put_manifest_objects_def put_immutable_def sample_validate_hash sample_faults_def sample_storage_def
        numeral_3_eq_3 res_simps)
  have pointer: "pointer_bytes sample_senv h = Inr ''x''" for h
    by (simp add: pointer_bytes_def projection_bytes_def projection_require_size_def sample_senv_def sample_codec_def
        MAX_PROJECTION_POINTER_BYTES_def res_simps)
  show ?thesis
    using assms(1) persist objects put pointer
    by (simp add: projection_commit_def sample_store_def publish_root_def publish_active_def sample_faults_def Let_def)
qed

lemmas sample_candidate = candidate_def commit_boundary_def stamp_records_def rebuild_projection_view_def
  validate_candidate_def validate_source_against_canonical_def check_entry_against_canonical_def
  validate_reconciled_coverage_def projection_watermark_def expected_absent_reason_def sample_canonical_def
  sample_root_def genesis_root_def sample_revision_def sample_source_def sample_genesis_def

definition sample_guard :: build_guard where
  "sample_guard =
     \<lparr>bg_entry = snd (hd (rp_entries (sample_replayed 2 3 1 (PBuilding 1 9 10)))), bg_attempt = 1, bg_attempt_id = 9,
      bg_claim_event_watermark = 3, bg_canonical_watermark = sample_genesis\<rparr>"

lemma sample_text: "\<not> trim_is_empty ''t''" "\<not> trim_is_empty ''projection-worker''" "''projection-worker'' = PROJECTION_WORKER_ROLE"
  by code_simp+

lemmas sample_unfolded = sample_text sample_valid(1) [unfolded sample_genesis_def One_nat_def]
  sample_valid(3) [unfolded sample_source_def One_nat_def]

lemma reconcile_stays_blocked_sample:
  "\<exists>error. reconcile_with_receipt sample_senv sample_faults 5 5
       (sample_canonical [sample_revision ''r'' None '' '', sample_revision ''s'' (Some ''r'') ''t''])
       (sample_store sample_absent_manifest (sample_replayed 1 2 0 (PAbsent BlankText)))
     = (sample_store sample_absent_manifest (sample_replayed 1 2 0 (PAbsent BlankText)), Inl error)"
proof (rule reconcile_stays_blocked)
  let ?t = "sample_replayed 1 2 0 (PAbsent BlankText)"
  show "store_ok sample_senv (pm_state (sample_store sample_absent_manifest ?t))"
    using sample_store_ok [OF sample_replays(3)] by blast
  show "snd (hd (rp_entries ?t)) \<in> set (pv_entries (ps_view (pm_state (sample_store sample_absent_manifest ?t))))"
    by (simp add: sample_store_def sample_state_def sample_replayed_def)
  show "sample_revision ''r'' None '' ''
      \<in> set (sp_revisions (sample_canonical [sample_revision ''r'' None '' '', sample_revision ''s'' (Some ''r'') ''t'']))"
    by (simp add: sample_canonical_def)
qed (simp_all add: sample_senv_def sample_revision_def sample_replayed_def sample_canonical_def sample_valid
    expected_absent_reason_def)

lemma sample_fresh_candidate:
  "\<exists>c. candidate sample_senv 5 (replicate 64 CHR ''a'') Worker [sample_transition 1 None (PQueued Reconciliation)]
      (sample_canonical [sample_revision ''r'' None ''t'']) False (sample_state (take 1 sample_manifest) sample_activated) = Inr c
    \<and> list_all (\<lambda>r. ready_artifact (mr_event r) = None) (pcd_records c)"
  by (simp add: sample_candidate sample_state_def sample_senv_def sample_manifest_def sample_step
      sample_activated_def sample_unfolded)

lemma sample_failed_candidate:
  "\<exists>c. candidate sample_senv 5 (replicate 64 CHR ''a'') Worker
      [sample_transition 3 (Some 3) (PFailed 1 9 ProviderUnavailable True (Some 2005))]
      (sample_canonical [sample_revision ''r'' None ''t'']) False
      (sample_state (take 3 sample_manifest) (sample_replayed 2 3 1 (PBuilding 1 9 10))) = Inr c
    \<and> list_all (\<lambda>r. ready_artifact (mr_event r) = None) (pcd_records c)"
  by (simp add: sample_candidate sample_state_def sample_senv_def sample_manifest_def sample_step sample_unfolded)

lemma sample_fresh_commit:
  obtains q where "projection_commit sample_senv sample_faults 5 (replicate 64 CHR ''a'') Worker
      [sample_transition 1 None (PQueued Reconciliation)] [] (sample_canonical [sample_revision ''r'' None ''t'']) False
      (sample_store (take 1 sample_manifest) sample_activated) = (q, Inr (replicate 64 CHR ''a''))"
  using sample_fresh_candidate sample_commit by blast

lemma sample_fresh_ok: "store_ok sample_senv (pm_state (sample_store (take 1 sample_manifest) sample_activated))"
  by (rule sample_store_ok [OF sample_replays(1)]) simp

theorem projection_store_tells_manifest_witness:
  "\<exists>q :: projection_store. store_ok sample_senv (pm_state q) \<and> (\<exists>new. ps_records (pm_state q) = take 1 sample_manifest @ new)
     \<and> map mr_event (drop 1 (ps_records (pm_state q))) = [sample_transition 1 None (PQueued Reconciliation)]"
proof -
  obtain q where q: "projection_commit sample_senv sample_faults 5 (replicate 64 CHR ''a'') Worker
      [sample_transition 1 None (PQueued Reconciliation)] [] (sample_canonical [sample_revision ''r'' None ''t'']) False
      (sample_store (take 1 sample_manifest) sample_activated) = (q, Inr (replicate 64 CHR ''a''))"
    by (rule sample_fresh_commit)
  have records: "ps_records (pm_state (sample_store (take 1 sample_manifest) sample_activated)) = take 1 sample_manifest"
    "length (take 1 sample_manifest) = 1"
    by (simp_all add: sample_store_def sample_state_def sample_manifest_def)
  from projection_store_tells_manifest [OF sample_fresh_ok projection_run.idle q] show ?thesis
    unfolding records sum.case by (elim conjE, intro exI [of _ q] conjI)
qed

theorem reconcile_classifies_witness:
  "\<exists>q root_hash receipt. reconcile_with_receipt sample_senv sample_faults 5 5 (sample_canonical [sample_revision ''r'' None ''t''])
       (sample_store (take 1 sample_manifest) sample_activated) = (q, Inr (root_hash, receipt))
     \<and> pv_reconciled_source (ps_view (pm_state q)) = sample_genesis
     \<and> (\<exists>e. e \<in> set (pv_entries (ps_view (pm_state q))) \<and> pe_projection_id e = 3 \<and> classified e None)"
proof -
  let ?p = "sample_store (take 1 sample_manifest) sample_activated" and ?r = "sample_revision ''r'' None ''t''"
  obtain q where q: "projection_commit sample_senv sample_faults 5 (replicate 64 CHR ''a'') Worker
      [sample_transition 1 None (PQueued Reconciliation)] [] (sample_canonical [?r]) False
      ?p = (q, Inr (replicate 64 CHR ''a''))"
    by (rule sample_fresh_commit)
  obtain receipt where "reconcile_plan sample_senv 5 (sample_canonical [?r]) (pm_state ?p)
      = Inr (replicate 64 CHR ''a'', [sample_transition 1 None (PQueued Reconciliation)], receipt)"
    by (simp add: reconcile_plan_def projection_current_view_of_def projection_root_hash_def embedding_builder_def
        reconcile_events_def reconcile_revision_def reconcile_next_def canonical_source_def sample_candidate sample_store_def
        sample_state_def sample_senv_def sample_step sample_activated_def sample_unfolded)
  then have run: "reconcile_with_receipt sample_senv sample_faults 5 5 (sample_canonical [?r]) ?p
      = (q, Inr (replicate 64 CHR ''a'', receipt))"
    using q by (simp add: reconcile_with_receipt_def projection_commit_expected_def res_simps)
  have "snapshot_ok (sample_canonical [?r])"
    by (simp add: snapshot_ok_def sample_canonical_def sample_revision_def sample_root_def)
  from reconcile_classifies [OF sample_fresh_ok this run] run show ?thesis
    by (auto simp: sample_canonical_def sample_revision_def sample_senv_def sample_valid projection_watermark_def
        sample_root_def genesis_root_def sample_genesis_def expected_absent_reason_def sample_text)
qed

theorem attempt_ends_once_witness:
  "\<exists>q. complete_failed sample_senv sample_faults 5 5 sample_guard ProviderUnavailable
       \<lparr>pg_source = sample_source, pg_snapshot = sample_canonical [sample_revision ''r'' None ''t'']\<rparr>
       (sample_store (take 3 sample_manifest) (sample_replayed 2 3 1 (PBuilding 1 9 10))) = (q, Inr (replicate 64 CHR ''a''))
     \<and> guard_is_current sample_guard (sample_state (take 3 sample_manifest) (sample_replayed 2 3 1 (PBuilding 1 9 10))) = Inr True
     \<and> guard_is_current sample_guard (pm_state q) \<in> {Inr False, Inl PWriterPoisoned}"
proof -
  let ?t = "sample_replayed 2 3 1 (PBuilding 1 9 10)" and ?c = "sample_canonical [sample_revision ''r'' None ''t'']"
  let ?p = "sample_store (take 3 sample_manifest) ?t" and ?g = "\<lparr>pg_source = sample_source, pg_snapshot = ?c\<rparr>"
  obtain q where q: "projection_commit sample_senv sample_faults 5 (replicate 64 CHR ''a'') Worker
      [sample_transition 3 (Some 3) (PFailed 1 9 ProviderUnavailable True (Some 2005))] [] ?c False ?p
      = (q, Inr (replicate 64 CHR ''a''))"
    using sample_failed_candidate sample_commit by blast
  have plan: "failed_plan 5 sample_guard ProviderUnavailable ?g (pm_state ?p)
      = Inr (replicate 64 CHR ''a'', sample_transition 3 (Some 3) (PFailed 1 9 ProviderUnavailable True (Some 2005)))"
    by (simp add: failed_plan_def authorizes_def current_guarded_builder_def guard_matches_def embedding_builder_def
        retry_delay_ms_def transition_event_def sample_guard_def sample_store_def sample_state_def sample_manifest_def sample_step)
  have run: "complete_failed sample_senv sample_faults 5 5 sample_guard ProviderUnavailable ?g ?p
      = (q, Inr (replicate 64 CHR ''a''))"
    unfolding complete_failed_def plan using q by simp
  have "guard_is_current sample_guard (sample_state (take 3 sample_manifest) ?t) = Inr True"
    by (simp add: guard_is_current_def guard_matches_def sample_guard_def sample_state_def sample_step)
  moreover have "store_ok sample_senv (pm_state ?p)" by (rule sample_store_ok [OF sample_replays(2) disjI2 [OF refl]])
  ultimately show ?thesis using attempt_ends_once [OF _ disjI2 [OF run] projection_run.idle] run by blast
qed

end
