(* ===== verification/Spec2Isabelle.thy ===== *)
theory Spec2Isabelle
  imports Ledger_Reading Layered_Properties Dispatch_Loop Message_Bus Permission_Guard Event_Log Projection_Guarantees
begin

text \<open>
  Plico, a kernel for a personal memory store: a verification of its durable core and of the kernel
  services around it.

  \<^bold>\<open>The program.\<close>  Plico keeps the memories of its user in a \<^emph>\<open>canonical ledger\<close>: append-only logs of
  revisions, access policies and relations, cut into segments, stored as write-once objects named by
  their hash, and reached from a root that a pointer file names.  The kernel works on a
  \<^emph>\<open>layered memory\<close>, a cache in four tiers that mirrors the ledger.  A \<^emph>\<open>projection manifest\<close> records
  which embedding stands for which revision.  Around this core run an agent scheduler with its
  priority queue, dispatch loop and mailboxes, a permission guard, and an event bus with a log on
  disk.

  \<^bold>\<open>How the theories follow the sources\<close> (paths relative to \<open>src/src\<close>).
  \<^item> \<open>Plico_Prelude\<close>: fallible results \<open>'e + 'a\<close> with the question-mark operator (\<open>res_bind\<close>), loops that
    stop at the first error (\<open>res_foldM\<close>, \<open>res_mapM\<close>) and their invariant rule, the string functions of
    the standard library in use.
  \<^item> \<open>Memory_Model\<close>: memory entries, tiers, scopes, contents and the canonical content hash
    (\<open>memory/layered/mod.rs\<close>, types and constructors).
  \<^item> \<open>Ledger_Model\<close>, \<open>Ledger_Validate\<close>: records and validators of the ledger (\<open>memory/ledger/model.rs\<close>,
    \<open>validate.rs\<close>); \<open>Ledger_View\<close>: the current view (\<open>current_view.rs\<close>); \<open>Migration_Manifest\<close>: imported
    ledgers (\<open>migration_manifest.rs\<close>).
  \<^item> \<open>Ledger_Storage\<close>: write-once objects and the exchange of the pointer slots, with every point at which
    the file system can fail as an argument (\<open>cas/ledger_store.rs\<close>); \<open>Hash_Chain\<close>: walks along hash-linked
    objects.
  \<^item> \<open>Ledger_Store\<close>, \<open>Ledger_Load\<close>, \<open>Ledger_Commit\<close>, \<open>Ledger_Durability\<close>, \<open>Ledger_Access\<close>,
    \<open>Ledger_Progress\<close>, \<open>Ledger_Scenario\<close>, \<open>Ledger_Properties\<close>, \<open>Ledger_Reading\<close>: loading, committing and
    querying (\<open>memory/ledger/store.rs\<close>, \<open>hash.rs\<close>); the state is \<open>ledger_state\<close>, the whole write path is
    \<open>commit_records\<close>.
  \<^item> \<open>Layered_Memory\<close>, \<open>Layered_Cas\<close>, \<open>Layered_Coherence\<close>, \<open>Layered_Restart\<close>, \<open>Layered_Access\<close>,
    \<open>Layered_Properties\<close>: the four tiers and their durable operations (\<open>memory/layered/mod.rs\<close>) and the
    start of the kernel on its storage (\<open>kernel/mod.rs\<close>, \<open>kernel/persistence.rs\<close>).  The ledger trait the memory calls is
    the locale \<open>durable_ledger\<close>, interpreted on the ledger above twice: alone, and together with what the
    storage loads to.
  \<^item> \<open>Projection_Manifest\<close>, \<open>Projection_Lifecycle\<close>: records, validators and replay of the projection manifest
    (\<open>memory/projection/model.rs\<close>, \<open>hash.rs\<close>, \<open>validate.rs\<close>, \<open>current_view.rs\<close>); \<open>Projection_Store\<close>: the
    writer of the manifest, with its artifacts, its commit and the operations of owner and worker
    (\<open>store.rs\<close>); the state is \<open>projection_store_state\<close>, the whole write path is \<open>projection_commit\<close>;
    \<open>Projection_Writer\<close>, \<open>Projection_Guarantees\<close>: runs of the writer and what they guarantee.
  \<^item> \<open>Binary_Heap\<close>: the heap of the standard library, with locales for orders and priority queues;
    \<open>Agent_Scheduler\<close>: agents, intents, queue and registry (\<open>scheduler/agent.rs\<close>, \<open>queue.rs\<close>, \<open>mod.rs\<close>);
    \<open>Dispatch_Loop\<close>: the interleaving of the polling task between its await points, its shutdown and abort,
    the tasks of intents and the per-agent locks as step relations (\<open>scheduler/dispatch.rs\<close>); \<open>Message_Bus\<close>: mailboxes (\<open>scheduler/messaging.rs\<close>).
  \<^item> \<open>Permission_Guard\<close>: grants and decisions (\<open>api/permission.rs\<close>, \<open>kernel/ops/permission.rs\<close>).
  \<^item> \<open>Event_Bus\<close>, \<open>Event_Log\<close>: ring, subscriptions, log file with rotation, loading (\<open>kernel/event_bus.rs\<close>
    and the event log of \<open>kernel/persistence.rs\<close>).

  \<^bold>\<open>What is shown.\<close>
  \<^item> Ledger: an acknowledged commit reloads to the writer's state, a failed one changes nothing, the
    outcome in between poisons the writer; stale heads are refused; history only grows; only origin and
    owner write; the validators accept exactly the well-formed logs; well-formed requests are accepted;
    the unbounded walk to the genesis root ends on every store that loads.
  \<^item> Layered memory: after any run of operations a restart from storage shows every role the same
    durable entries, plus at most those of one unsynced commit;
    failures are invisible; quotas hold; deletes are idempotent; reads follow the policies.
  \<^item> Projections: a manifest that replays has sound histories, and the view tells where they stand;
    after any run of the writer the view in memory is the replay of its records; an attempt ends once;
    a reconciliation that succeeds has classified every revision, and two situations are named in which
    it cannot succeed.
  \<^item> Scheduler: the queue returns the oldest intent of the highest priority; agents
    follow their lifecycle; tasks of one agent never overlap; every submitted intent is accounted for,
    and a round of the loop dispatches all that is pending; agents and intents survive a restart; a mailbox is a window of what was sent.
  \<^item> Permissions: the decision in a scope is exactly the one of the grants in force, and a revoked
    permission stays denied.  Events: a subscriber that is never overrun gets every matching event once, and the log on
    disk restores the ring.

  \<^bold>\<open>External code\<close> enters as parameters: SHA-256, JSON and UUID libraries (\<open>xenv\<close>, \<open>ledger_codec\<close>, \<open>penv\<close>,
  \<open>senv\<close>, \<open>event_codec\<close>), the broadcast channel of the async runtime (\<open>broadcast\<close>), clocks and fresh identifiers.
  What is assumed of them is a named predicate (\<open>codec_laws\<close>, \<open>broadcast_laws\<close> and others) in the
  statements that need it, and every such statement is instantiated with concrete functions.  Hash
  collisions are never excluded by assumption; where they matter the statement names the collision.

  \<^bold>\<open>Bounds.\<close>  Counters are natural numbers with the source's checks against \<open>u64::MAX\<close> and \<open>u32::MAX\<close>
  written out.  There is no fuel: loops recurse over their data; the segment loops end because the set of
  visited hashes grows within the object directory; the walk to the genesis root and the polling loop of
  a subscription are partial functions, and the theorems about them say that they return.

  \<^bold>\<open>Not modelled\<close>: floating-point ranking (search, relevance, fusion, reranking; the norm of an embedding is
  a parameter), loading and repair of the projection store, network clients of model providers, file-system details below single objects (directory creation, locks,
  modes, the reset transaction of the projection directory), prompt texts and heuristics, command-line
  and protocol adapters, the knowledge graph and the cognition prototypes.
\<close>

end
